theory Spec2Isabelle
  imports Complex_Main
begin

section \<open>JSON values and the JavaScript operations the sources apply to them\<close>

text \<open>
  The extension works on parsed JSON throughout (documents typed \<open>any\<close>). A value is a
  \<open>json\<close>; \<open>undefined\<close> (a missing property, a missing argument) is \<open>None\<close> of
  \<open>json option\<close>. An object is the list of its own properties in the order
  \<open>Object.keys\<close> enumerates them; the keys of an object are distinct. Finite numbers
  are the rationals their literals denote; \<open>JInf True\<close> and \<open>JInf False\<close> are the numbers
  \<open>Infinity\<close> and \<open>-Infinity\<close>, which no JSON text denotes but which a value typed into
  the editor can become. A \<open>char\<close> stands for one code unit of a string.
\<close>

datatype json =
    JNull
  | JBool bool
  | JNum rat
  | JInf bool
  | JStr string
  | JArr "json list"
  | JObj "(string \<times> json) list"

text \<open>Exceptions: a \<open>TypeError\<close> or a \<open>SyntaxError\<close> (a body that is not JSON) of the runtime, or \<open>throw new Error(msg)\<close>.\<close>

datatype error = TypeError | SyntaxError | Error string

text \<open>\<open>!!v\<close>: the values JavaScript treats as true in a condition.\<close>

fun truthy :: "json \<Rightarrow> bool" where
  "truthy JNull = False"
| "truthy (JBool b) = b"
| "truthy (JNum n) = (n \<noteq> 0)"
| "truthy (JInf b) = True"
| "truthy (JStr s) = (s \<noteq> [])"
| "truthy (JArr xs) = True"
| "truthy (JObj kvs) = True"

definition truthy_opt :: "json option \<Rightarrow> bool" where
  "truthy_opt v = (case v of None \<Rightarrow> False | Some x \<Rightarrow> truthy x)"

text \<open>\<open>typeof v\<close>.\<close>

fun typeof :: "json \<Rightarrow> string" where
  "typeof JNull = ''object''"
| "typeof (JBool b) = ''boolean''"
| "typeof (JNum n) = ''number''"
| "typeof (JInf b) = ''number''"
| "typeof (JStr s) = ''string''"
| "typeof (JArr xs) = ''object''"
| "typeof (JObj kvs) = ''object''"

definition typeof_opt :: "json option \<Rightarrow> string" where
  "typeof_opt v = (case v of None \<Rightarrow> ''undefined'' | Some x \<Rightarrow> typeof x)"

fun isArray :: "json option \<Rightarrow> bool" where
  "isArray (Some (JArr xs)) = True"
| "isArray _ = False"

text \<open>
  \<open>v.k\<close> for a data property \<open>k\<close> of a value that is neither \<open>null\<close> nor
  \<open>undefined\<close>: only objects carry the properties read here. \<open>v?.k\<close> gives
  \<open>undefined\<close> on \<open>null\<close> and \<open>undefined\<close>; \<open>v.k\<close> throws there.
\<close>

fun field :: "json \<Rightarrow> string \<Rightarrow> json option" where
  "field (JObj kvs) k = map_of kvs k"
| "field _ k = None"

definition opt_field :: "json option \<Rightarrow> string \<Rightarrow> json option" where
  "opt_field v k = (case v of None \<Rightarrow> None | Some JNull \<Rightarrow> None | Some x \<Rightarrow> field x k)"

definition get_field :: "json option \<Rightarrow> string \<Rightarrow> error + json option" where
  "get_field v k = (case v of None \<Rightarrow> Inl TypeError | Some JNull \<Rightarrow> Inl TypeError
                    | Some x \<Rightarrow> Inr (field x k))"

text \<open>\<open>a || b\<close> and \<open>a ?? b\<close>.\<close>

definition or_else :: "json option \<Rightarrow> json option \<Rightarrow> json option" where
  "or_else a b = (if truthy_opt a then a else b)"

definition nullish :: "json option \<Rightarrow> bool" where
  "nullish a = (a = None \<or> a = Some JNull)"

definition coalesce :: "json option \<Rightarrow> json option \<Rightarrow> json option" where
  "coalesce a b = (if nullish a then b else a)"

section \<open>ToolSchemaValidator: \<open>validateOas\<close> (panels/SkillEditorPanel.ts)\<close>

definition dq :: string where
  "dq = [CHR 0x22]"

definition validateOas :: "json option \<Rightarrow> string list" where
  "validateOas oas =
    (if \<not> truthy_opt oas \<or> typeof_opt oas \<noteq> ''object'' then [''Content is not a valid object.'']
     else
       let binding = opt_field (opt_field oas ''binding'') ''openapi'' in
       if truthy_opt binding \<and> typeof_opt binding = ''object'' then
         (if \<not> truthy_opt (opt_field binding ''http_method'')
          then [''binding.openapi.http_method is required''] else [])
         @ (if \<not> truthy_opt (opt_field binding ''http_path'')
            then [''binding.openapi.http_path is required''] else [])
         @ (if \<not> truthy_opt (opt_field oas ''input_schema'')
                \<or> typeof_opt (opt_field oas ''input_schema'') \<noteq> ''object''
            then [''input_schema is required for WxO tools''] else [])
         @ (if \<not> truthy_opt (opt_field oas ''name'') \<and> \<not> truthy_opt (opt_field oas ''display_name'')
            then [''name or display_name is required''] else [])
       else
         (if \<not> truthy_opt (opt_field oas ''openapi'') then [''Missing required field: openapi'']
          else if typeof_opt (opt_field oas ''openapi'') \<noteq> ''string''
          then [''openapi must be a string (e.g. '' @ dq @ ''3.0.1'' @ dq @ '')''] else [])
         @ (if \<not> truthy_opt (opt_field oas ''info'') then [''Missing required field: info'']
            else
              (if \<not> truthy_opt (opt_field (opt_field oas ''info'') ''title'')
               then [''info.title is required''] else [])
              @ (if nullish (opt_field (opt_field oas ''info'') ''version'')
                 then [''info.version is recommended''] else []))
         @ (if opt_field oas ''paths'' \<noteq> None
                \<and> (typeof_opt (opt_field oas ''paths'') \<noteq> ''object'' \<or> isArray (opt_field oas ''paths''))
            then [''paths must be an object''] else [])
         @ (if opt_field oas ''servers'' \<noteq> None \<and> \<not> isArray (opt_field oas ''servers'')
            then [''servers must be an array''] else []))"

text \<open>
  The \<open>saveSkill\<close> message handler up to its call of \<open>updateSkill\<close>. The modal dialog
  is the parameter \<open>ask\<close>: it receives what the dialog shows and returns the button the
  user chose (\<open>None\<close> when the dialog is dismissed).
\<close>

datatype prompt =
    ValidationIssues "string list"
  | ConfirmUpdate "string option"

datatype save_outcome =
    SaveCancelled
  | SaveNoToolId
  | SaveCallsUpdate string "json option"

definition saveSkill :: "string option \<Rightarrow> json option \<Rightarrow> (prompt \<Rightarrow> string option) \<Rightarrow> save_outcome" where
  "saveSkill skillId content ask =
    (let saveErrors = validateOas content;
         proceed = (case skillId of
                      None \<Rightarrow> SaveNoToolId
                    | Some sid \<Rightarrow> if sid = [] then SaveNoToolId else SaveCallsUpdate sid content)
     in if length saveErrors > 0 then
          (if ask (ValidationIssues saveErrors) \<noteq> Some ''Update Anyway'' then SaveCancelled else proceed)
        else
          (if ask (ConfirmUpdate skillId) \<noteq> Some ''Update'' then SaveCancelled else proceed))"

section \<open>Characters and decimal numerals\<close>

text \<open>\<open>String(n)\<close> for a natural number, as template strings render a status code.\<close>

fun show_nat :: "nat \<Rightarrow> string" where
  "show_nat n = (if n < 10 then [char_of (48 + n)] else show_nat (n div 10) @ [char_of (48 + n mod 10)])"

text \<open>The character classes of the regular expressions: \<open>[a-zA-Z]\<close>, \<open>[0-9]\<close>, \<open>[a-zA-Z0-9_]\<close>.\<close>

definition is_letter :: "char \<Rightarrow> bool" where
  "is_letter c = (let n = (of_char c :: nat) in (65 \<le> n \<and> n \<le> 90) \<or> (97 \<le> n \<and> n \<le> 122))"

definition is_digit :: "char \<Rightarrow> bool" where
  "is_digit c = (let n = (of_char c :: nat) in 48 \<le> n \<and> n \<le> 57)"

definition is_word_char :: "char \<Rightarrow> bool" where
  "is_word_char c = (is_letter c \<or> is_digit c \<or> c = CHR ''_'')"

section \<open>Update tool: \<open>updateSkill\<close> (api/skills.ts)\<close>

text \<open>
  \<open>woFetch\<close> is the external transport: it either throws or returns a response, of which
  the code reads the status and the body text; \<open>response.ok\<close> is a status from 200 to 299.
  A request is recorded with the JSON value whose serialisation is its body.
  \<open>JSON.parse\<close> is the parameter \<open>parse\<close> (\<open>None\<close> when it throws).
\<close>

record request =
  req_method :: string
  req_path :: string
  req_body :: json

record response =
  status :: nat
  body_text :: string

definition resp_ok :: "response \<Rightarrow> bool" where
  "resp_ok r = (200 \<le> status r \<and> status r \<le> 299)"

text \<open>\<open>Object.keys\<close> of an object.\<close>

definition obj_keys :: "json \<Rightarrow> string list" where
  "obj_keys v = (case v of JObj kvs \<Rightarrow> map fst kvs | _ \<Rightarrow> [])"

text \<open>\<open>s.replace(/[^a-zA-Z0-9_]/g, '_').replace(/^[^a-zA-Z_]+/, '')\<close>\<close>

definition tool_name_chars :: "string \<Rightarrow> string" where
  "tool_name_chars s =
     dropWhile (\<lambda>c. \<not> (is_letter c \<or> c = CHR ''_''))
       (map (\<lambda>c. if is_word_char c then c else CHR ''_'') s)"

text \<open>
  \<open>if (skillJson.name) updatePayload.name = skillJson.name.replace(...)\<close>: a truthy name
  that is not a string has no \<open>replace\<close> method, and the call throws.
\<close>

definition name_entry :: "json \<Rightarrow> error + (string \<times> json) list" where
  "name_entry skillJson =
     (if truthy_opt (field skillJson ''name'')
      then (case field skillJson ''name'' of
              Some (JStr s) \<Rightarrow> Inr [(''name'', JStr (tool_name_chars s))]
            | _ \<Rightarrow> Inl TypeError)
      else Inr [])"

text \<open>\<open>if (skillJson.k) updatePayload.k = skillJson.k\<close>\<close>

definition copy_if_truthy :: "json \<Rightarrow> string \<Rightarrow> (string \<times> json) list" where
  "copy_if_truthy skillJson k =
     (case field skillJson k of
        None \<Rightarrow> []
      | Some v \<Rightarrow> if truthy v then [(k, v)] else [])"

definition updatePayload :: "json option \<Rightarrow> error + json" where
  "updatePayload skillJson =
     (case skillJson of
        None \<Rightarrow> Inl TypeError
      | Some JNull \<Rightarrow> Inl TypeError
      | Some sj \<Rightarrow>
          (case name_entry sj of
             Inl e \<Rightarrow> Inl e
           | Inr nm \<Rightarrow>
               Inr (JObj (nm
                 @ copy_if_truthy sj ''display_name''
                 @ copy_if_truthy sj ''description''
                 @ [(''permission'',
                     (case field sj ''permission'' of
                        None \<Rightarrow> JStr ''read_write''
                      | Some v \<Rightarrow> if truthy v then v else JStr ''read_write''))]
                 @ copy_if_truthy sj ''restrictions''
                 @ copy_if_truthy sj ''tags''))))"

text \<open>What \<open>updateSkill\<close> makes of the last response.\<close>

definition update_result :: "(string \<Rightarrow> json option) \<Rightarrow> response \<Rightarrow> error + json" where
  "update_result parse r =
     (if \<not> resp_ok r
      then Inl (Error (''Failed to update skill: '' @ show_nat (status r) @ '' '' @ body_text r))
      else if status r = 204 then Inr (JObj [(''success'', JBool True)])
      else if body_text r = [] then Inr (JObj [(''success'', JBool True)])
      else (case parse (body_text r) of
              Some v \<Rightarrow> Inr v
            | None \<Rightarrow> Inr (JObj [(''success'', JBool True),
                  (''message'', JStr ''Updated successfully (non-JSON response)'')])))"

text \<open>The function returns the requests it sent, in order, and its result or exception.\<close>

definition updateSkill ::
  "(request \<Rightarrow> error + response) \<Rightarrow> (string \<Rightarrow> json option) \<Rightarrow> string \<Rightarrow> json option
     \<Rightarrow> request list \<times> (error + json)" where
  "updateSkill woFetch parse skillId skillJson =
     (case updatePayload skillJson of
        Inl e \<Rightarrow> ([], Inl e)
      | Inr payload \<Rightarrow>
          let put = \<lparr>req_method = ''PUT'', req_path = ''/v1/orchestrate/tools/'' @ skillId,
                     req_body = payload\<rparr>
          in (case woFetch put of
                Inl e \<Rightarrow> ([put], Inl e)
              | Inr r \<Rightarrow>
                  if status r = 405 then
                    let patch = \<lparr>req_method = ''PATCH'', req_path = ''/v1/orchestrate/tools/'' @ skillId,
                                 req_body = payload\<rparr>
                    in (case woFetch patch of
                          Inl e \<Rightarrow> ([put, patch], Inl e)
                        | Inr r2 \<Rightarrow> ([put, patch], update_result parse r2))
                  else ([put], update_result parse r)))"

text \<open>The fields the update API accepts, as the function's comment lists them.\<close>

definition editable_fields :: "string list" where
  "editable_fields = [''name'', ''display_name'', ''description'', ''permission'', ''restrictions'', ''tags'']"

section \<open>ToolSpecCompiler: \<open>buildToolSpec\<close> and \<open>skillToOas\<close> (api/skills.ts)\<close>

text \<open>
  The compiler and the decompiler are embedded over the document shapes of the data
  model: an OpenAPI document with its operations and parameters, and the bound tool
  record. A property the code reads with \<open>?.\<close>, \<open>||\<close> or \<open>??\<close> is an \<open>option\<close>
  (\<open>None\<close>: missing). Parameter names, \<open>in\<close> locations and types are strings.
  Security arrays, default values and response schemas are passed through as JSON.
  An object with computed keys (\<open>paths\<close>, a path item, \<open>properties\<close>) is the list of its
  entries in insertion order, which is the order \<open>Object.keys\<close> and \<open>Object.entries\<close>
  enumerate keys that are not array indices.
\<close>

text \<open>\<open>a || b\<close> on optional strings: the empty string is falsy.\<close>

definition str_truthy :: "string option \<Rightarrow> bool" where
  "str_truthy a = (case a of None \<Rightarrow> False | Some s \<Rightarrow> s \<noteq> [])"

definition str_or :: "string option \<Rightarrow> string option \<Rightarrow> string option" where
  "str_or a b = (if str_truthy a then a else b)"

definition str_or_lit :: "string option \<Rightarrow> string \<Rightarrow> string" where
  "str_or_lit a d = (case a of None \<Rightarrow> d | Some s \<Rightarrow> if s = [] then d else s)"

text \<open>\<open>toUpperCase\<close> and \<open>toLowerCase\<close> on the letters a to z.\<close>

definition to_upper :: "string \<Rightarrow> string" where
  "to_upper s = map (\<lambda>c. case map_of (zip ''abcdefghijklmnopqrstuvwxyz'' ''ABCDEFGHIJKLMNOPQRSTUVWXYZ'') c of
                         None \<Rightarrow> c | Some u \<Rightarrow> u) s"

definition to_lower :: "string \<Rightarrow> string" where
  "to_lower s = map (\<lambda>c. case map_of (zip ''ABCDEFGHIJKLMNOPQRSTUVWXYZ'' ''abcdefghijklmnopqrstuvwxyz'') c of
                         None \<Rightarrow> c | Some l \<Rightarrow> l) s"

text \<open>
  An array index: the canonical decimal numeral of an integer from 0 to \<open>2^32 - 2\<close>. The
  own keys of an object are enumerated with the array indices first, in ascending numeric
  order, and the other keys after them in the order of their creation.
\<close>

definition digit_value :: "string \<Rightarrow> nat" where
  "digit_value s = foldl (\<lambda>n c. 10 * n + (of_char c - 48)) 0 s"

definition is_array_index :: "string \<Rightarrow> bool" where
  "is_array_index k =
     (k \<noteq> [] \<and> list_all is_digit k \<and> (k = ''0'' \<or> hd k \<noteq> CHR ''0'') \<and> digit_value k < 4294967295)"

text \<open>The value of an own property is replaced where the property stands.\<close>

fun replace_prop :: "(string \<times> 'a) list \<Rightarrow> string \<Rightarrow> 'a \<Rightarrow> (string \<times> 'a) list" where
  "replace_prop [] k v = []"
| "replace_prop ((k', v') # kvs) k v = (if k' = k then (k, v) # kvs else (k', v') # replace_prop kvs k v)"

text \<open>A new array index goes before the first key that is not a smaller array index.\<close>

fun insert_index :: "(string \<times> 'a) list \<Rightarrow> string \<Rightarrow> 'a \<Rightarrow> (string \<times> 'a) list" where
  "insert_index [] k v = [(k, v)]"
| "insert_index ((k', v') # kvs) k v =
     (if is_array_index k' \<and> digit_value k' < digit_value k then (k', v') # insert_index kvs k v
      else (k, v) # (k', v') # kvs)"

text \<open>
  \<open>obj[k] = v\<close> on an ordinary object whose prototype chain ends in \<open>Object.prototype\<close>.
  An own property keeps its place and takes the value. Otherwise the key \<open>__proto__\<close>
  reaches the inherited setter, which changes the prototype of the object (or nothing)
  and creates no own property; the functions modelled here read the own properties only
  (\<open>Object.entries\<close>, \<open>JSON.stringify\<close>). A new array index is placed among the array
  indices, and any other new key is added last. An object literal with a spread,
  \<open>{...obj, k: v}\<close> for a key \<open>k\<close> written in the source, gives the same list.
\<close>

definition set_prop :: "(string \<times> 'a) list \<Rightarrow> string \<Rightarrow> 'a \<Rightarrow> (string \<times> 'a) list" where
  "set_prop kvs k v =
     (if k \<in> fst ` set kvs then replace_prop kvs k v
      else if k = ''__proto__'' then kvs
      else if is_array_index k then insert_index kvs k v
      else kvs @ [(k, v)])"

record schema_obj =
  s_type :: "string option"
  s_title :: "string option"
  s_description :: "string option"
  s_default :: "json option"
  s_enum :: "json option"

record parameter =
  p_name :: string
  p_in :: "string option"
  p_required :: bool
  p_description :: "string option"
  p_schema :: "schema_obj option"

text \<open>\<open>responses['200']\<close>: its description and \<open>content['application/json'].schema\<close>.\<close>

record response200 =
  r_description :: "string option"
  r_schema :: "(string \<times> json) list option"

record operation =
  op_operationId :: "string option"
  op_summary :: "string option"
  op_parameters :: "parameter list option"
  op_security :: "json option"
  op_response200 :: "response200 option"

datatype server = SrvString string | SrvObject "string option" | SrvNull

record info_obj =
  i_title :: "string option"
  i_version :: "string option"
  i_description :: "string option"
  i_skill_name :: "string option"
  i_skill_id :: "string option"

text \<open>
  The OpenAPI document. \<open>oas_binding_security\<close> and \<open>oas_binding_connection_id\<close> are
  \<open>binding?.openapi?.security\<close> and \<open>binding?.openapi?.connection_id\<close>, which the compiler
  also consults on the document it is given.
\<close>

record openapi_doc =
  oas_openapi :: "string option"
  oas_info :: "info_obj option"
  oas_servers :: "server list option"
  oas_paths :: "(string \<times> (string \<times> operation) list) list option"
  oas_x_ibm_security :: "json option"
  oas_x_ibm_connection_id :: "string option"
  oas_binding_security :: "json option"
  oas_binding_connection_id :: "string option"
  oas_securitySchemes :: "(string \<times> json) list option"
  oas_security :: "json option"

record tool_meta =
  tm_name :: "string option"
  tm_description :: "string option"
  tm_permission :: "string option"
  tm_restrictions :: "string option"
  tm_tags :: "string list option"

text \<open>A property of \<open>input_schema.properties\<close>.\<close>

record schema_prop =
  pr_type :: "string option"
  pr_title :: "string option"
  pr_description :: "string option"
  pr_in :: "string option"
  pr_default :: "json option"
  pr_aliasName :: "string option"
  pr_enum :: "json option"

record input_schema =
  is_type :: string
  is_properties :: "(string \<times> schema_prop) list"
  is_required :: "string list option"

record openapi_binding =
  b_http_method :: "string option"
  b_http_path :: "string option"
  b_security :: "json list"
  b_servers :: "server list"
  b_connection_id :: "string option"

record tool_spec =
  ts_name :: "string option"
  ts_display_name :: "string option"
  ts_description :: "string option"
  ts_permission :: "string option"
  ts_restrictions :: "string option"
  ts_tags :: "string list option"
  ts_binding :: "openapi_binding option"
  ts_input_schema :: "input_schema option"
  ts_output_schema :: "(string \<times> json) list option"
  ts_info_version :: "string option"

subsection \<open>\<open>deriveBindingSecurity\<close>\<close>

text \<open>\<open>Object.keys(ref)[0]\<close> as a property key, for a \<open>ref\<close> of type object.\<close>

fun first_key :: "json \<Rightarrow> string" where
  "first_key (JObj ((k, v) # kvs)) = k"
| "first_key (JArr (x # xs)) = ''0''"
| "first_key _ = ''undefined''"

definition json_or_lit :: "json option \<Rightarrow> string \<Rightarrow> json" where
  "json_or_lit a d = (case a of None \<Rightarrow> JStr d | Some v \<Rightarrow> if truthy v then v else JStr d)"

text \<open>One iteration of the loop over \<open>secRefs\<close>: the entries it pushes onto \<open>flat\<close>.\<close>

definition flat_entry :: "(string \<times> json) list \<Rightarrow> json \<Rightarrow> json list" where
  "flat_entry schemes ref =
     (if typeof ref \<noteq> ''object'' \<or> \<not> truthy ref then []
      else
        let scheme = map_of schemes (first_key ref) in
        if opt_field scheme ''type'' = Some (JStr ''apiKey'') then
          [JObj [(''type'', JStr ''apiKey''),
                 (''in'', json_or_lit (opt_field scheme ''in'') ''query''),
                 (''name'', json_or_lit (opt_field scheme ''name'') ''apiKey'')]]
        else if opt_field scheme ''type'' = Some (JStr ''http'')
                \<or> opt_field scheme ''scheme'' = Some (JStr ''bearer'') then
          [JObj [(''type'', JStr ''http''),
                 (''scheme'', json_or_lit (opt_field scheme ''scheme'') ''bearer''),
                 (''name'', json_or_lit (opt_field scheme ''name'') ''Authorization'')]]
        else [])"

definition deriveBindingSecurity :: "openapi_doc \<Rightarrow> operation \<Rightarrow> json list" where
  "deriveBindingSecurity openApiSpec op =
     (let explicit = coalesce (oas_x_ibm_security openApiSpec) (oas_binding_security openApiSpec) in
      case explicit of
        Some (JArr (e # es)) \<Rightarrow> e # es
      | _ \<Rightarrow>
         (let schemes = (case oas_securitySchemes openApiSpec of None \<Rightarrow> [] | Some sc \<Rightarrow> sc);
              secRefs = coalesce (coalesce (op_security op) (oas_security openApiSpec)) (Some (JArr []))
          in case secRefs of
               Some (JArr refs) \<Rightarrow> concat (map (flat_entry schemes) refs)
             | _ \<Rightarrow> []))"

subsection \<open>\<open>buildToolSpec\<close>\<close>

text \<open>
  The state of the loop over \<open>op.parameters\<close>: \<open>properties\<close>, \<open>required\<close> and the set
  \<open>usedKeys\<close>.
\<close>

record param_state =
  properties :: "(string \<times> schema_prop) list"
  required :: "string list"
  usedKeys :: "string set"

definition param_in :: "parameter \<Rightarrow> string" where
  "param_in p = str_or_lit (p_in p) ''query''"

definition prop_key :: "string set \<Rightarrow> parameter \<Rightarrow> string" where
  "prop_key used p = (if p_name p \<in> used then param_in p @ ''_'' @ p_name p else p_name p)"

definition prop_schema :: "string \<Rightarrow> parameter \<Rightarrow> schema_prop" where
  "prop_schema propKey p =
     \<lparr>pr_type = Some (str_or_lit (case p_schema p of None \<Rightarrow> None | Some s \<Rightarrow> s_type s) ''string''),
      pr_title = Some (case (case p_schema p of None \<Rightarrow> None | Some s \<Rightarrow> s_title s) of
                         None \<Rightarrow> p_name p | Some t \<Rightarrow> t),
      pr_description = Some (str_or_lit (str_or (p_description p)
                         (case p_schema p of None \<Rightarrow> None | Some s \<Rightarrow> s_description s)) []),
      pr_in = Some (param_in p),
      pr_default = (case p_schema p of None \<Rightarrow> None
                    | Some s \<Rightarrow> if nullish (s_default s) then None else s_default s),
      pr_aliasName = (if propKey \<noteq> p_name p then Some (p_name p) else None),
      pr_enum = None\<rparr>"

definition add_param :: "param_state \<Rightarrow> parameter \<Rightarrow> param_state" where
  "add_param st p =
     (let propKey = prop_key (usedKeys st) p in
      \<lparr>properties = set_prop (properties st) propKey (prop_schema propKey p),
       required = (if p_required p then required st @ [propKey] else required st),
       usedKeys = insert propKey (usedKeys st)\<rparr>)"

definition build_params :: "parameter list \<Rightarrow> param_state" where
  "build_params ps = foldl add_param \<lparr>properties = [], required = [], usedKeys = {}\<rparr> ps"

definition build_input_schema :: "operation \<Rightarrow> input_schema" where
  "build_input_schema op =
     (let st = build_params (case op_parameters op of None \<Rightarrow> [] | Some ps \<Rightarrow> ps) in
      \<lparr>is_type = ''object'', is_properties = properties st,
       is_required = (if length (required st) > 0 then Some (required st) else None)\<rparr>)"

text \<open>\<open>typeof s === 'string' ? s : s.url\<close>, which throws on a \<open>null\<close> entry.\<close>

fun server_url :: "server \<Rightarrow> error + server" where
  "server_url (SrvString s) = Inr (SrvString s)"
| "server_url (SrvObject None) = Inr SrvNull"
| "server_url (SrvObject (Some u)) = Inr (SrvString u)"
| "server_url SrvNull = Inl TypeError"

fun map_servers :: "server list \<Rightarrow> error + server list" where
  "map_servers [] = Inr []"
| "map_servers (s # ss) =
     (case server_url s of
        Inl e \<Rightarrow> Inl e
      | Inr u \<Rightarrow> (case map_servers ss of Inl e \<Rightarrow> Inl e | Inr us \<Rightarrow> Inr (u # us)))"

definition build_output_schema :: "operation \<Rightarrow> (string \<times> json) list option" where
  "build_output_schema op =
     (case op_response200 op of
        None \<Rightarrow> None
      | Some r \<Rightarrow>
          (case r_schema r of
             None \<Rightarrow> None
           | Some responseSchema \<Rightarrow>
               Some (set_prop responseSchema ''description''
                 (if truthy_opt (map_of responseSchema ''description'')
                  then the (map_of responseSchema ''description'')
                  else JStr (str_or_lit (r_description r) ''Success'')))))"

text \<open>The loop over \<open>['get', 'post', 'put', 'patch', 'delete']\<close> up to its \<open>break\<close>.\<close>

fun first_operation :: "(string \<times> operation) list \<Rightarrow> string list \<Rightarrow> (string \<times> operation) option" where
  "first_operation pathObj [] = None"
| "first_operation pathObj (method # methods) =
     (case map_of pathObj method of
        None \<Rightarrow> first_operation pathObj methods
      | Some op \<Rightarrow> Some (method, op))"

definition http_methods :: "string list" where
  "http_methods = [''get'', ''post'', ''put'', ''patch'', ''delete'']"

text \<open>The record \<open>spec\<close> before the first operation is looked for.\<close>

definition initial_spec :: "tool_meta \<Rightarrow> openapi_doc \<Rightarrow> tool_spec" where
  "initial_spec toolSpec openApiSpec =
     \<lparr>ts_name = tm_name toolSpec,
      ts_display_name = str_or (str_or
         (case oas_info openApiSpec of None \<Rightarrow> None | Some i \<Rightarrow> i_skill_name i)
         (case oas_info openApiSpec of None \<Rightarrow> None | Some i \<Rightarrow> i_title i))
         (tm_name toolSpec),
      ts_description = tm_description toolSpec,
      ts_permission = Some (str_or_lit (tm_permission toolSpec) ''read_write''),
      ts_restrictions = str_or (tm_restrictions toolSpec) None,
      ts_tags = tm_tags toolSpec,
      ts_binding = None, ts_input_schema = None, ts_output_schema = None,
      ts_info_version = None\<rparr>"

text \<open>
  \<open>openApiSpec['x-ibm-connection-id'] ?? openApiSpec.binding?.openapi?.connection_id ?? null\<close>,
  then \<open>connectionId || null\<close>.
\<close>

definition binding_connection_id :: "openapi_doc \<Rightarrow> string option" where
  "binding_connection_id openApiSpec =
     str_or (case oas_x_ibm_connection_id openApiSpec of
               None \<Rightarrow> oas_binding_connection_id openApiSpec
             | Some c \<Rightarrow> Some c) None"

text \<open>The body of the loop for the first method the path item declares.\<close>

definition compile_operation ::
  "tool_spec \<Rightarrow> openapi_doc \<Rightarrow> string \<Rightarrow> string \<Rightarrow> operation \<Rightarrow> error + tool_spec" where
  "compile_operation spec openApiSpec pathKey method op =
     (case map_servers (case oas_servers openApiSpec of None \<Rightarrow> [] | Some ss \<Rightarrow> ss) of
        Inl e \<Rightarrow> Inl e
      | Inr servers \<Rightarrow>
          Inr (spec\<lparr>
            ts_binding := Some
              \<lparr>b_http_method = Some (to_upper method),
               b_http_path = Some pathKey,
               b_security = deriveBindingSecurity openApiSpec op,
               b_servers = servers,
               b_connection_id = binding_connection_id openApiSpec\<rparr>,
            ts_input_schema := Some (build_input_schema op),
            ts_output_schema := build_output_schema op\<rparr>))"

definition buildToolSpec :: "tool_meta \<Rightarrow> openapi_doc \<Rightarrow> error + tool_spec" where
  "buildToolSpec toolSpec openApiSpec =
     (let spec = initial_spec toolSpec openApiSpec
      in case oas_paths openApiSpec of
           None \<Rightarrow> Inr spec
         | Some [] \<Rightarrow> Inr spec
         | Some ((pathKey, pathObj) # later) \<Rightarrow>
             (case first_operation pathObj http_methods of
                None \<Rightarrow> Inr spec
              | Some (method, op) \<Rightarrow> compile_operation spec openApiSpec pathKey method op))"

subsection \<open>\<open>skillToOas\<close>\<close>

definition required_list :: "input_schema \<Rightarrow> string list" where
  "required_list inputSchema = (case is_required inputSchema of None \<Rightarrow> [] | Some r \<Rightarrow> r)"

definition prop_to_param :: "input_schema \<Rightarrow> string \<times> schema_prop \<Rightarrow> parameter" where
  "prop_to_param inputSchema kp =
     (case kp of (key, prop) \<Rightarrow>
       \<lparr>p_name = (case pr_aliasName prop of None \<Rightarrow> key | Some a \<Rightarrow> a),
        p_in = Some (str_or_lit (pr_in prop) ''query''),
        p_required = (key \<in> set (required_list inputSchema)),
        p_description = Some (str_or_lit (pr_description prop) []),
        p_schema = Some \<lparr>s_type = Some (str_or_lit (pr_type prop) ''string''),
                         s_title = pr_title prop,
                         s_description = None,
                         s_default = pr_default prop,
                         s_enum = (if truthy_opt (pr_enum prop) then pr_enum prop else None)\<rparr>\<rparr>)"

definition skill_params :: "tool_spec \<Rightarrow> parameter list" where
  "skill_params skill =
     (case ts_input_schema skill of
        None \<Rightarrow> []
      | Some inputSchema \<Rightarrow> map (prop_to_param inputSchema) (is_properties inputSchema))"

text \<open>\<open>typeof s === 'string' ? s : s?.url\<close> followed by \<open>filter(Boolean)\<close>.\<close>

fun server_urls :: "server list \<Rightarrow> string list" where
  "server_urls [] = []"
| "server_urls (SrvString s # ss) = (if s = [] then server_urls ss else s # server_urls ss)"
| "server_urls (SrvObject (Some u) # ss) = (if u = [] then server_urls ss else u # server_urls ss)"
| "server_urls (SrvObject None # ss) = server_urls ss"
| "server_urls (SrvNull # ss) = server_urls ss"

definition skillToOas :: "tool_spec \<Rightarrow> openapi_doc" where
  "skillToOas skill =
     (let b = ts_binding skill;
          method = to_lower (str_or_lit (case b of None \<Rightarrow> None | Some x \<Rightarrow> b_http_method x) ''GET'');
          path = str_or_lit (case b of None \<Rightarrow> None | Some x \<Rightarrow> b_http_path x) ''/'';
          servers = server_urls (case b of None \<Rightarrow> [] | Some x \<Rightarrow> b_servers x);
          security = (case b of None \<Rightarrow> [] | Some x \<Rightarrow> b_security x);
          connectionId = (case b of None \<Rightarrow> None | Some x \<Rightarrow> b_connection_id x);
          title = str_or_lit (str_or (ts_display_name skill) (ts_name skill)) ''Tool'' @ '' (Copy)'';
          baseId = map (\<lambda>c. if is_word_char c \<or> c = CHR ''-'' then c else CHR ''-'')
                     (str_or_lit (ts_name skill) ''tool'');
          skillId = baseId @ ''-copy-v1''
      in \<lparr>oas_openapi = Some ''3.0.1'',
          oas_info = Some \<lparr>i_title = Some title,
                            i_version = Some (str_or_lit (ts_info_version skill) ''1.0.0''),
                            i_description = Some (str_or_lit (ts_description skill) []),
                            i_skill_name = Some title,
                            i_skill_id = Some skillId\<rparr>,
          oas_servers = Some (if length servers > 0 then map (\<lambda>u. SrvObject (Some u)) servers
                              else [SrvObject (Some ''https://httpbin.org'')]),
          oas_paths = Some [(path, [(method,
             \<lparr>op_operationId = Some (str_or_lit (ts_name skill) ''operation''),
              op_summary = Some (str_or_lit (str_or (ts_display_name skill) (ts_name skill)) ''Operation''),
              op_parameters = Some (skill_params skill),
              op_security = None,
              op_response200 = Some \<lparr>r_description = Some ''Success'',
                 r_schema = Some (case ts_output_schema skill of
                                    None \<Rightarrow> [(''type'', JStr ''object'')] | Some s \<Rightarrow> s)\<rparr>\<rparr>)])],
          oas_x_ibm_security = (if length security > 0 then Some (JArr security) else None),
          oas_x_ibm_connection_id = (if str_truthy connectionId then connectionId else None),
          oas_binding_security = None,
          oas_binding_connection_id = None,
          oas_securitySchemes = None,
          oas_security = None\<rparr>)"

text \<open>The parameters of the operation a decompiled document declares.\<close>

definition doc_parameters :: "openapi_doc \<Rightarrow> parameter list" where
  "doc_parameters d =
     (case oas_paths d of
        Some ((pathKey, (method, op) # ms) # ps) \<Rightarrow> (case op_parameters op of None \<Rightarrow> [] | Some xs \<Rightarrow> xs)
      | _ \<Rightarrow> [])"

subsection \<open>Documents used as concrete inputs\<close>

text \<open>
  The OpenAPI document and tool metadata of the end-to-end compile scenario:
  one path \<open>/current.json\<close> with a \<open>get\<close> operation, one required query parameter
  \<open>q\<close> of type string, a 200 response with schema \<open>{type: "object"}\<close>, one server.
\<close>

definition weather_oas :: openapi_doc where
  "weather_oas =
     \<lparr>oas_openapi = None, oas_info = None,
      oas_servers = Some [SrvObject (Some ''https://api.weatherapi.com/v1'')],
      oas_paths = Some [(''/current.json'', [(''get'',
         \<lparr>op_operationId = None, op_summary = None,
          op_parameters = Some [\<lparr>p_name = ''q'', p_in = Some ''query'', p_required = True,
                                  p_description = None,
                                  p_schema = Some \<lparr>s_type = Some ''string'', s_title = None,
                                     s_description = None, s_default = None, s_enum = None\<rparr>\<rparr>],
          op_security = None,
          op_response200 = Some \<lparr>r_description = None,
                                  r_schema = Some [(''type'', JStr ''object'')]\<rparr>\<rparr>)])],
      oas_x_ibm_security = None, oas_x_ibm_connection_id = None,
      oas_binding_security = None, oas_binding_connection_id = None,
      oas_securitySchemes = None, oas_security = None\<rparr>"

definition weather_meta :: tool_meta where
  "weather_meta = \<lparr>tm_name = Some ''get_weather'', tm_description = None,
      tm_permission = Some ''read_write'', tm_restrictions = None, tm_tags = None\<rparr>"

text \<open>An operation with no parameters, and a document whose only path declares \<open>post\<close> before \<open>get\<close>.\<close>

definition bare_op :: operation where
  "bare_op = \<lparr>op_operationId = None, op_summary = None, op_parameters = None,
               op_security = None, op_response200 = None\<rparr>"

definition post_first_oas :: openapi_doc where
  "post_first_oas = weather_oas\<lparr>oas_paths := Some [(''/a'', [(''post'', bare_op), (''get'', bare_op)])]\<rparr>"

text \<open>A parameter given by name, location and required flag; a document with one \<open>get\<close> operation over given parameters.\<close>

definition mk_param :: "string \<Rightarrow> string \<Rightarrow> bool \<Rightarrow> parameter" where
  "mk_param n i r = \<lparr>p_name = n, p_in = Some i, p_required = r, p_description = None, p_schema = None\<rparr>"

definition params_oas :: "parameter list \<Rightarrow> openapi_doc" where
  "params_oas ps = weather_oas\<lparr>oas_paths := Some [(''/items'', [(''get'', bare_op\<lparr>op_parameters := Some ps\<rparr>)])]\<rparr>"

section \<open>FormSyncEngine: \<open>applyParamEditsToJson\<close> (resources/skillEditor.js)\<close>

text \<open>
  The white space of \<open>trim()\<close> and of \<open>\s\<close>, among the characters a \<open>char\<close> can be:
  tab, line feed, vertical tab, form feed, carriage return, space and no-break space.
\<close>

definition is_space :: "char \<Rightarrow> bool" where
  "is_space c = (let n = (of_char c :: nat) in (9 \<le> n \<and> n \<le> 13) \<or> n = 32 \<or> n = 160)"

definition trim :: "string \<Rightarrow> string" where
  "trim s = rev (dropWhile is_space (rev (dropWhile is_space s)))"

text \<open>
  \<open>replace(/\s+/g, '_')\<close>: every maximal run of white space becomes one underscore. The
  flag says whether the previous character was white space.
\<close>

fun collapse_ws :: "bool \<Rightarrow> string \<Rightarrow> string" where
  "collapse_ws b [] = []"
| "collapse_ws b (c # cs) =
     (if is_space c then (if b then collapse_ws True cs else CHR ''_'' # collapse_ws True cs)
      else c # collapse_ws False cs)"

text \<open>
  \<open>raw.replace(/\s+/g, '_').replace(/[^a-zA-Z0-9_]/g, '_').replace(/^_+/, '').replace(/_+$/, '')\<close>
\<close>

definition sanitize_key :: "string \<Rightarrow> string" where
  "sanitize_key raw =
     rev (dropWhile (\<lambda>c. c = CHR ''_'')
       (rev (dropWhile (\<lambda>c. c = CHR ''_'')
         (map (\<lambda>c. if is_word_char c then c else CHR ''_'') (collapse_ws False raw)))))"

text \<open>
  \<open>parseParamDefault\<close>. \<open>parseFloat(v)\<close> is \<open>Infinity\<close> with \<open>String(num) === v\<close>
  exactly for the text \<open>Infinity\<close>, and \<open>-Infinity\<close> exactly for the text \<open>-Infinity\<close>.
  \<open>numlit v\<close> is the number \<open>parseFloat(v)\<close> when it is finite and \<open>String\<close> of it
  is \<open>v\<close> again, a fact about the runtime's floating-point parsing and printing that
  enters as a parameter.
\<close>

definition parseParamDefault :: "(string \<Rightarrow> rat option) \<Rightarrow> string \<Rightarrow> json option" where
  "parseParamDefault numlit v0 =
     (let v = trim v0 in
      if v = [] then None
      else if v = ''true'' then Some (JBool True)
      else if v = ''false'' then Some (JBool False)
      else if v = ''Infinity'' then Some (JInf True)
      else if v = ''-Infinity'' then Some (JInf False)
      else (case numlit v of Some n \<Rightarrow> Some (JNum n) | None \<Rightarrow> Some (JStr v)))"

text \<open>
  A table row: its \<open>data-deleted\<close> attribute and the controls the selectors find in it
  (\<open>None\<close>: no such control), each with its value. A table: its \<open>data-params-format\<close>,
  \<open>data-pathkey\<close> and \<open>data-method\<close> attributes and its rows \<open>tr.param-row\<close>.
\<close>

record param_row =
  row_deleted :: "string option"
  row_name :: "string option"
  row_in :: "string option"
  row_type :: "string option"
  row_required :: "bool option"
  row_default :: "string option"
  row_desc :: "string option"

record param_table =
  tbl_format :: string
  tbl_pathkey :: "string option"
  tbl_method :: "string option"
  tbl_rows :: "param_row list"

text \<open>The parts of the edited document the function reads and writes.\<close>

record edit_doc =
  ed_input_schema :: "input_schema option"
  ed_paths :: "(string \<times> (string \<times> operation) list) list option"

definition row_raw_name :: "param_row \<Rightarrow> string" where
  "row_raw_name row = (case row_name row of None \<Rightarrow> [] | Some v \<Rightarrow> trim v)"

text \<open>The variable \<open>key\<close> of the schema branch (\<open>None\<close>: \<open>null\<close>).\<close>

definition row_key :: "param_row \<Rightarrow> string option" where
  "row_key row =
     (let raw = row_raw_name row in
      if raw = [] then None
      else (let k = sanitize_key raw in if k = [] then None else Some k))"

definition schema_row ::
  "(string \<Rightarrow> rat option) \<Rightarrow> (string \<times> schema_prop) list \<times> string list \<Rightarrow> param_row
     \<Rightarrow> (string \<times> schema_prop) list \<times> string list" where
  "schema_row numlit acc row =
     (if row_deleted row = Some ''1'' then acc
      else (case row_key row of
              None \<Rightarrow> acc
            | Some key \<Rightarrow>
                (let ptype = str_or_lit (row_type row) ''string'';
                     prop = \<lparr>pr_type = Some ptype,
                             pr_title = None,
                             pr_description = Some (str_or_lit (row_desc row) []),
                             pr_in = Some (str_or_lit (row_in row) ''query''),
                             pr_default = parseParamDefault numlit
                                (case row_default row of None \<Rightarrow> [] | Some v \<Rightarrow> v),
                             pr_aliasName = None, pr_enum = None\<rparr>
                 in (set_prop (fst acc) key prop,
                     if row_required row = Some True then snd acc @ [key] else snd acc))))"

definition paths_row :: "(string \<Rightarrow> rat option) \<Rightarrow> parameter list \<Rightarrow> param_row \<Rightarrow> parameter list" where
  "paths_row numlit params row =
     (if row_deleted row = Some ''1'' then params
      else (let name = row_raw_name row in
            if name = [] then params
            else params @
              [\<lparr>p_name = name,
                p_in = Some (str_or_lit (row_in row) ''query''),
                p_required = (row_required row = Some True),
                p_description = Some (str_or_lit (row_desc row) []),
                p_schema = Some \<lparr>s_type = Some (str_or_lit (row_type row) ''string''),
                                 s_title = None, s_description = None,
                                 s_default = parseParamDefault numlit
                                    (case row_default row of None \<Rightarrow> [] | Some v \<Rightarrow> v),
                                 s_enum = None\<rparr>\<rparr>]))"

text \<open>One iteration of \<open>tables.forEach\<close>.\<close>

definition apply_table :: "(string \<Rightarrow> rat option) \<Rightarrow> edit_doc \<Rightarrow> param_table \<Rightarrow> edit_doc" where
  "apply_table numlit currentJson tbl =
     (if tbl_format tbl = ''schema'' then
        (let inputSchema = (case ed_input_schema currentJson of
                              None \<Rightarrow> \<lparr>is_type = ''object'', is_properties = [], is_required = None\<rparr>
                            | Some s \<Rightarrow> s);
             acc = foldl (schema_row numlit) ([], []) (tbl_rows tbl)
         in currentJson\<lparr>ed_input_schema := Some (inputSchema\<lparr>
              is_properties := fst acc,
              is_required := (if length (snd acc) > 0 then Some (snd acc) else None)\<rparr>)\<rparr>)
      else if tbl_format tbl = ''paths'' then
        (case (tbl_pathkey tbl, tbl_method tbl, ed_paths currentJson) of
           (Some pathKey, Some method, Some paths) \<Rightarrow>
             (if pathKey = [] \<or> method = [] then currentJson
              else (case map_of paths pathKey of
                      None \<Rightarrow> currentJson
                    | Some pathObj \<Rightarrow>
                        (case map_of pathObj method of
                           None \<Rightarrow> currentJson
                         | Some op \<Rightarrow>
                             currentJson\<lparr>ed_paths := Some (set_prop paths pathKey
                               (set_prop pathObj method
                                  (op\<lparr>op_parameters :=
                                     Some (foldl (paths_row numlit) [] (tbl_rows tbl))\<rparr>)))\<rparr>)))
         | _ \<Rightarrow> currentJson)
      else currentJson)"

definition applyParamEditsToJson ::
  "(string \<Rightarrow> rat option) \<Rightarrow> edit_doc \<Rightarrow> param_table list \<Rightarrow> edit_doc" where
  "applyParamEditsToJson numlit currentJson tables = foldl (apply_table numlit) currentJson tables"

text \<open>A name made of letters, digits and underscores that neither starts nor ends with an underscore.\<close>

definition safe_identifier :: "string \<Rightarrow> bool" where
  "safe_identifier k =
     (k \<noteq> [] \<and> list_all is_word_char k \<and> hd k \<noteq> CHR ''_'' \<and> last k \<noteq> CHR ''_'')"

text \<open>A row with the given typed name and the editor's default controls.\<close>

definition named_row :: "string \<Rightarrow> param_row" where
  "named_row n = \<lparr>row_deleted = None, row_name = Some n, row_in = Some ''query'',
     row_type = Some ''string'', row_required = Some False, row_default = Some [],
     row_desc = Some []\<rparr>"

section \<open>OpenApiDocumentBuilder: the \<open>generateOaS\<close> and \<open>fetchAndGenerate\<close> handlers (panels/SkillEditorPanel.ts)\<close>

subsection \<open>\<open>inferSchema\<close>\<close>

text \<open>\<open>Number.isInteger\<close> of the number a literal denotes.\<close>

definition is_integer :: "rat \<Rightarrow> bool" where
  "is_integer n = (snd (quotient_of n) = 1)"

text \<open>
  The description the object case adds for a string longer than 10 characters:
  \<open>properties[key].description = `Example: ${data[key].substring(0, 30)}...`\<close>.
\<close>

definition example_description :: "json \<Rightarrow> (string \<times> json) list" where
  "example_description v =
     (case v of
        JStr s \<Rightarrow> if length s > 10 then [(''description'', JStr (''Example: '' @ take 30 s @ ''...''))]
                  else []
      | _ \<Rightarrow> [])"

text \<open>
  In the object case \<open>properties[key] = inferSchema(data[key])\<close> runs over the keys of
  \<open>data\<close> in their order, each a new key of \<open>properties\<close>, so that the schemas are stored
  in the same order; the key \<open>__proto__\<close> is not stored: on the object literal the
  assignment reaches the setter of \<open>Object.prototype\<close> and adds no own property.
\<close>

fun inferSchema :: "json \<Rightarrow> json" where
  "inferSchema JNull = JObj [(''type'', JStr ''string''), (''nullable'', JBool True)]"
| "inferSchema (JStr s) = JObj [(''type'', JStr ''string'')]"
| "inferSchema (JNum n) = JObj [(''type'', JStr (if is_integer n then ''integer'' else ''number''))]"
| "inferSchema (JInf b) = JObj [(''type'', JStr ''number'')]"
| "inferSchema (JBool b) = JObj [(''type'', JStr ''boolean'')]"
| "inferSchema (JArr xs) =
     JObj [(''type'', JStr ''array''),
           (''items'', (case xs of [] \<Rightarrow> JObj [(''type'', JStr ''string'')] | x # rest \<Rightarrow> inferSchema x))]"
| "inferSchema (JObj kvs) =
     JObj [(''type'', JStr ''object''),
           (''properties'', JObj (map (\<lambda>(k, v).
               (k, (case inferSchema v of
                      JObj fs \<Rightarrow> JObj (fs @ example_description v)
                    | other \<Rightarrow> other))) (filter (\<lambda>(k, v). k \<noteq> ''__proto__'') kvs)))]"

text \<open>\<open>inferSchema(responseBody)\<close>; a missing body falls through to the last \<open>return\<close>.\<close>

definition inferSchema_opt :: "json option \<Rightarrow> json" where
  "inferSchema_opt data = (case data of None \<Rightarrow> JObj [(''type'', JStr ''string'')] | Some v \<Rightarrow> inferSchema v)"

subsection \<open>Operation id and summary from the path\<close>

text \<open>\<open>s.split(sep)\<close> for a one-character separator.\<close>

fun split_on :: "char \<Rightarrow> string \<Rightarrow> string list" where
  "split_on sep [] = [[]]"
| "split_on sep (c # cs) =
     (if c = sep then [] # split_on sep cs
      else (case split_on sep cs of [] \<Rightarrow> [[c]] | seg # segs \<Rightarrow> (c # seg) # segs))"

text \<open>\<open>path.replace(/^\//, '').split('/').filter(Boolean)\<close>, then the last segment or a default.\<close>

definition last_segment :: "string \<Rightarrow> string \<Rightarrow> string" where
  "last_segment path dflt =
     (let seg = filter (\<lambda>s. s \<noteq> [])
                  (split_on CHR ''/'' (case path of [] \<Rightarrow> [] | c # cs \<Rightarrow> if c = CHR ''/'' then cs else c # cs))
      in if seg = [] then dflt else last seg)"

text \<open>
  \<open>replace(/\.[a-z0-9]+$/i, '')\<close>: a final dot followed by one or more letters or digits
  up to the end is removed.
\<close>

definition strip_extension :: "string \<Rightarrow> string" where
  "strip_extension s =
     (let suffix = takeWhile (\<lambda>c. c \<noteq> CHR ''.'') (rev s)
      in if length suffix < length s \<and> suffix \<noteq> [] \<and> list_all (\<lambda>c. is_letter c \<or> is_digit c) suffix
         then take (length s - length suffix - 1) s
         else s)"

definition pathToOperationId :: "string \<Rightarrow> string" where
  "pathToOperationId path =
     (let base = map (\<lambda>c. if is_letter c \<or> is_digit c then c else CHR ''_'')
                   (strip_extension (last_segment path ''operation''))
      in if base = [] then ''generatedOperation'' else base)"

text \<open>\<open>replace(/\s+/g, ' ')\<close>; the flag says whether the previous character was white space.\<close>

fun collapse_spaces :: "bool \<Rightarrow> string \<Rightarrow> string" where
  "collapse_spaces b [] = []"
| "collapse_spaces b (c # cs) =
     (if is_space c then (if b then collapse_spaces True cs else CHR '' '' # collapse_spaces True cs)
      else c # collapse_spaces False cs)"

definition pathToSummary :: "string \<Rightarrow> string" where
  "pathToSummary path =
     (let base = strip_extension (last_segment path ''data'');
          s = trim (collapse_spaces False
                (map (\<lambda>c. if is_letter c \<or> is_digit c \<or> is_space c then c else CHR '' '') base))
      in if s = [] then ''Generated Operation'' else s)"

subsection \<open>The generated document\<close>

text \<open>
  \<open>Object.keys(v)\<close> paired with \<open>v[key]\<close>: the entries of an object, the indexed
  elements of an array, the indexed characters of a string, nothing for a number or a
  boolean.
\<close>

fun js_entries :: "json \<Rightarrow> (string \<times> json) list" where
  "js_entries (JObj kvs) = kvs"
| "js_entries (JArr xs) = zip (map show_nat [0..<length xs]) xs"
| "js_entries (JStr s) = zip (map show_nat [0..<length s]) (map (\<lambda>c. JStr [c]) s)"
| "js_entries _ = []"

text \<open>One element of \<open>oasParams\<close>.\<close>

definition observed_param :: "string \<times> json \<Rightarrow> json" where
  "observed_param kv =
     (case kv of (key, val) \<Rightarrow>
        JObj [(''name'', JStr key), (''in'', JStr ''query''), (''required'', JBool False),
              (''schema'', JObj ((''type'', JStr (typeof val))
                                 # (if val \<noteq> JNull then [(''default'', val)] else [])))])"

text \<open>\<open>(apiKeyParamName || 'apiKey').trim() || 'apiKey'\<close>\<close>

definition apiKeyParam_of :: "string option \<Rightarrow> string" where
  "apiKeyParam_of apiKeyParamName =
     (let t = trim (str_or_lit apiKeyParamName ''apiKey'') in if t = [] then ''apiKey'' else t)"

definition api_key_aliases :: "string list" where
  "api_key_aliases = [''key'', ''apiKey'', ''api_key'']"

definition hasApiKeyParam :: "string list \<Rightarrow> string \<Rightarrow> bool" where
  "hasApiKeyParam paramNames apiKeyParam =
     list_ex (\<lambda>k. k = apiKeyParam \<or> k \<in> set api_key_aliases) paramNames"

definition secName :: "string list \<Rightarrow> string \<Rightarrow> string" where
  "secName paramNames apiKeyParam =
     (if hasApiKeyParam paramNames apiKeyParam \<and> apiKeyParam \<in> set paramNames then apiKeyParam
      else if hasApiKeyParam paramNames apiKeyParam then
        (case find (\<lambda>k. k \<in> set api_key_aliases) paramNames of
           None \<Rightarrow> apiKeyParam
         | Some k \<Rightarrow> if k = [] then apiKeyParam else k)
      else apiKeyParam)"

text \<open>
  The result of \<open>_fetchServiceInfo\<close>, which scrapes the service's home page and never
  throws; the parts of \<open>new URL(url)\<close> the handlers read.
\<close>

record service_info =
  si_title :: "string option"
  si_description :: "string option"

record url_parts =
  url_origin :: string
  url_pathname :: string

text \<open>
  The literal \<open>newOas\<close> both handlers build, followed by the \<open>if (hasApiKeyParam)\<close>
  block. \<open>now\<close> is \<open>Date.now()\<close>.
\<close>

definition new_oas ::
  "service_info \<Rightarrow> string \<Rightarrow> nat \<Rightarrow> string \<Rightarrow> string \<Rightarrow> string \<Rightarrow> json list \<Rightarrow> json
     \<Rightarrow> string list \<Rightarrow> string \<Rightarrow> json" where
  "new_oas serviceInfo url now baseUrl path methodKey parameters responseSchema paramNames apiKeyParam =
     JObj ([(''openapi'', JStr ''3.0.1''),
            (''info'', JObj [
               (''title'', JStr (str_or_lit (si_title serviceInfo) ''Generated Tool'')),
               (''description'', JStr (str_or_lit (si_description serviceInfo) (''Tool generated from '' @ url))),
               (''version'', JStr ''1.0.0''),
               (''x-ibm-skill-name'', JStr (str_or_lit (si_title serviceInfo) ''Generated Tool Service'')),
               (''x-ibm-skill-id'', JStr (''generated-'' @ show_nat now))]),
            (''servers'', JArr [JObj [(''url'', JStr baseUrl)]]),
            (''paths'', JObj [(path, JObj [(methodKey, JObj [
               (''operationId'', JStr (pathToOperationId path)),
               (''summary'', JStr (pathToSummary path)),
               (''parameters'', JArr parameters),
               (''responses'', JObj [(''200'', JObj [
                  (''description'', JStr ''Success''),
                  (''content'', JObj [(''application/json'', JObj [(''schema'', responseSchema)])])])])])])])]
           @ (if hasApiKeyParam paramNames apiKeyParam then
                [(''components'', JObj [(''securitySchemes'', JObj [(''ApiKeyAuth'',
                    JObj [(''type'', JStr ''apiKey''), (''in'', JStr ''query''),
                          (''name'', JStr (secName paramNames apiKeyParam))])])]),
                 (''security'', JArr [JObj [(''ApiKeyAuth'', JArr [])]])]
              else []))"

text \<open>\<open>params && typeof params === 'object' ? Object.keys(params) : []\<close>\<close>

definition param_names :: "json option \<Rightarrow> string list" where
  "param_names params =
     (if truthy_opt params \<and> typeof_opt params = ''object'' then map fst (js_entries (the params)) else [])"

text \<open>
  \<open>generateOaS\<close>: the message carries \<open>url\<close>, \<open>method\<close>, \<open>params\<close>, \<open>responseBody\<close> and
  \<open>apiKeyParamName\<close>. \<open>urlObj\<close> is \<open>new URL(url)\<close>, \<open>None\<close> when the constructor throws.
  The result is the document posted with \<open>updateJson\<close>, or the caught exception.
\<close>

definition generateOaS ::
  "service_info \<Rightarrow> nat \<Rightarrow> string \<Rightarrow> url_parts option \<Rightarrow> string \<Rightarrow> json option \<Rightarrow> json option
     \<Rightarrow> string option \<Rightarrow> error + json" where
  "generateOaS serviceInfo now url urlObj method params responseBody apiKeyParamName =
     (case urlObj of
        None \<Rightarrow> Inl TypeError
      | Some u \<Rightarrow>
          (let oasParams = (if truthy_opt params then map observed_param (js_entries (the params)) else []);
               paramNames = param_names params;
               apiKeyParam = apiKeyParam_of apiKeyParamName
           in Inr (new_oas serviceInfo url now (url_origin u) (url_pathname u) (to_lower method)
                     (if to_lower method = ''get'' then oasParams else [])
                     (inferSchema_opt responseBody) paramNames apiKeyParam)))"

text \<open>
  \<open>fetchAndGenerate\<close>: the handler fetches the endpoint itself. \<open>fetched\<close> is the outcome
  of that request: an exception, or the response with its parsed body (the text itself
  when the body is not JSON).
\<close>

record fetch_response =
  f_status :: nat
  f_statusText :: string
  f_body :: json

definition fetchAndGenerate ::
  "service_info \<Rightarrow> nat \<Rightarrow> string \<Rightarrow> url_parts option \<Rightarrow> string option \<Rightarrow> json option
     \<Rightarrow> (error + fetch_response) \<Rightarrow> string option \<Rightarrow> error + json" where
  "fetchAndGenerate serviceInfo now url urlObj method params fetched apiKeyParamName =
     (let m = to_upper (trim (str_or_lit method ''GET'')) in
      case urlObj of
        None \<Rightarrow> Inl TypeError
      | Some u \<Rightarrow>
          (case fetched of
             Inl e \<Rightarrow> Inl e
           | Inr response \<Rightarrow>
               if \<not> (200 \<le> f_status response \<and> f_status response \<le> 299)
               then Inl (Error (''Fetch failed: '' @ show_nat (f_status response) @ '' '' @ f_statusText response))
               else
                 (let oasParams = (if truthy_opt params \<and> typeof_opt params = ''object''
                                   then map observed_param (js_entries (the params)) else []);
                      paramNames = param_names params;
                      apiKeyParam = apiKeyParam_of apiKeyParamName;
                      path = (if url_pathname u = [] then ''/'' else url_pathname u)
                  in Inr (new_oas serviceInfo url now (url_origin u) path (to_lower m)
                            (if m = ''GET'' then oasParams else [])
                            (inferSchema (f_body response)) paramNames apiKeyParam))))"

text \<open>\<open>doc.k1.k2...\<close> on the generated document.\<close>

fun at_path :: "json \<Rightarrow> string list \<Rightarrow> json option" where
  "at_path v [] = Some v"
| "at_path v (k # ks) = (case field v k of None \<Rightarrow> None | Some w \<Rightarrow> at_path w ks)"

text \<open>The observed parameters of the generation scenario.\<close>

definition toronto_params :: json where
  "toronto_params = JObj [(''q'', JStr ''Toronto,On''), (''key'', JStr ''abc123'')]"

section \<open>RemoteInvocationOrchestrator: \<open>invokeToolRemote\<close> (api/skills.ts) and \<open>invokeAgent\<close> (api/agents.ts)\<close>

text \<open>
  The transport is a parameter: \<open>run\<close> is the outcome of the POST to
  \<open>/v1/orchestrate/runs\<close> and \<open>poll i\<close> the outcome of the \<open>i\<close>-th GET of the thread's
  messages (counted from 0). An outcome is an exception of \<open>woFetch\<close> or a response with
  its status, its text and its body as \<open>response.json()\<close> parses it (\<open>None\<close>: the body is
  not JSON). Every function returns the log of what it did, in order, with its result.
  \<open>JSON.stringify\<close>, \<open>String\<close> on a value that is not a string, and the rendering of the
  reasoning trace (\<open>formatAssistantContent\<close>) are parameters. \<open>formatAssistantContent\<close>
  reads \<open>c.type\<close> of every block \<open>c\<close> of the content, so it throws on a content with
  a \<open>null\<close> block; \<open>fmt\<close> is the text it returns on any other content.
\<close>

datatype event =
    HttpPost string json
  | Delay nat
  | GetMessages "json option"

record http_reply =
  h_status :: nat
  h_text :: string
  h_json :: "json option"

definition h_ok :: "http_reply \<Rightarrow> bool" where
  "h_ok r = (200 \<le> h_status r \<and> h_status r \<le> 299)"

text \<open>\<open>xs.find(m => m[key] === value)\<close>: reading a property of a \<open>null\<close> element throws.\<close>

fun find_by :: "string \<Rightarrow> string \<Rightarrow> json list \<Rightarrow> error + json option" where
  "find_by key val [] = Inr None"
| "find_by key val (m # ms) =
     (if m = JNull then Inl TypeError
      else if field m key = Some (JStr val) then Inr (Some m)
      else find_by key val ms)"

text \<open>\<open>xs.filter(m => m[key] === value)\<close>\<close>

fun filter_by :: "string \<Rightarrow> string \<Rightarrow> json list \<Rightarrow> error + json list" where
  "filter_by key val [] = Inr []"
| "filter_by key val (m # ms) =
     (if m = JNull then Inl TypeError
      else (case filter_by key val ms of
              Inl e \<Rightarrow> Inl e
            | Inr rest \<Rightarrow> Inr (if field m key = Some (JStr val) then m # rest else rest)))"

subsection \<open>\<open>invokeToolRemote\<close>\<close>

text \<open>
  \<open>messages = Array.isArray(msgData) ? msgData : (msgData.messages || msgData.data || [])\<close>,
  on which \<open>find\<close> is called next: a value that is not an array has no \<open>find\<close>.
\<close>

definition thread_messages :: "json \<Rightarrow> error + json list" where
  "thread_messages msgData =
     (case msgData of
        JArr xs \<Rightarrow> Inr xs
      | JNull \<Rightarrow> Inl TypeError
      | _ \<Rightarrow> (case or_else (field msgData ''messages'') (or_else (field msgData ''data'') (Some (JArr []))) of
                Some (JArr xs) \<Rightarrow> Inr xs
              | _ \<Rightarrow> Inl TypeError))"

text \<open>
  The \<open>for\<close> loop: \<open>n\<close> attempts are left, \<open>i\<close> is the number of the next poll,
  \<open>messages\<close> the list of the last successful fetch.
\<close>

fun tool_poll ::
  "(nat \<Rightarrow> error + http_reply) \<Rightarrow> json option \<Rightarrow> nat \<Rightarrow> nat \<Rightarrow> json list \<Rightarrow> event list
     \<Rightarrow> event list \<times> (error + json list)" where
  "tool_poll poll threadId 0 i messages trace = (trace, Inr messages)"
| "tool_poll poll threadId (Suc n) i messages trace =
     (let trace' = trace @ [Delay 4000, GetMessages threadId] in
      case poll i of
        Inl e \<Rightarrow> (trace', Inl e)
      | Inr msgRes \<Rightarrow>
          if h_ok msgRes then
            (case h_json msgRes of
               None \<Rightarrow> (trace', Inl SyntaxError)
             | Some msgData \<Rightarrow>
                 (case thread_messages msgData of
                    Inl e \<Rightarrow> (trace', Inl e)
                  | Inr msgs \<Rightarrow>
                      (case find_by ''role'' ''assistant'' msgs of
                         Inl e \<Rightarrow> (trace', Inl e)
                       | Inr (Some assistantMsg) \<Rightarrow> (trace', Inr msgs)
                       | Inr None \<Rightarrow> tool_poll poll threadId n (Suc i) msgs trace')))
          else tool_poll poll threadId n (Suc i) messages trace')"

record tool_run_result =
  tr_data :: json
  tr_threadId :: "json option"
  tr_reasoning :: "string option"

text \<open>\<open>a ?? b ?? c ?? d\<close> over the properties of a block.\<close>

definition block_output :: "json \<Rightarrow> json" where
  "block_output toolResult =
     (case coalesce (field toolResult ''content'')
             (coalesce (field toolResult ''output'')
               (coalesce (field toolResult ''result'') (Some toolResult))) of
        None \<Rightarrow> toolResult | Some v \<Rightarrow> v)"

text \<open>\<open>responseData\<close> for a content array (\<open>None\<close>: still \<open>null\<close>).\<close>

definition content_data :: "(json \<Rightarrow> string) \<Rightarrow> json list \<Rightarrow> error + json" where
  "content_data stringify content =
     (case find_by ''type'' ''tool_result'' content of
        Inl e \<Rightarrow> Inl e
      | Inr toolResult \<Rightarrow>
          (case find_by ''type'' ''text'' content of
             Inl e \<Rightarrow> Inl e
           | Inr textBlock \<Rightarrow>
               (case find_by ''type'' ''tool_use'' content of
                  Inl e \<Rightarrow> Inl e
                | Inr toolUse \<Rightarrow>
                    (case toolResult of
                       Some tr \<Rightarrow> Inr (block_output tr)
                     | None \<Rightarrow>
                         if textBlock \<noteq> None \<and> \<not> nullish (opt_field textBlock ''text'') then
                           (case opt_field textBlock ''text'' of
                              Some (JStr s) \<Rightarrow> Inr (JStr s)
                            | t \<Rightarrow> Inr (case coalesce (opt_field t ''value'') None of
                                          Some v \<Rightarrow> v
                                        | None \<Rightarrow> JStr (stringify (the t))))
                         else (case toolUse of
                                 Some tu \<Rightarrow> Inr (case coalesce (field tu ''content'') (Some tu) of
                                                    Some v \<Rightarrow> v | None \<Rightarrow> tu)
                               | None \<Rightarrow> Inr (JArr content))))))"

text \<open>Everything after the loop: the choice of \<open>assistantMsg\<close> and the result.\<close>

definition tool_result ::
  "(json \<Rightarrow> string) \<Rightarrow> (json list \<Rightarrow> bool \<Rightarrow> string) \<Rightarrow> json option \<Rightarrow> json list
     \<Rightarrow> error + tool_run_result" where
  "tool_result stringify fmt threadId messages =
     (case find_by ''role'' ''assistant'' messages of
        Inl e \<Rightarrow> Inl e
      | Inr found \<Rightarrow>
          (let assistantMsg = (if found \<noteq> None then found
                               else (case messages of [] \<Rightarrow> None | m # ms \<Rightarrow> Some m));
               fallback = (if length messages > 0 then JArr messages
                           else JObj ((case threadId of None \<Rightarrow> [] | Some t \<Rightarrow> [(''thread_id'', t)])
                                      @ [(''info'', JStr ''No tool output in messages.'')]))
           in if truthy_opt assistantMsg \<and> truthy_opt (opt_field assistantMsg ''content'') then
                (case opt_field assistantMsg ''content'' of
                   Some (JArr content) \<Rightarrow>
                     (case content_data stringify content of
                        Inl e \<Rightarrow> Inl e
                      | Inr d \<Rightarrow>
                          if JNull \<in> set content then Inl TypeError
                          else Inr \<lparr>tr_data = d, tr_threadId = threadId,
                                    tr_reasoning = Some (fmt content False)\<rparr>)
                 | Some c \<Rightarrow> Inr \<lparr>tr_data = c, tr_threadId = threadId, tr_reasoning = None\<rparr>
                 | None \<Rightarrow> Inr \<lparr>tr_data = fallback, tr_threadId = threadId, tr_reasoning = None\<rparr>)
              else Inr \<lparr>tr_data = fallback, tr_threadId = threadId, tr_reasoning = None\<rparr>))"

definition tool_run_payload :: "(json \<Rightarrow> string) \<Rightarrow> string \<Rightarrow> json \<Rightarrow> string option \<Rightarrow> json" where
  "tool_run_payload stringify toolId parameters agentId =
     JObj ([(''tool_id'', JStr toolId), (''parameters'', parameters),
            (''message'', JObj [(''role'', JStr ''user''),
               (''content'', JStr (if length (js_entries parameters) > 0
                  then ''Execute the tool with these parameters. Return the raw result data.''
                       @ [CHR 0x0A, CHR 0x0A] @ ''Parameters: '' @ stringify parameters
                  else ''Execute the tool with default parameters. Return the raw result data.''))])]
           @ (if str_truthy agentId then [(''agent_id'', JStr (the agentId))] else []))"

definition tool_max_attempts :: nat where
  "tool_max_attempts = 12"

text \<open>
  The whole function. \<open>Object.keys(parameters)\<close> throws on \<open>null\<close>, before anything is
  sent; then the run is posted, the thread polled, and the result built.
\<close>

definition invokeToolRemote ::
  "(json \<Rightarrow> string) \<Rightarrow> (json list \<Rightarrow> bool \<Rightarrow> string) \<Rightarrow> (error + http_reply)
     \<Rightarrow> (nat \<Rightarrow> error + http_reply) \<Rightarrow> string \<Rightarrow> json \<Rightarrow> string option
     \<Rightarrow> event list \<times> (error + tool_run_result)" where
  "invokeToolRemote stringify fmt run poll toolId parameters agentId =
     (let submitted = [HttpPost ''/v1/orchestrate/runs'' (tool_run_payload stringify toolId parameters agentId)] in
      if parameters = JNull then ([], Inl TypeError) else
      case run of
        Inl e \<Rightarrow> (submitted, Inl e)
      | Inr runRes \<Rightarrow>
          if \<not> h_ok runRes
          then (submitted, Inl (Error (''Run failed ('' @ show_nat (h_status runRes) @ ''): '' @ h_text runRes)))
          else (case h_json runRes of
                  None \<Rightarrow> (submitted, Inl SyntaxError)
                | Some runData \<Rightarrow>
                    if runData = JNull then (submitted, Inl TypeError)
                    else if \<not> truthy_opt (field runData ''thread_id'')
                    then (submitted, Inl (Error (''No thread_id returned from run. Response: '' @ stringify runData)))
                    else (case tool_poll poll (field runData ''thread_id'') tool_max_attempts 0 [] submitted of
                            (trace, Inl e) \<Rightarrow> (trace, Inl e)
                          | (trace, Inr messages) \<Rightarrow>
                              (trace, tool_result stringify fmt (field runData ''thread_id'') messages))))"

subsection \<open>\<open>invokeAgent\<close>\<close>

text \<open>\<open>xs.join(' ')\<close> of the strings the elements convert to.\<close>

fun join_spaces :: "string list \<Rightarrow> string" where
  "join_spaces [] = []"
| "join_spaces [s] = s"
| "join_spaces (s # t # ss) = s @ '' '' @ join_spaces (t # ss)"

definition js_string :: "(json \<Rightarrow> string) \<Rightarrow> json \<Rightarrow> string" where
  "js_string to_string v = (case v of JStr s \<Rightarrow> s | JNull \<Rightarrow> [] | _ \<Rightarrow> to_string v)"

text \<open>\<open>c.text?.value ?? c.text\<close> for a block \<open>c\<close> that is not \<open>null\<close>.\<close>

definition block_text :: "json \<Rightarrow> json option" where
  "block_text c = coalesce (opt_field (field c ''text'') ''value'') (field c ''text'')"

text \<open>\<open>c.text?.value || c.text || JSON.stringify(c)\<close>\<close>

definition block_text_or_json :: "(json \<Rightarrow> string) \<Rightarrow> json \<Rightarrow> json" where
  "block_text_or_json stringify c =
     (case or_else (opt_field (field c ''text'') ''value'') (field c ''text'') of
        Some v \<Rightarrow> if truthy v then v else JStr (stringify c)
      | None \<Rightarrow> JStr (stringify c))"

record agent_reply =
  ar_success :: bool
  ar_response :: string
  ar_reasoning :: "string option"

text \<open>The reply built from the chosen assistant message.\<close>

definition agent_reply_of ::
  "(json \<Rightarrow> string) \<Rightarrow> (json \<Rightarrow> string) \<Rightarrow> (json list \<Rightarrow> bool \<Rightarrow> string) \<Rightarrow> json
     \<Rightarrow> error + agent_reply" where
  "agent_reply_of stringify to_string fmt assistantMsg =
     (case field assistantMsg ''content'' of
        Some (JStr s) \<Rightarrow> Inr \<lparr>ar_success = True, ar_response = s, ar_reasoning = None\<rparr>
      | Some (JArr content) \<Rightarrow>
          (case filter_by ''type'' ''text'' content of
             Inl e \<Rightarrow> Inl e
           | Inr texts \<Rightarrow>
               (let textParts = filter truthy (List.map_filter block_text texts);
                    joined = trim (join_spaces (map (js_string to_string) textParts));
                    all_blocks = join_spaces (map (js_string to_string \<circ> block_text_or_json stringify) content)
                in Inr \<lparr>ar_success = True,
                        ar_response = (if joined \<noteq> [] then joined
                                       else if all_blocks \<noteq> [] then all_blocks
                                       else ''(See reasoning for details)''),
                        ar_reasoning = Some (fmt content True)\<rparr>))
      | _ \<Rightarrow> Inr \<lparr>ar_success = True, ar_response = ''Unknown format'', ar_reasoning = None\<rparr>)"

text \<open>
  The \<open>while (pollCount < 15)\<close> loop: \<open>n\<close> attempts are left, \<open>i\<close> is the number of the
  next poll. It ends with the reply, with an exception, or with the timeout error.
\<close>

fun agent_poll ::
  "(json \<Rightarrow> string) \<Rightarrow> (json \<Rightarrow> string) \<Rightarrow> (json list \<Rightarrow> bool \<Rightarrow> string)
     \<Rightarrow> (nat \<Rightarrow> error + http_reply) \<Rightarrow> json option \<Rightarrow> nat \<Rightarrow> nat \<Rightarrow> event list
     \<Rightarrow> event list \<times> (error + agent_reply)" where
  "agent_poll stringify to_string fmt poll threadId 0 i trace =
     (trace, Inl (Error ''Timed out waiting for assistant response.''))"
| "agent_poll stringify to_string fmt poll threadId (Suc n) i trace =
     (let trace' = trace @ [Delay 2000, GetMessages threadId] in
      case poll i of
        Inl e \<Rightarrow> (trace', Inl e)
      | Inr msgRes \<Rightarrow>
          if h_ok msgRes then
            (case h_json msgRes of
               None \<Rightarrow> (trace', Inl SyntaxError)
             | Some JNull \<Rightarrow> (trace', Inl TypeError)
             | Some data \<Rightarrow>
                 (case or_else (field data ''data'') (Some data) of
                    Some (JArr messages) \<Rightarrow>
                      (case filter_by ''role'' ''assistant'' messages of
                         Inl e \<Rightarrow> (trace', Inl e)
                       | Inr [] \<Rightarrow> agent_poll stringify to_string fmt poll threadId n (Suc i) trace'
                       | Inr assistants \<Rightarrow>
                           (trace', agent_reply_of stringify to_string fmt (last assistants)))
                  | _ \<Rightarrow> agent_poll stringify to_string fmt poll threadId n (Suc i) trace'))
          else agent_poll stringify to_string fmt poll threadId n (Suc i) trace')"

definition agent_max_attempts :: nat where
  "agent_max_attempts = 15"

definition invokeAgent ::
  "(json \<Rightarrow> string) \<Rightarrow> (json \<Rightarrow> string) \<Rightarrow> (json list \<Rightarrow> bool \<Rightarrow> string) \<Rightarrow> (error + http_reply)
     \<Rightarrow> (nat \<Rightarrow> error + http_reply) \<Rightarrow> string \<Rightarrow> string
     \<Rightarrow> event list \<times> (error + agent_reply)" where
  "invokeAgent stringify to_string fmt run poll agentId message =
     (let submitted = [HttpPost ''/v1/orchestrate/runs''
            (JObj [(''agent_id'', JStr agentId),
                   (''message'', JObj [(''role'', JStr ''user''), (''content'', JStr message)])])] in
      case run of
        Inl e \<Rightarrow> (submitted, Inl e)
      | Inr runRes \<Rightarrow>
          if \<not> h_ok runRes
          then (submitted, Inl (Error (''Failed to start run: '' @ show_nat (h_status runRes) @ '' '' @ h_text runRes)))
          else (case h_json runRes of
                  None \<Rightarrow> (submitted, Inl (Error (''Failed to parse run response: '' @ h_text runRes)))
                | Some runData \<Rightarrow>
                    if runData = JNull then (submitted, Inl TypeError)
                    else agent_poll stringify to_string fmt poll (field runData ''thread_id'')
                           agent_max_attempts 0 submitted))"

text \<open>
  Whether a poll brings no assistant message without any exception: the response is not
  ok, or its body is a message list (for the agent: or not a list at all) in which no
  message has the role "assistant".
\<close>

definition tool_poll_quiet :: "(error + http_reply) \<Rightarrow> bool" where
  "tool_poll_quiet reply =
     (case reply of
        Inl e \<Rightarrow> False
      | Inr r \<Rightarrow> \<not> h_ok r \<or>
          (case h_json r of
             None \<Rightarrow> False
           | Some d \<Rightarrow> (case thread_messages d of
                          Inl e \<Rightarrow> False
                        | Inr ms \<Rightarrow> find_by ''role'' ''assistant'' ms = Inr None)))"

definition agent_poll_quiet :: "(error + http_reply) \<Rightarrow> bool" where
  "agent_poll_quiet reply =
     (case reply of
        Inl e \<Rightarrow> False
      | Inr r \<Rightarrow> \<not> h_ok r \<or>
          (case h_json r of
             None \<Rightarrow> False
           | Some JNull \<Rightarrow> False
           | Some d \<Rightarrow> (case or_else (field d ''data'') (Some d) of
                          Some (JArr ms) \<Rightarrow> filter_by ''role'' ''assistant'' ms = Inr []
                        | _ \<Rightarrow> True)))"

text \<open>
  The ways a poll goes on without an assistant message, told apart: the response is not
  ok (the loop keeps the list it had), or the response is ok and its body gives the
  message list \<open>ms\<close> (for the tool invocation), or the list \<open>ms\<close> is the body or its
  \<open>data\<close> (for the agent chat).
\<close>

definition poll_failed :: "(error + http_reply) \<Rightarrow> bool" where
  "poll_failed reply = (case reply of Inl e \<Rightarrow> False | Inr r \<Rightarrow> \<not> h_ok r)"

definition poll_fetched :: "(error + http_reply) \<Rightarrow> json list \<Rightarrow> bool" where
  "poll_fetched reply ms =
     (case reply of
        Inl e \<Rightarrow> False
      | Inr r \<Rightarrow> h_ok r \<and> (case h_json r of None \<Rightarrow> False | Some d \<Rightarrow> thread_messages d = Inr ms))"

definition poll_listed :: "(error + http_reply) \<Rightarrow> json list \<Rightarrow> bool" where
  "poll_listed reply ms =
     (case reply of
        Inl e \<Rightarrow> False
      | Inr r \<Rightarrow> h_ok r \<and> (case h_json r of
                              None \<Rightarrow> False
                            | Some d \<Rightarrow> d \<noteq> JNull \<and> or_else (field d ''data'') (Some d) = Some (JArr ms)))"

text \<open>The run was accepted and its body parsed to the value \<open>d\<close>, which is not \<open>null\<close>.\<close>

definition run_returned :: "(error + http_reply) \<Rightarrow> json \<Rightarrow> bool" where
  "run_returned reply d =
     (case reply of Inl e \<Rightarrow> False | Inr r \<Rightarrow> h_ok r \<and> h_json r = Some d \<and> d \<noteq> JNull)"

text \<open>Replies used as concrete inputs: a run that started thread \<open>t1\<close>, and a thread's message list.\<close>

definition run_started :: "error + http_reply" where
  "run_started = Inr \<lparr>h_status = 200, h_text = [], h_json = Some (JObj [(''thread_id'', JStr ''t1'')])\<rparr>"

definition thread_reply :: "json list \<Rightarrow> error + http_reply" where
  "thread_reply ms = Inr \<lparr>h_status = 200, h_text = [], h_json = Some (JArr ms)\<rparr>"

definition chat_message :: "string \<Rightarrow> string \<Rightarrow> json" where
  "chat_message role content = JObj [(''role'', JStr role), (''content'', JStr content)]"

text \<open>
  Threads used as concrete inputs: one with the user's message only, one with two
  assistant messages after it, one whose message has no content, one whose message has a
  content array; and a transport whose third poll is the first to bring the assistant
  messages.
\<close>

definition user_only :: "json list" where
  "user_only = [chat_message ''user'' ''hi'']"

definition two_answers :: "json list" where
  "two_answers = [chat_message ''user'' ''hi'', chat_message ''assistant'' ''first'',
                  chat_message ''assistant'' ''second'']"

definition no_content :: "json list" where
  "no_content = [JObj [(''role'', JStr ''user'')]]"

definition block_content :: "json list" where
  "block_content = [JObj [(''role'', JStr ''user''),
      (''content'', JArr [JObj [(''type'', JStr ''text''), (''text'', JStr ''hi'')]])]]"

definition answers_third :: "nat \<Rightarrow> error + http_reply" where
  "answers_third i = (if i < 2 then thread_reply user_only else thread_reply two_answers)"

section \<open>Verified properties\<close>

subsection \<open>Helper facts about the JavaScript operations\<close>

lemma opt_field_obj: "opt_field (Some (JObj kvs)) k = map_of kvs k"
  by (simp add: opt_field_def)

lemma truthy_object: "truthy_opt (Some (JObj b))" "typeof_opt (Some (JObj b)) = ''object''"
  by (simp_all add: truthy_opt_def typeof_opt_def)

lemma truthy_opt_None: "\<not> truthy_opt None"
  by (simp add: truthy_opt_def)

subsection \<open>Validator dialect routing\<close>

text \<open>
  C3 (as stated, refuted). The claim says that a document with
  \<open>binding.openapi.http_method\<close>, \<open>binding.openapi.http_path\<close> and a non-object
  \<open>input_schema\<close> yields exactly the one error "input_schema is required for WxO tools".
  The document
  \<open>{binding: {openapi: {http_method: "GET", http_path: "/x"}}, input_schema: "oops"}\<close>
  is such a document, and the validator reports two errors for it: the bound dialect also
  requires \<open>name\<close> or \<open>display_name\<close>.
\<close>

theorem validateOas_bound_two_errors:
  "validateOas (Some (JObj [(''binding'', JObj [(''openapi'',
        JObj [(''http_method'', JStr ''GET''), (''http_path'', JStr ''/x'')])]),
      (''input_schema'', JStr ''oops'')]))
   = [''input_schema is required for WxO tools'', ''name or display_name is required'']"
  by (simp add: validateOas_def opt_field_def truthy_opt_def typeof_opt_def)

text \<open>
  C3 (amended). For every document whose \<open>binding.openapi\<close> is an object with a truthy
  \<open>http_method\<close> and a truthy \<open>http_path\<close>, and whose \<open>input_schema\<close> is missing,
  \<open>null\<close>, a boolean, a number or a string, the validator returns
  "input_schema is required for WxO tools", followed by "name or display_name is required"
  exactly when neither \<open>name\<close> nor \<open>display_name\<close> is truthy, and nothing else; in
  particular it never reports "Missing required field: openapi", because the bound dialect
  is detected before the OpenAPI checks.
\<close>

theorem validateOas_bound_routing:
  assumes b: "opt_field (map_of kvs ''binding'') ''openapi'' = Some (JObj b)"
    and m: "truthy_opt (map_of b ''http_method'')"
    and p: "truthy_opt (map_of b ''http_path'')"
    and i: "(case map_of kvs ''input_schema'' of
               Some (JArr xs) \<Rightarrow> False | Some (JObj ps) \<Rightarrow> False | _ \<Rightarrow> True)"
  shows "validateOas (Some (JObj kvs)) =
           (if truthy_opt (map_of kvs ''name'') \<or> truthy_opt (map_of kvs ''display_name'')
            then [''input_schema is required for WxO tools'']
            else [''input_schema is required for WxO tools'', ''name or display_name is required''])
         \<and> ''Missing required field: openapi'' \<notin> set (validateOas (Some (JObj kvs)))"
proof -
  have isch: "\<not> truthy_opt (map_of kvs ''input_schema'')
              \<or> typeof_opt (map_of kvs ''input_schema'') \<noteq> ''object''"
    using i by (auto simp: truthy_opt_def typeof_opt_def split: option.splits json.splits)
  have v: "validateOas (Some (JObj kvs)) =
           (if truthy_opt (map_of kvs ''name'') \<or> truthy_opt (map_of kvs ''display_name'')
            then [''input_schema is required for WxO tools'']
            else [''input_schema is required for WxO tools'', ''name or display_name is required''])"
    using isch m p by (simp add: validateOas_def opt_field_obj b truthy_object)
  show ?thesis unfolding v by simp
qed

theorem validateOas_bound_routing_witness:
  "validateOas (Some (JObj [(''name'', JStr ''t''),
       (''binding'', JObj [(''openapi'',
          JObj [(''http_method'', JStr ''GET''), (''http_path'', JStr ''/x'')])]),
       (''input_schema'', JStr ''oops'')])) = [''input_schema is required for WxO tools'']"
  using validateOas_bound_routing [of "[(''name'', JStr ''t''),
       (''binding'', JObj [(''openapi'',
          JObj [(''http_method'', JStr ''GET''), (''http_path'', JStr ''/x'')])]),
       (''input_schema'', JStr ''oops'')]" "[(''http_method'', JStr ''GET''), (''http_path'', JStr ''/x'')]"]
  by (simp add: opt_field_def truthy_opt_def)

subsection \<open>A missing \<open>info.version\<close> does not block a save\<close>

text \<open>
  C7. For an OpenAPI document (no \<open>binding.openapi\<close>) whose \<open>openapi\<close> is a non-empty
  string, whose \<open>info\<close> is an object with a truthy \<open>title\<close>, whose \<open>paths\<close> is
  missing or an object and whose \<open>servers\<close> is missing or an array, but whose
  \<open>info.version\<close> is missing or \<open>null\<close>, the validator reports one message only, the
  recommendation "info.version is recommended". The save handler does not refuse the
  save: it shows the message in the dialog that asks whether to continue, the same dialog
  every message of the validator goes through, and what happens next is the user's
  choice. With "Update Anyway" the save goes on as it does for a document without any
  message (to \<open>updateSkill\<close> when the panel has a tool id); with any other answer, or
  when the dialog is dismissed, the save is cancelled.
\<close>

theorem missing_version_save_is_users_choice:
  assumes nb: "opt_field (map_of kvs ''binding'') ''openapi'' = None"
    and oa: "map_of kvs ''openapi'' = Some (JStr v)" "v \<noteq> []"
    and inf: "map_of kvs ''info'' = Some (JObj info)" "truthy_opt (map_of info ''title'')"
    and ver: "nullish (map_of info ''version'')"
    and pa: "map_of kvs ''paths'' = None \<or> (\<exists>ps. map_of kvs ''paths'' = Some (JObj ps))"
    and sv: "map_of kvs ''servers'' = None \<or> (\<exists>ss. map_of kvs ''servers'' = Some (JArr ss))"
  shows "validateOas (Some (JObj kvs)) = [''info.version is recommended'']
         \<and> saveSkill skillId (Some (JObj kvs)) ask
             = (if ask (ValidationIssues [''info.version is recommended'']) = Some ''Update Anyway''
                then (case skillId of
                        None \<Rightarrow> SaveNoToolId
                      | Some sid \<Rightarrow> if sid = [] then SaveNoToolId
                                    else SaveCallsUpdate sid (Some (JObj kvs)))
                else SaveCancelled)"
proof -
  have str: "truthy_opt (Some (JStr v))" "typeof_opt (Some (JStr v)) = ''string''"
    using oa(2) by (simp_all add: truthy_opt_def typeof_opt_def)
  have p: "\<not> (map_of kvs ''paths'' \<noteq> None
          \<and> (typeof_opt (map_of kvs ''paths'') \<noteq> ''object'' \<or> isArray (map_of kvs ''paths'')))"
    using pa by (auto simp: typeof_opt_def)
  have s: "\<not> (map_of kvs ''servers'' \<noteq> None \<and> \<not> isArray (map_of kvs ''servers''))"
    using sv by auto
  have v: "validateOas (Some (JObj kvs)) = [''info.version is recommended'']"
    using p s inf(2) ver
    by (simp add: validateOas_def opt_field_obj truthy_object nb truthy_opt_None oa(1) str inf(1))
  show ?thesis unfolding saveSkill_def v Let_def by simp
qed

theorem missing_version_save_is_users_choice_witness:
  "validateOas (Some (JObj [(''openapi'', JStr ''3.0.1''), (''info'', JObj [(''title'', JStr ''T'')]),
       (''paths'', JObj [])])) = [''info.version is recommended'']
   \<and> saveSkill (Some ''tool1'') (Some (JObj [(''openapi'', JStr ''3.0.1''),
         (''info'', JObj [(''title'', JStr ''T'')]), (''paths'', JObj [])])) (\<lambda>p. Some ''Update Anyway'')
     = SaveCallsUpdate ''tool1'' (Some (JObj [(''openapi'', JStr ''3.0.1''),
         (''info'', JObj [(''title'', JStr ''T'')]), (''paths'', JObj [])]))
   \<and> saveSkill (Some ''tool1'') (Some (JObj [(''openapi'', JStr ''3.0.1''),
         (''info'', JObj [(''title'', JStr ''T'')]), (''paths'', JObj [])])) (\<lambda>p. Some ''Cancel'')
     = SaveCancelled
   \<and> saveSkill (Some ''tool1'') (Some (JObj [(''openapi'', JStr ''3.0.1''),
         (''info'', JObj [(''title'', JStr ''T'')]), (''paths'', JObj [])])) (\<lambda>p. None)
     = SaveCancelled"
  using missing_version_save_is_users_choice [of "[(''openapi'', JStr ''3.0.1''), (''info'', JObj [(''title'', JStr ''T'')]),
       (''paths'', JObj [])]" "''3.0.1''" "[(''title'', JStr ''T'')]" "Some ''tool1''" "\<lambda>p. Some ''Update Anyway''"]
    missing_version_save_is_users_choice [of "[(''openapi'', JStr ''3.0.1''), (''info'', JObj [(''title'', JStr ''T'')]),
       (''paths'', JObj [])]" "''3.0.1''" "[(''title'', JStr ''T'')]" "Some ''tool1''" "\<lambda>p. Some ''Cancel''"]
    missing_version_save_is_users_choice [of "[(''openapi'', JStr ''3.0.1''), (''info'', JObj [(''title'', JStr ''T'')]),
       (''paths'', JObj [])]" "''3.0.1''" "[(''title'', JStr ''T'')]" "Some ''tool1''" "\<lambda>p. None"]
  by (simp add: opt_field_def truthy_opt_def nullish_def)

subsection \<open>The update payload\<close>

lemma copy_if_truthy_keys: "fst ` set (copy_if_truthy sj k) \<subseteq> {k}"
  by (auto simp: copy_if_truthy_def split: option.splits if_splits)

lemma name_entry_keys: "name_entry sj = Inr nm \<Longrightarrow> fst ` set nm \<subseteq> {''name''}"
  by (auto simp: name_entry_def split: option.splits json.splits if_splits)

lemma updatePayload_keys:
  assumes "updatePayload skillJson = Inr payload"
  shows "set (obj_keys payload) \<subseteq> set editable_fields"
proof -
  from assms obtain sj where sj: "skillJson = Some sj" "sj \<noteq> JNull"
    by (auto simp: updatePayload_def split: option.splits json.splits)
  from assms sj obtain nm where nm: "name_entry sj = Inr nm"
    and p: "payload = JObj (nm
                 @ copy_if_truthy sj ''display_name''
                 @ copy_if_truthy sj ''description''
                 @ [(''permission'',
                     (case field sj ''permission'' of
                        None \<Rightarrow> JStr ''read_write''
                      | Some v \<Rightarrow> if truthy v then v else JStr ''read_write''))]
                 @ copy_if_truthy sj ''restrictions''
                 @ copy_if_truthy sj ''tags'')"
    by (cases sj; cases "name_entry sj") (simp_all add: updatePayload_def)
  show ?thesis
    unfolding p obj_keys_def editable_fields_def
    using name_entry_keys [OF nm]
      copy_if_truthy_keys [of sj "''display_name''"] copy_if_truthy_keys [of sj "''description''"]
      copy_if_truthy_keys [of sj "''restrictions''"] copy_if_truthy_keys [of sj "''tags''"]
    by (auto simp: image_Un)
qed

text \<open>
  C9. Whatever the edited document holds, every request \<open>updateSkill\<close> sends goes to
  \<open>/v1/orchestrate/tools/{id}\<close> with a payload whose keys are among name, display_name,
  description, permission, restrictions and tags. The requests are none (the payload
  could not be built), one PUT, or a PUT followed by a PATCH; the PATCH is sent exactly
  when the PUT returned a response with status 405.
\<close>

theorem updateSkill_requests:
  "(\<forall>r \<in> set (fst (updateSkill woFetch parse skillId skillJson)).
       set (obj_keys (req_body r)) \<subseteq> set editable_fields
       \<and> req_path r = ''/v1/orchestrate/tools/'' @ skillId)
   \<and> map req_method (fst (updateSkill woFetch parse skillId skillJson))
       \<in> {[], [''PUT''], [''PUT'', ''PATCH'']}
   \<and> ((''PATCH'' \<in> set (map req_method (fst (updateSkill woFetch parse skillId skillJson))))
        = (\<exists>put resp. fst (updateSkill woFetch parse skillId skillJson) \<noteq> []
              \<and> put = hd (fst (updateSkill woFetch parse skillId skillJson))
              \<and> woFetch put = Inr resp \<and> status resp = 405))"
proof (cases "updatePayload skillJson")
  case (Inl e)
  then show ?thesis by (simp add: updateSkill_def)
next
  case (Inr payload)
  note k = updatePayload_keys [OF Inr]
  show ?thesis
    using k unfolding updateSkill_def Inr
    by (auto simp: Let_def split: sum.splits)
qed

theorem updateSkill_requests_witness:
  "map req_method (fst (updateSkill (\<lambda>r. Inr \<lparr>status = 405, body_text = []\<rparr>) (\<lambda>t. None) ''t1''
      (Some (JObj [(''name'', JStr ''my tool''), (''id'', JStr ''t1''),
                   (''input_schema'', JObj [(''type'', JStr ''object'')])]))))
     = [''PUT'', ''PATCH'']
   \<and> map (\<lambda>r. obj_keys (req_body r)) (fst (updateSkill (\<lambda>r. Inr \<lparr>status = 405, body_text = []\<rparr>)
      (\<lambda>t. None) ''t1''
      (Some (JObj [(''name'', JStr ''my tool''), (''id'', JStr ''t1''),
                   (''input_schema'', JObj [(''type'', JStr ''object'')])]))))
     = [[''name'', ''permission''], [''name'', ''permission'']]"
  using updateSkill_requests [of "\<lambda>r. Inr \<lparr>status = 405, body_text = []\<rparr>" "\<lambda>t. None" "''t1''"
      "Some (JObj [(''name'', JStr ''my tool''), (''id'', JStr ''t1''),
                   (''input_schema'', JObj [(''type'', JStr ''object'')])])"]
  by (simp add: updateSkill_def updatePayload_def name_entry_def copy_if_truthy_def truthy_opt_def
      obj_keys_def)

subsection \<open>The compiler: first path, first method in the fixed order\<close>

lemmas compile_defs = buildToolSpec_def initial_spec_def compile_operation_def
  binding_connection_id_def http_methods_def str_or_def str_or_lit_def str_truthy_def
  to_upper_def deriveBindingSecurity_def coalesce_def nullish_def build_input_schema_def
  build_params_def add_param_def prop_key_def prop_schema_def param_in_def build_output_schema_def
  truthy_opt_def Let_def set_prop_def is_array_index_def is_digit_def

lemma weather_compiles:
  "buildToolSpec weather_meta weather_oas = Inr
     \<lparr>ts_name = Some ''get_weather'',
      ts_display_name = Some ''get_weather'', ts_description = None,
      ts_permission = Some ''read_write'', ts_restrictions = None,
      ts_tags = None,
      ts_binding = Some
         \<lparr>b_http_method = Some ''GET'',
          b_http_path = Some ''/current.json'', b_security = [],
          b_servers = [SrvString ''https://api.weatherapi.com/v1''],
          b_connection_id = None\<rparr>,
      ts_input_schema = Some
         \<lparr>is_type = ''object'',
          is_properties =
            [(''q'', \<lparr>pr_type = Some ''string'', pr_title = Some ''q'',
                      pr_description = Some [], pr_in = Some ''query'',
                      pr_default = None, pr_aliasName = None, pr_enum = None\<rparr>)],
          is_required = Some [''q'']\<rparr>,
      ts_output_schema = Some [(''type'', JStr ''object''), (''description'', JStr ''Success'')],
      ts_info_version = None\<rparr>"
  by (simp add: weather_meta_def weather_oas_def compile_defs)

text \<open>
  C2 (as stated, refuted). The claim says the first declared HTTP method is compiled.
  The only path of \<open>post_first_oas\<close> declares \<open>post\<close> first and \<open>get\<close> second, and the
  compiled binding has \<open>http_method\<close> "GET": the compiler tries the methods in its own
  fixed order.
\<close>

theorem first_declared_method_not_compiled:
  "fst (hd (snd (hd (the (oas_paths post_first_oas))))) = ''post''
   \<and> (\<exists>spec b. buildToolSpec weather_meta post_first_oas = Inr spec
         \<and> ts_binding spec = Some b \<and> b_http_method b = Some ''GET'')"
  by (simp add: post_first_oas_def weather_meta_def weather_oas_def bare_op_def compile_defs)

lemma first_operation_Some:
  "first_operation po ms = Some (m, op) \<Longrightarrow> m \<in> set ms \<and> map_of po m = Some op"
  by (induction ms) (auto split: option.splits)

lemma first_operation_None:
  "(first_operation po ms = None) = (\<forall>x \<in> set ms. map_of po x = None)"
  by (induction ms) (auto split: option.splits)

lemma first_operation_single:
  "m \<in> set ms \<Longrightarrow> first_operation [(m, op)] ms = Some (m, op)"
  by (induction ms) auto

lemma deriveBindingSecurity_paths:
  "deriveBindingSecurity (d\<lparr>oas_paths := ps\<rparr>) op = deriveBindingSecurity d op"
  by (simp add: deriveBindingSecurity_def Let_def split: option.splits json.splits list.splits)

lemma binding_connection_id_paths:
  "binding_connection_id (d\<lparr>oas_paths := ps\<rparr>) = binding_connection_id d"
  by (simp add: binding_connection_id_def split: option.splits)

lemma paths_irrelevant:
  "initial_spec m (d\<lparr>oas_paths := ps\<rparr>) = initial_spec m d"
  "compile_operation spec (d\<lparr>oas_paths := ps\<rparr>) k meth op = compile_operation spec d k meth op"
  by (simp_all add: initial_spec_def compile_operation_def deriveBindingSecurity_paths
      binding_connection_id_paths cong: sum.case_cong)

lemma buildToolSpec_later_paths:
  "buildToolSpec m (d\<lparr>oas_paths := Some ((k, po) # later)\<rparr>)
     = buildToolSpec m (d\<lparr>oas_paths := Some [(k, po)]\<rparr>)"
  by (simp add: buildToolSpec_def paths_irrelevant Let_def split: option.splits prod.splits)

lemma buildToolSpec_chosen_method:
  assumes "first_operation po http_methods = Some (meth, op)"
  shows "buildToolSpec m (d\<lparr>oas_paths := Some ((k, po) # later)\<rparr>)
     = buildToolSpec m (d\<lparr>oas_paths := Some [(k, [(meth, op)])]\<rparr>)"
proof -
  have "first_operation [(meth, op)] http_methods = Some (meth, op)"
    using first_operation_Some [OF assms] by (simp add: first_operation_single)
  then show ?thesis using assms by (simp add: buildToolSpec_def paths_irrelevant)
qed

lemma buildToolSpec_no_method:
  assumes "first_operation po http_methods = None"
  shows "buildToolSpec m (d\<lparr>oas_paths := Some ((k, po) # later)\<rparr>) = Inr (initial_spec m d)"
  using assms by (simp add: buildToolSpec_def paths_irrelevant)

text \<open>
  C2 (amended). The scenario compiles to a record whose binding has \<open>http_method\<close> "GET"
  and \<open>http_path\<close> "/current.json", whose property \<open>q\<close> has \<open>in\<close> "query" and whose
  \<open>required\<close> is ["q"]. In general only the first path is compiled, and within it the
  first of get, post, put, patch, delete (in this fixed order) that the path declares:
  the result is the one of the document reduced to that path and that operation, so
  later paths and the other methods are ignored. When the first path declares none of
  the five methods, nothing is compiled and the record has no binding; and no operation is
  found only then, so a path that declares one of the five methods is compiled.
\<close>

theorem buildToolSpec_single_operation:
  "(\<exists>spec b isch pq. buildToolSpec weather_meta weather_oas = Inr spec
       \<and> ts_binding spec = Some b \<and> b_http_method b = Some ''GET''
       \<and> b_http_path b = Some ''/current.json''
       \<and> ts_input_schema spec = Some isch \<and> map_of (is_properties isch) ''q'' = Some pq
       \<and> pr_in pq = Some ''query'' \<and> is_required isch = Some [''q''])
   \<and> buildToolSpec m (d\<lparr>oas_paths := Some ((k, po) # later)\<rparr>)
       = buildToolSpec m (d\<lparr>oas_paths := Some [(k, po)]\<rparr>)
   \<and> (first_operation po http_methods = Some (meth, op) \<longrightarrow>
        meth \<in> set [''get'', ''post'', ''put'', ''patch'', ''delete'']
        \<and> map_of po meth = Some op
        \<and> (\<forall>earlier. earlier \<in> set (takeWhile (\<lambda>x. x \<noteq> meth) [''get'', ''post'', ''put'', ''patch'', ''delete''])
              \<longrightarrow> map_of po earlier = None)
        \<and> buildToolSpec m (d\<lparr>oas_paths := Some ((k, po) # later)\<rparr>)
            = buildToolSpec m (d\<lparr>oas_paths := Some [(k, [(meth, op)])]\<rparr>)
        \<and> buildToolSpec m (d\<lparr>oas_paths := Some ((k, po) # later)\<rparr>)
            = compile_operation (initial_spec m d) d k meth op)
   \<and> (first_operation po http_methods = None \<longrightarrow>
        buildToolSpec m (d\<lparr>oas_paths := Some ((k, po) # later)\<rparr>) = Inr (initial_spec m d)
        \<and> ts_binding (initial_spec m d) = None)
   \<and> ((first_operation po http_methods = None)
        = (\<forall>x \<in> set [''get'', ''post'', ''put'', ''patch'', ''delete'']. map_of po x = None))"
proof -
  have scen: "\<exists>spec b isch pq. buildToolSpec weather_meta weather_oas = Inr spec
       \<and> ts_binding spec = Some b \<and> b_http_method b = Some ''GET''
       \<and> b_http_path b = Some ''/current.json''
       \<and> ts_input_schema spec = Some isch \<and> map_of (is_properties isch) ''q'' = Some pq
       \<and> pr_in pq = Some ''query'' \<and> is_required isch = Some [''q'']"
    by (simp add: weather_compiles)
  have earlier: "\<forall>e. e \<in> set (takeWhile (\<lambda>x. x \<noteq> meth) ms) \<longrightarrow> map_of po e = None"
    if "first_operation po ms = Some (meth, op)" for ms
    using that by (induction ms) (auto split: option.splits if_splits)
  have chosen: "meth \<in> set [''get'', ''post'', ''put'', ''patch'', ''delete'']
        \<and> map_of po meth = Some op
        \<and> (\<forall>earlier. earlier \<in> set (takeWhile (\<lambda>x. x \<noteq> meth) [''get'', ''post'', ''put'', ''patch'', ''delete''])
              \<longrightarrow> map_of po earlier = None)
        \<and> buildToolSpec m (d\<lparr>oas_paths := Some ((k, po) # later)\<rparr>)
            = buildToolSpec m (d\<lparr>oas_paths := Some [(k, [(meth, op)])]\<rparr>)
        \<and> buildToolSpec m (d\<lparr>oas_paths := Some ((k, po) # later)\<rparr>)
            = compile_operation (initial_spec m d) d k meth op"
    if f: "first_operation po http_methods = Some (meth, op)"
  proof -
    have 1: "meth \<in> set [''get'', ''post'', ''put'', ''patch'', ''delete''] \<and> map_of po meth = Some op"
      using first_operation_Some [OF f] by (simp add: http_methods_def)
    have 2: "\<forall>e. e \<in> set (takeWhile (\<lambda>x. x \<noteq> meth) [''get'', ''post'', ''put'', ''patch'', ''delete''])
              \<longrightarrow> map_of po e = None"
      using earlier [of http_methods] f unfolding http_methods_def by blast
    have 3: "buildToolSpec m (d\<lparr>oas_paths := Some ((k, po) # later)\<rparr>)
            = compile_operation (initial_spec m d) d k meth op"
      using f by (simp add: buildToolSpec_def paths_irrelevant)
    show ?thesis using 1 2 3 buildToolSpec_chosen_method [OF f] by blast
  qed
  have none: "buildToolSpec m (d\<lparr>oas_paths := Some ((k, po) # later)\<rparr>) = Inr (initial_spec m d)
        \<and> ts_binding (initial_spec m d) = None"
    if "first_operation po http_methods = None"
    using buildToolSpec_no_method [OF that] by (simp add: initial_spec_def)
  have found: "(first_operation po http_methods = None)
        = (\<forall>x \<in> set [''get'', ''post'', ''put'', ''patch'', ''delete'']. map_of po x = None)"
    using first_operation_None [of po http_methods] by (simp only: http_methods_def)
  have first3: "(\<exists>spec b isch pq. buildToolSpec weather_meta weather_oas = Inr spec
       \<and> ts_binding spec = Some b \<and> b_http_method b = Some ''GET''
       \<and> b_http_path b = Some ''/current.json''
       \<and> ts_input_schema spec = Some isch \<and> map_of (is_properties isch) ''q'' = Some pq
       \<and> pr_in pq = Some ''query'' \<and> is_required isch = Some [''q''])
   \<and> buildToolSpec m (d\<lparr>oas_paths := Some ((k, po) # later)\<rparr>)
       = buildToolSpec m (d\<lparr>oas_paths := Some [(k, po)]\<rparr>)
   \<and> (first_operation po http_methods = Some (meth, op) \<longrightarrow>
        meth \<in> set [''get'', ''post'', ''put'', ''patch'', ''delete'']
        \<and> map_of po meth = Some op
        \<and> (\<forall>earlier. earlier \<in> set (takeWhile (\<lambda>x. x \<noteq> meth) [''get'', ''post'', ''put'', ''patch'', ''delete''])
              \<longrightarrow> map_of po earlier = None)
        \<and> buildToolSpec m (d\<lparr>oas_paths := Some ((k, po) # later)\<rparr>)
            = buildToolSpec m (d\<lparr>oas_paths := Some [(k, [(meth, op)])]\<rparr>)
        \<and> buildToolSpec m (d\<lparr>oas_paths := Some ((k, po) # later)\<rparr>)
            = compile_operation (initial_spec m d) d k meth op)
   \<and> (first_operation po http_methods = None \<longrightarrow>
        buildToolSpec m (d\<lparr>oas_paths := Some ((k, po) # later)\<rparr>) = Inr (initial_spec m d)
        \<and> ts_binding (initial_spec m d) = None)"
    using scen buildToolSpec_later_paths chosen none by blast
  show ?thesis
    by (rule conjI [OF conjunct1 [OF first3] conjI [OF conjunct1 [OF conjunct2 [OF first3]]
          conjI [OF conjunct1 [OF conjunct2 [OF conjunct2 [OF first3]]]
            conjI [OF conjunct2 [OF conjunct2 [OF conjunct2 [OF first3]]] found]]]])
qed

theorem buildToolSpec_single_operation_witness:
  "first_operation [(''post'', bare_op), (''get'', bare_op)] http_methods = Some (''get'', bare_op)
   \<and> buildToolSpec weather_meta (weather_oas\<lparr>oas_paths :=
        Some [(''/a'', [(''post'', bare_op), (''get'', bare_op)]), (''/b'', [])]\<rparr>)
     = buildToolSpec weather_meta (weather_oas\<lparr>oas_paths := Some [(''/a'', [(''get'', bare_op)])]\<rparr>)
   \<and> first_operation [(''head'', bare_op)] http_methods = None
   \<and> buildToolSpec weather_meta (weather_oas\<lparr>oas_paths := Some [(''/a'', [(''head'', bare_op)])]\<rparr>)
     = Inr (initial_spec weather_meta weather_oas)"
proof -
  have f: "first_operation [(''post'', bare_op), (''get'', bare_op)] http_methods = Some (''get'', bare_op)"
    by (simp add: http_methods_def)
  have g: "first_operation [(''head'', bare_op)] http_methods = None"
    by (simp add: http_methods_def)
  have 1: "buildToolSpec weather_meta (weather_oas\<lparr>oas_paths :=
        Some [(''/a'', [(''post'', bare_op), (''get'', bare_op)]), (''/b'', [])]\<rparr>)
     = buildToolSpec weather_meta (weather_oas\<lparr>oas_paths := Some [(''/a'', [(''get'', bare_op)])]\<rparr>)"
    using f buildToolSpec_single_operation [where m = weather_meta and d = weather_oas and k = "''/a''"
      and po = "[(''post'', bare_op), (''get'', bare_op)]" and later = "[(''/b'', [])]"
      and meth = "''get''" and op = bare_op]
    by blast
  have 2: "buildToolSpec weather_meta (weather_oas\<lparr>oas_paths := Some [(''/a'', [(''head'', bare_op)])]\<rparr>)
     = Inr (initial_spec weather_meta weather_oas)"
    using g buildToolSpec_single_operation [where m = weather_meta and d = weather_oas and k = "''/a''"
      and po = "[(''head'', bare_op)]" and later = "[]" and meth = "''get''" and op = bare_op]
    by blast
  show ?thesis using f g 1 2 by blast
qed

subsection \<open>The loop over the parameters\<close>

lemma replace_prop_map_fst: "map fst (replace_prop kvs k v) = map fst kvs"
  by (induction kvs) auto

lemma replace_prop_keys: "fst ` set (replace_prop kvs k v) = fst ` set kvs"
  using arg_cong [OF replace_prop_map_fst [of kvs k v], of set] by simp

lemma replace_prop_length: "length (replace_prop kvs k v) = length kvs"
  using arg_cong [OF replace_prop_map_fst [of kvs k v], of length] by simp

lemma replace_prop_lookup: "k \<in> fst ` set kvs \<Longrightarrow> map_of (replace_prop kvs k v) k = Some v"
proof (induction kvs)
  case Nil
  then show ?case by simp
next
  case (Cons a kvs)
  obtain k' v' where a: "a = (k', v')" by (cases a)
  show ?case
  proof (cases "k' = k")
    case True
    then show ?thesis by (simp add: a)
  next
    case False
    with Cons.prems have "k \<in> fst ` set kvs" by (auto simp: a)
    from Cons.IH [OF this] False show ?thesis by (simp add: a)
  qed
qed

lemma insert_index_map_fst: "set (map fst (insert_index kvs k v)) = insert k (set (map fst kvs))"
proof (induction kvs)
  case Nil
  show ?case by simp
next
  case (Cons a kvs)
  obtain k' v' where a: "a = (k', v')" by (cases a)
  show ?case
  proof (cases "is_array_index k' \<and> digit_value k' < digit_value k")
    case True
    have "set (map fst (insert_index (a # kvs) k v)) = insert k' (set (map fst (insert_index kvs k v)))"
      using True by (simp add: a)
    also have "\<dots> = insert k' (insert k (set (map fst kvs)))" unfolding Cons.IH ..
    also have "\<dots> = insert k (set (map fst (a # kvs)))" by (simp add: a insert_commute)
    finally show ?thesis .
  next
    case False
    show ?thesis unfolding a insert_index.simps if_not_P [OF False] by auto
  qed
qed

lemma insert_index_keys: "fst ` set (insert_index kvs k v) = insert k (fst ` set kvs)"
  using insert_index_map_fst [of kvs k v] by simp

lemma insert_index_length: "length (insert_index kvs k v) = Suc (length kvs)"
  by (induction kvs) (auto split: if_splits)

lemma insert_index_lookup: "k \<notin> fst ` set kvs \<Longrightarrow> map_of (insert_index kvs k v) k = Some v"
proof (induction kvs)
  case Nil
  then show ?case by simp
next
  case (Cons a kvs)
  obtain k' v' where a: "a = (k', v')" by (cases a)
  from Cons.prems have ne: "k' \<noteq> k" and rest: "k \<notin> fst ` set kvs" by (auto simp: a)
  from Cons.IH [OF rest] ne show ?case by (simp add: a)
qed

lemma set_prop_keys:
  "fst ` set (set_prop kvs k v)
     = (if k = ''__proto__'' \<and> k \<notin> fst ` set kvs then fst ` set kvs else insert k (fst ` set kvs))"
  by (simp add: set_prop_def replace_prop_keys insert_index_keys insert_absorb)

lemma set_prop_length:
  "length (set_prop kvs k v)
     = (if k \<in> fst ` set kvs \<or> k = ''__proto__'' then length kvs else Suc (length kvs))"
  by (simp add: set_prop_def replace_prop_length insert_index_length)

lemma set_prop_lookup:
  "k \<in> fst ` set kvs \<or> k \<noteq> ''__proto__'' \<Longrightarrow> map_of (set_prop kvs k v) k = Some v"
proof (cases "k \<in> fst ` set kvs")
  case True
  then show ?thesis by (simp add: set_prop_def replace_prop_lookup)
next
  case False
  assume "k \<in> fst ` set kvs \<or> k \<noteq> ''__proto__''"
  with False have "k \<noteq> ''__proto__''" by simp
  moreover have "map_of kvs k = None" using False by (simp add: map_of_eq_None_iff)
  ultimately show ?thesis using False by (simp add: set_prop_def insert_index_lookup map_add_def)
qed

lemma set_prop_fresh:
  "k \<notin> fst ` set kvs \<Longrightarrow> k \<noteq> ''__proto__'' \<Longrightarrow> \<not> is_array_index k \<Longrightarrow>
     set_prop kvs k v = kvs @ [(k, v)]"
  by (simp add: set_prop_def)

lemma prefixed_not_array_index: "\<not> is_array_index (a @ ''_'' @ b)"
  by (simp add: is_array_index_def is_digit_def)

lemma build_params_snoc: "build_params (ps @ [p]) = add_param (build_params ps) p"
  by (simp add: build_params_def)

lemma build_params_keys:
  "fst ` set (properties (build_params ps)) = usedKeys (build_params ps) - {''__proto__''}
   \<and> set (required (build_params ps)) \<subseteq> usedKeys (build_params ps)
   \<and> length (properties (build_params ps)) \<le> length ps"
proof (induction ps rule: rev_induct)
  case Nil
  show ?case by (simp add: build_params_def)
next
  case (snoc p ps)
  let ?st = "build_params ps"
  let ?k = "prop_key (usedKeys ?st) p"
  have props: "properties (add_param ?st p) = set_prop (properties ?st) ?k (prop_schema ?k p)"
    and req: "set (required (add_param ?st p)) \<subseteq> insert ?k (set (required ?st))"
    and used: "usedKeys (add_param ?st p) = insert ?k (usedKeys ?st)"
    by (auto simp: add_param_def Let_def)
  have 1: "fst ` set (properties (add_param ?st p)) = usedKeys (add_param ?st p) - {''__proto__''}"
    unfolding props used set_prop_keys using snoc by auto
  have 2: "set (required (add_param ?st p)) \<subseteq> usedKeys (add_param ?st p)"
    using req snoc unfolding used by auto
  have 3: "length (properties (add_param ?st p)) \<le> length (ps @ [p])"
    unfolding props set_prop_length using snoc by auto
  show ?case
    unfolding build_params_snoc using 1 2 3 by (intro conjI)
qed

lemma required_list_build:
  "required_list (build_input_schema op)
     = required (build_params (case op_parameters op of None \<Rightarrow> [] | Some ps \<Rightarrow> ps))"
  by (simp add: required_list_def build_input_schema_def Let_def)

lemma properties_build:
  "is_properties (build_input_schema op)
     = properties (build_params (case op_parameters op of None \<Rightarrow> [] | Some ps \<Rightarrow> ps))"
  by (simp add: build_input_schema_def Let_def)

lemma buildToolSpec_input_schema:
  assumes "buildToolSpec m d = Inr spec" and "ts_input_schema spec = Some isch"
  shows "\<exists>op. isch = build_input_schema op"
  using assms
  by (auto simp: buildToolSpec_def compile_operation_def initial_spec_def Let_def
      split: option.splits list.splits prod.splits sum.splits)

text \<open>
  What the loop does keep: every key pushed onto \<open>required\<close> other than \<open>__proto__\<close>
  is a key of \<open>properties\<close>, and a required parameter whose name is already in use is
  pushed under the prefixed key \<open>${in}_${name}\<close>, under which (when that key is not
  \<open>__proto__\<close>) the property is stored with the wire name as its \<open>aliasName\<close>.
\<close>

lemma required_keys_except_proto:
  assumes "buildToolSpec m d = Inr spec" and "ts_input_schema spec = Some isch"
  shows "set (required_list isch) - {''__proto__''} \<subseteq> fst ` set (is_properties isch)"
proof -
  from buildToolSpec_input_schema [OF assms] obtain op where "isch = build_input_schema op" ..
  then show ?thesis
    using build_params_keys [of "case op_parameters op of None \<Rightarrow> [] | Some ps \<Rightarrow> ps"]
    by (auto simp: required_list_build properties_build)
qed

lemma required_prefixed_key:
  assumes "p_name p \<in> usedKeys st" and "p_required p"
    and "param_in p @ ''_'' @ p_name p \<noteq> ''__proto__''"
  shows "required (add_param st p) = required st @ [param_in p @ ''_'' @ p_name p]
        \<and> param_in p @ ''_'' @ p_name p \<noteq> p_name p
        \<and> (\<exists>pr. map_of (properties (add_param st p)) (param_in p @ ''_'' @ p_name p) = Some pr
               \<and> pr_aliasName pr = Some (p_name p))"
proof -
  have ne: "param_in p @ ''_'' @ p_name p \<noteq> p_name p"
  proof
    assume "param_in p @ ''_'' @ p_name p = p_name p"
    then have "length (param_in p @ ''_'' @ p_name p) = length (p_name p)" by simp
    then show False by simp
  qed
  show ?thesis
    using assms ne by (simp add: add_param_def prop_key_def set_prop_lookup prop_schema_def Let_def)
qed

text \<open>
  C10 (the code at the failing input). The operation declares one parameter, named
  \<open>__proto__\<close>, in query and required. \<open>properties['__proto__'] = propSchema\<close> on the
  object literal stores no own property, and \<open>required.push('__proto__')\<close> still runs:
  the compiled record has \<open>required\<close> ["__proto__"] and no property at all, so an element
  of \<open>input_schema.required\<close> is not a key of \<open>input_schema.properties\<close>.
\<close>

theorem required_key_without_property:
  "\<exists>spec isch. buildToolSpec weather_meta (params_oas [mk_param ''__proto__'' ''query'' True]) = Inr spec
      \<and> ts_input_schema spec = Some isch
      \<and> is_required isch = Some [''__proto__'']
      \<and> is_properties isch = []
      \<and> \<not> set (required_list isch) \<subseteq> fst ` set (is_properties isch)"
  by (simp add: params_oas_def mk_param_def weather_meta_def weather_oas_def bare_op_def
      compile_defs required_list_def)
subsection \<open>Compiling and decompiling parameters\<close>

lemma param_in_nonempty: "param_in p \<noteq> []"
  by (simp add: param_in_def str_or_lit_def split: option.splits)

lemma roundtrip_state:
  "length (properties (build_params ps)) = length ps \<Longrightarrow>
   \<forall>p \<in> set ps. \<not> is_array_index (p_name p) \<Longrightarrow>
     map (\<lambda>kp. ((case pr_aliasName (snd kp) of None \<Rightarrow> fst kp | Some a \<Rightarrow> a),
                 Some (str_or_lit (pr_in (snd kp)) ''query''),
                 fst kp \<in> set (required (build_params ps))))
         (properties (build_params ps))
       = map (\<lambda>p. (p_name p, Some (param_in p), p_required p)) ps"
proof (induction ps rule: rev_induct)
  case Nil
  show ?case by (simp add: build_params_def)
next
  case (snoc p ps)
  let ?st = "build_params ps"
  let ?k = "prop_key (usedKeys ?st) p"
  let ?f = "\<lambda>req kp. ((case pr_aliasName (snd kp) of None \<Rightarrow> fst kp | Some a \<Rightarrow> a),
                 Some (str_or_lit (pr_in (snd kp)) ''query''), fst kp \<in> set req)"
  note inv = build_params_keys [of ps]
  have len: "length (properties (add_param ?st p)) = Suc (length ps)"
    using snoc.prems(1) by (simp add: build_params_snoc)
  have idx: "\<forall>p \<in> set ps. \<not> is_array_index (p_name p)" and idp: "\<not> is_array_index (p_name p)"
    using snoc.prems(2) by simp_all
  have fresh: "?k \<notin> fst ` set (properties ?st)" and plain: "?k \<noteq> ''__proto__''"
    and full: "length (properties ?st) = length ps"
    using len inv by (auto simp: add_param_def Let_def set_prop_length split: if_splits)
  have noidx: "\<not> is_array_index ?k"
    using idp prefixed_not_array_index [of "param_in p" "p_name p"] by (simp add: prop_key_def)
  have props: "properties (add_param ?st p) = properties ?st @ [(?k, prop_schema ?k p)]"
    by (simp add: add_param_def Let_def set_prop_fresh [OF fresh plain noidx])
  have req: "required (add_param ?st p) = (if p_required p then required ?st @ [?k] else required ?st)"
    by (simp add: add_param_def Let_def)
  have notreq: "?k \<notin> set (required ?st)"
    using fresh plain inv by auto
  have old: "map (?f (required (add_param ?st p))) (properties ?st)
               = map (?f (required ?st)) (properties ?st)"
    using fresh by (auto simp: req image_iff)
  have new: "?f (required (add_param ?st p)) (?k, prop_schema ?k p)
               = (p_name p, Some (param_in p), p_required p)"
    using notreq param_in_nonempty [of p]
    by (auto simp: req prop_schema_def str_or_lit_def)
  show ?case
    unfolding build_params_snoc props
    using old new snoc.IH [OF full idx] by simp
qed

lemma doc_parameters_skillToOas: "doc_parameters (skillToOas skill) = skill_params skill"
  by (simp add: doc_parameters_def skillToOas_def Let_def)

text \<open>
  When every parameter was stored under a key of its own (the compiled record has as many
  properties as the operation has parameters) and no parameter name is an array index,
  decompiling the compiled record gives the parameters back in order, each with its wire
  name, its location and its required flag.
\<close>

lemma roundtrip_parameters:
  assumes c: "compile_operation spec0 d k meth op = Inr spec"
    and ps: "op_parameters op = Some ps"
    and n: "length (properties (build_params ps)) = length ps"
    and i: "\<forall>p \<in> set ps. \<not> is_array_index (p_name p)"
  shows "map (\<lambda>q. (p_name q, p_in q, p_required q)) (doc_parameters (skillToOas spec))
           = map (\<lambda>p. (p_name p, Some (param_in p), p_required p)) ps"
proof -
  have isch: "ts_input_schema spec = Some (build_input_schema op)"
    using c by (auto simp: compile_operation_def split: sum.splits)
  have "map (\<lambda>q. (p_name q, p_in q, p_required q)) (skill_params spec)
          = map (\<lambda>kp. ((case pr_aliasName (snd kp) of None \<Rightarrow> fst kp | Some a \<Rightarrow> a),
                 Some (str_or_lit (pr_in (snd kp)) ''query''),
                 fst kp \<in> set (required (build_params ps))))
             (properties (build_params ps))"
    by (simp add: skill_params_def isch prop_to_param_def required_list_build properties_build ps
        split_def)
  then show ?thesis
    using roundtrip_state [OF n i] by (simp add: doc_parameters_skillToOas)
qed

text \<open>
  The case the round trip is meant for: an operation whose parameters are two with the
  same name, a name that is neither \<open>__proto__\<close> nor an array index, the second in one
  of the locations of OpenAPI. The second is stored under \<open>${in}_${name}\<close>, and both
  come back with the wire name.
\<close>

lemma roundtrip_colliding_pair:
  assumes c: "compile_operation spec0 d k meth op = Inr spec"
    and ps: "op_parameters op = Some [a, b]"
    and same: "p_name a = p_name b"
    and name: "p_name a \<noteq> ''__proto__''" "\<not> is_array_index (p_name a)"
    and loc: "param_in b \<in> {''query'', ''path'', ''header'', ''cookie''}"
  shows "map (\<lambda>q. (p_name q, p_in q, p_required q)) (doc_parameters (skillToOas spec))
           = [(p_name a, Some (param_in a), p_required a), (p_name b, Some (param_in b), p_required b)]"
proof -
  have ne: "param_in b @ ''_'' @ p_name b \<noteq> p_name b"
  proof
    assume "param_in b @ ''_'' @ p_name b = p_name b"
    then have "length (param_in b @ ''_'' @ p_name b) = length (p_name b)" by simp
    then show False by simp
  qed
  have pre: "param_in b @ ''_'' @ p_name b \<noteq> ''__proto__''"
    using loc by auto
  have "length (properties (build_params [a, b])) = length [a, b]"
    using same ne name pre
    by (simp add: build_params_def add_param_def prop_key_def Let_def set_prop_length set_prop_keys)
  moreover have "\<forall>p \<in> set [a, b]. \<not> is_array_index (p_name p)"
    using same name by simp
  ultimately show ?thesis using roundtrip_parameters [OF c ps] by simp
qed

text \<open>
  C1 (the code at the failing input). The operation declares, in this order, \<open>x\<close> in
  path, \<open>query_x\<close> in query, \<open>x\<close> in query and \<open>query_x\<close> in path. The third parameter
  collides with the first and is stored under the prefixed key \<open>query_x\<close>, which is the
  key of the second parameter: the second parameter is overwritten. After compiling and
  decompiling, the document declares three parameters, and \<open>query_x\<close> in query, one of the
  two parameters named \<open>query_x\<close>, is gone.
\<close>

theorem roundtrip_loses_parameter:
  "\<exists>spec. buildToolSpec weather_meta
        (params_oas [mk_param ''x'' ''path'' False, mk_param ''query_x'' ''query'' False,
                     mk_param ''x'' ''query'' False, mk_param ''query_x'' ''path'' False]) = Inr spec
     \<and> map (\<lambda>q. (p_name q, p_in q)) (doc_parameters (skillToOas spec))
         = [(''x'', Some ''path''), (''x'', Some ''query''), (''query_x'', Some ''path'')]"
  by (simp add: params_oas_def mk_param_def weather_meta_def weather_oas_def bare_op_def
      compile_defs doc_parameters_skillToOas skill_params_def prop_to_param_def required_list_def)

subsection \<open>Writing table edits back\<close>

lemma strip_end_hd:
  "rev (dropWhile P (rev xs)) \<noteq> [] \<Longrightarrow> hd (rev (dropWhile P (rev xs))) = hd xs"
proof (induction xs rule: rev_induct)
  case Nil
  then show ?case by simp
next
  case (snoc x xs)
  show ?case
  proof (cases "P x")
    case True
    with snoc have ne: "rev (dropWhile P (rev xs)) \<noteq> []" by simp
    then have "xs \<noteq> []" by auto
    with snoc.IH [OF ne] True show ?thesis by simp
  next
    case False
    then show ?thesis by simp
  qed
qed

lemma strip_end_last:
  "rev (dropWhile P (rev xs)) \<noteq> [] \<Longrightarrow> \<not> P (last (rev (dropWhile P (rev xs))))"
  by (simp add: last_rev hd_dropWhile)

lemma sanitize_key_safe:
  assumes "sanitize_key raw \<noteq> []"
  shows "safe_identifier (sanitize_key raw)"
proof -
  let ?m = "map (\<lambda>c. if is_word_char c then c else CHR ''_'') (collapse_ws False raw)"
  let ?d = "dropWhile (\<lambda>c. c = CHR ''_'') ?m"
  have k: "sanitize_key raw = rev (dropWhile (\<lambda>c. c = CHR ''_'') (rev ?d))"
    by (simp add: sanitize_key_def)
  have allm: "\<forall>c \<in> set ?m. is_word_char c"
    by (auto simp: is_word_char_def)
  have drop_sub: "set (dropWhile P xs) \<subseteq> set xs" for P and xs :: string
    using set_dropWhileD by fastforce
  have "set (sanitize_key raw) \<subseteq> set ?d"
    unfolding k using drop_sub [of "\<lambda>c. c = CHR ''_''" "rev ?d"] by simp
  then have sub: "set (sanitize_key raw) \<subseteq> set ?m"
    using drop_sub [of "\<lambda>c. c = CHR ''_''" ?m] by blast
  have chars: "list_all is_word_char (sanitize_key raw)"
  proof -
    have "is_word_char c" if "c \<in> set (sanitize_key raw)" for c
    proof -
      from subsetD [OF sub that] have "c \<in> set ?m" .
      with allm show ?thesis by (rule bspec)
    qed
    then show ?thesis by (simp only: list_all_iff) blast
  qed
  have dne: "?d \<noteq> []"
  proof
    assume e: "?d = []"
    have "sanitize_key raw = []" unfolding k e by simp
    with assms show False by simp
  qed
  have hd_d: "hd ?d \<noteq> CHR ''_''"
    using hd_dropWhile [OF dne] by simp
  have h: "hd (sanitize_key raw) \<noteq> CHR ''_''"
    using strip_end_hd [of "\<lambda>c. c = CHR ''_''" ?d] assms hd_d unfolding k by simp
  have l: "last (sanitize_key raw) \<noteq> CHR ''_''"
    using strip_end_last [of "\<lambda>c. c = CHR ''_''" ?d] assms unfolding k by simp
  show ?thesis using assms chars h l by (simp add: safe_identifier_def)
qed

lemma sanitize_key_Nil: "sanitize_key [] = []"
  by (simp add: sanitize_key_def)

lemma row_key_Some:
  "row_key row = Some k \<Longrightarrow> k = sanitize_key (row_raw_name row) \<and> safe_identifier k"
  by (auto simp: row_key_def Let_def sanitize_key_safe split: if_splits)

lemma row_key_None: "(row_key row = None) = (sanitize_key (row_raw_name row) = [])"
  by (auto simp: row_key_def Let_def sanitize_key_Nil)

lemma row_key_not_proto: "row_key row \<noteq> Some ''__proto__''"
proof
  assume "row_key row = Some ''__proto__''"
  from row_key_Some [OF this] have "safe_identifier ''__proto__''" by (rule conjunct2)
  then show False by (simp add: safe_identifier_def)
qed

lemma schema_rows_keys:
  "fst ` set (fst (foldl (schema_row numlit) acc rows))
     = fst ` set (fst acc) \<union> {k. \<exists>row \<in> set rows. row_deleted row \<noteq> Some ''1'' \<and> row_key row = Some k}"
proof (induction rows arbitrary: acc)
  case Nil
  show ?case by simp
next
  case (Cons r rows)
  have step: "fst ` set (fst (schema_row numlit acc r))
     = fst ` set (fst acc) \<union> {k. row_deleted r \<noteq> Some ''1'' \<and> row_key r = Some k}"
    using row_key_not_proto [of r]
    by (auto simp: schema_row_def Let_def set_prop_keys split: option.splits)
  show ?case
    unfolding foldl_Cons Cons.IH step by auto
qed

lemma paths_rows_names:
  "map p_name (foldl (paths_row numlit) ps rows)
     = map p_name ps @ filter (\<lambda>n. n \<noteq> [])
         (map row_raw_name (filter (\<lambda>row. row_deleted row \<noteq> Some ''1'') rows))"
proof (induction rows arbitrary: ps)
  case Nil
  show ?case by simp
next
  case (Cons r rows)
  have step: "map p_name (paths_row numlit ps r)
     = map p_name ps @ (if row_deleted r \<noteq> Some ''1'' \<and> row_raw_name r \<noteq> [] then [row_raw_name r] else [])"
    by (simp add: paths_row_def Let_def)
  show ?case
    unfolding foldl_Cons Cons.IH step by simp
qed

lemma apply_table_schema:
  assumes "tbl_format tbl = ''schema''"
  shows "\<exists>isch. ed_input_schema (apply_table numlit doc tbl) = Some isch
     \<and> fst ` set (is_properties isch)
         = {k. \<exists>row \<in> set (tbl_rows tbl). row_deleted row \<noteq> Some ''1'' \<and> row_key row = Some k}
     \<and> (\<forall>k \<in> fst ` set (is_properties isch). safe_identifier k)"
proof -
  let ?acc = "foldl (schema_row numlit) ([], []) (tbl_rows tbl)"
  have keys: "fst ` set (fst ?acc)
         = {k. \<exists>row \<in> set (tbl_rows tbl). row_deleted row \<noteq> Some ''1'' \<and> row_key row = Some k}"
    using schema_rows_keys [of numlit "([], [])" "tbl_rows tbl"] by simp
  have safe: "\<forall>k \<in> fst ` set (fst ?acc). safe_identifier k"
    unfolding keys using row_key_Some by blast
  have safe': "\<forall>x \<in> set (fst ?acc). safe_identifier (fst x)"
    using safe by auto
  show ?thesis
    using assms keys safe' by (simp add: apply_table_def Let_def)
qed

lemma apply_table_paths:
  assumes "tbl_format tbl = ''paths''"
    and "tbl_pathkey tbl = Some pk" "pk \<noteq> []" "tbl_method tbl = Some me" "me \<noteq> []"
    and "ed_paths doc = Some paths" "map_of paths pk = Some po" "map_of po me = Some op"
  shows "\<exists>paths' po' op' ps. ed_paths (apply_table numlit doc tbl) = Some paths'
     \<and> map_of paths' pk = Some po' \<and> map_of po' me = Some op' \<and> op_parameters op' = Some ps
     \<and> map p_name ps = filter (\<lambda>n. n \<noteq> [])
         (map row_raw_name (filter (\<lambda>row. row_deleted row \<noteq> Some ''1'') (tbl_rows tbl)))
     \<and> (\<forall>p \<in> set ps. p_name p \<noteq> [])"
proof -
  let ?ps = "foldl (paths_row numlit) [] (tbl_rows tbl)"
  have names: "map p_name ?ps = filter (\<lambda>n. n \<noteq> [])
         (map row_raw_name (filter (\<lambda>row. row_deleted row \<noteq> Some ''1'') (tbl_rows tbl)))"
    using paths_rows_names [of numlit "[]" "tbl_rows tbl"] by simp
  have "\<forall>n \<in> set (map p_name ?ps). n \<noteq> []"
    unfolding names by simp
  then have ne: "\<forall>p \<in> set ?ps. p_name p \<noteq> []" by simp
  let ?op = "op\<lparr>op_parameters := Some ?ps\<rparr>"
  have ns: "tbl_format tbl \<noteq> ''schema''" using assms(1) by simp
  have r: "ed_paths (apply_table numlit doc tbl)
             = Some (set_prop paths pk (set_prop po me ?op))"
    unfolding apply_table_def using ns assms by simp
  have own: "pk \<in> fst ` set paths" "me \<in> fst ` set po"
    using map_of_SomeD [OF assms(7)] map_of_SomeD [OF assms(8)] by (simp_all add: rev_image_eqI)
  have 1: "map_of (set_prop paths pk (set_prop po me ?op)) pk = Some (set_prop po me ?op)"
    by (rule set_prop_lookup, rule disjI1, rule own(1))
  have 2: "map_of (set_prop po me ?op) me = Some ?op"
    by (rule set_prop_lookup, rule disjI1, rule own(2))
  have 3: "op_parameters ?op = Some ?ps" by simp
  show ?thesis
    using r 1 2 3 names ne by blast
qed

text \<open>
  C8 (as stated, refuted). The claim says every typed name is sanitized, with the
  characters outside \<open>[A-Za-z0-9_]\<close> stripped, and every row whose sanitized name is
  empty skipped. In a table of the schema format the typed name \<open>a-b\<close> is stored as
  \<open>a_b\<close>: the character is replaced by an underscore, not removed. In a table of the
  paths format the typed names \<open>user id\<close> and \<open>-\<close> are written as they were typed, although
  the first is not an identifier and the sanitized form of the second is empty.
\<close>

theorem table_names_not_all_sanitized:
  "row_key (named_row ''a-b'') = Some ''a_b''
   \<and> (\<exists>paths po op ps.
        ed_paths (applyParamEditsToJson (\<lambda>v. None)
           \<lparr>ed_input_schema = None, ed_paths = Some [(''/items'', [(''get'', bare_op)])]\<rparr>
           [\<lparr>tbl_format = ''paths'', tbl_pathkey = Some ''/items'', tbl_method = Some ''get'',
             tbl_rows = [named_row ''user id'', named_row ''-'']\<rparr>]) = Some paths
        \<and> map_of paths ''/items'' = Some po \<and> map_of po ''get'' = Some op
        \<and> op_parameters op = Some ps \<and> map p_name ps = [''user id'', ''-''])
   \<and> sanitize_key ''-'' = [] \<and> \<not> safe_identifier ''user id''"
  by (simp add: row_key_def row_raw_name_def named_row_def trim_def sanitize_key_def
      is_space_def is_word_char_def is_letter_def is_digit_def Let_def
      applyParamEditsToJson_def apply_table_def paths_row_def bare_op_def str_or_lit_def
      parseParamDefault_def safe_identifier_def set_prop_def)

text \<open>
  C8 (amended). Writing a table of the schema format back stores exactly the keys of the
  rows that are not marked deleted and whose sanitized name is not empty; the sanitized
  name is the trimmed typed name with every run of white space turned into one
  underscore, every other character outside \<open>[A-Za-z0-9_]\<close> replaced by an underscore,
  and leading and trailing underscores removed, so every stored key is a non-empty
  identifier that neither starts nor ends with an underscore. A row whose sanitized name
  is empty is skipped, and no error is raised. Writing a table of the paths format back
  to an operation the document has stores the trimmed names of the rows that are not
  marked deleted and whose trimmed name is not empty. In both formats every parameter
  name written is non-empty.
\<close>

theorem table_edits_write_nonempty_names:
  "(tbl_format tbl = ''schema'' \<longrightarrow>
      (\<exists>isch. ed_input_schema (apply_table numlit doc tbl) = Some isch
         \<and> fst ` set (is_properties isch)
             = {k. \<exists>row \<in> set (tbl_rows tbl). row_deleted row \<noteq> Some ''1'' \<and> row_key row = Some k}
         \<and> (\<forall>k \<in> fst ` set (is_properties isch). safe_identifier k)))
   \<and> (row_key row = Some k \<longrightarrow> k = sanitize_key (row_raw_name row) \<and> safe_identifier k)
   \<and> ((row_key row = None) = (sanitize_key (row_raw_name row) = []))
   \<and> (tbl_format tbl = ''paths'' \<and> tbl_pathkey tbl = Some pk \<and> pk \<noteq> []
        \<and> tbl_method tbl = Some me \<and> me \<noteq> [] \<and> ed_paths doc = Some paths
        \<and> map_of paths pk = Some po \<and> map_of po me = Some op \<longrightarrow>
      (\<exists>paths' po' op' ps. ed_paths (apply_table numlit doc tbl) = Some paths'
         \<and> map_of paths' pk = Some po' \<and> map_of po' me = Some op' \<and> op_parameters op' = Some ps
         \<and> map p_name ps = filter (\<lambda>n. n \<noteq> [])
             (map row_raw_name (filter (\<lambda>row. row_deleted row \<noteq> Some ''1'') (tbl_rows tbl)))
         \<and> (\<forall>p \<in> set ps. p_name p \<noteq> [])))"
  using apply_table_schema [of tbl numlit doc] row_key_Some [of row k] row_key_None [of row]
    apply_table_paths [of tbl pk me doc paths po op numlit]
  by blast

theorem table_edits_write_nonempty_names_witness:
  "(\<exists>isch. ed_input_schema (apply_table (\<lambda>v. None) \<lparr>ed_input_schema = None, ed_paths = None\<rparr>
        \<lparr>tbl_format = ''schema'', tbl_pathkey = None, tbl_method = None,
         tbl_rows = [named_row ''user id'', named_row ''-'']\<rparr>) = Some isch
      \<and> fst ` set (is_properties isch) = {''user_id''}
      \<and> (\<forall>k \<in> fst ` set (is_properties isch). safe_identifier k))
   \<and> row_key (named_row ''-'') = None"
proof -
  let ?tbl = "\<lparr>tbl_format = ''schema'', tbl_pathkey = None, tbl_method = None,
         tbl_rows = [named_row ''user id'', named_row ''-'']\<rparr>"
  have k1: "row_key (named_row ''user id'') = Some ''user_id''"
    and k2: "row_key (named_row ''-'') = None"
    by (simp_all add: row_key_def row_raw_name_def named_row_def trim_def sanitize_key_def
        is_space_def is_word_char_def is_letter_def is_digit_def Let_def)
  have keys: "{k. \<exists>row \<in> set (tbl_rows ?tbl). row_deleted row \<noteq> Some ''1'' \<and> row_key row = Some k}
                = {''user_id''}"
    using k1 k2 by (auto simp: named_row_def)
  have f: "tbl_format ?tbl = ''schema''" by simp
  note t = table_edits_write_nonempty_names [of ?tbl "\<lambda>v. None" "\<lparr>ed_input_schema = None, ed_paths = None\<rparr>"
      "named_row ''-''" "''x''" "''/p''" "''get''" "[]" "[]" bare_op]
  have ex: "\<exists>isch. ed_input_schema (apply_table (\<lambda>v. None) \<lparr>ed_input_schema = None, ed_paths = None\<rparr> ?tbl)
        = Some isch
      \<and> fst ` set (is_properties isch)
           = {k. \<exists>row \<in> set (tbl_rows ?tbl). row_deleted row \<noteq> Some ''1'' \<and> row_key row = Some k}
      \<and> (\<forall>k \<in> fst ` set (is_properties isch). safe_identifier k)"
    by (rule mp [OF conjunct1 [OF t] f])
  show ?thesis
    using ex k2 unfolding keys by simp
qed

subsection \<open>Generation from an observed request\<close>

lemmas gen_defs = generateOaS_def fetchAndGenerate_def new_oas_def param_names_def
  apiKeyParam_of_def hasApiKeyParam_def secName_def api_key_aliases_def observed_param_def
  toronto_params_def truthy_opt_def typeof_opt_def str_or_lit_def trim_def is_space_def
  to_lower_def to_upper_def Let_def

lemma scenario_generateOaS:
  "\<exists>doc. generateOaS si now url (Some u) ''GET'' (Some toronto_params) body (Some ''apiKey'') = Inr doc
     \<and> at_path doc [''paths'', url_pathname u, ''get'', ''parameters''] = Some (JArr
          [JObj [(''name'', JStr ''q''), (''in'', JStr ''query''), (''required'', JBool False),
                 (''schema'', JObj [(''type'', JStr ''string''), (''default'', JStr ''Toronto,On'')])],
           JObj [(''name'', JStr ''key''), (''in'', JStr ''query''), (''required'', JBool False),
                 (''schema'', JObj [(''type'', JStr ''string''), (''default'', JStr ''abc123'')])]])
     \<and> at_path doc [''components'', ''securitySchemes'', ''ApiKeyAuth'']
          = Some (JObj [(''type'', JStr ''apiKey''), (''in'', JStr ''query''), (''name'', JStr ''key'')])
     \<and> field doc ''security'' = Some (JArr [JObj [(''ApiKeyAuth'', JArr [])]])"
  by (simp add: gen_defs)

lemma scenario_fetchAndGenerate:
  assumes "200 \<le> f_status r" "f_status r \<le> 299"
  shows "\<exists>doc. fetchAndGenerate si now url (Some u) (Some ''GET'') (Some toronto_params) (Inr r) (Some ''apiKey'') = Inr doc
     \<and> at_path doc [''paths'', (if url_pathname u = [] then ''/'' else url_pathname u), ''get'', ''parameters''] = Some (JArr
          [JObj [(''name'', JStr ''q''), (''in'', JStr ''query''), (''required'', JBool False),
                 (''schema'', JObj [(''type'', JStr ''string''), (''default'', JStr ''Toronto,On'')])],
           JObj [(''name'', JStr ''key''), (''in'', JStr ''query''), (''required'', JBool False),
                 (''schema'', JObj [(''type'', JStr ''string''), (''default'', JStr ''abc123'')])]])
     \<and> at_path doc [''components'', ''securitySchemes'', ''ApiKeyAuth'']
          = Some (JObj [(''type'', JStr ''apiKey''), (''in'', JStr ''query''), (''name'', JStr ''key'')])
     \<and> field doc ''security'' = Some (JArr [JObj [(''ApiKeyAuth'', JArr [])]])"
  using assms by (simp add: gen_defs)

lemma no_match_no_security:
  assumes "\<forall>k \<in> set (param_names params). k \<noteq> apiKeyParam_of apk \<and> k \<notin> {''key'', ''apiKey'', ''api_key''}"
  shows "\<not> hasApiKeyParam (param_names params) (apiKeyParam_of apk)"
  using assms by (auto simp: hasApiKeyParam_def api_key_aliases_def list_ex_iff)

lemma new_oas_no_security:
  "\<not> hasApiKeyParam pn ak \<Longrightarrow>
     field (new_oas si url now b p m ps rs pn ak) ''components'' = None
     \<and> field (new_oas si url now b p m ps rs pn ak) ''security'' = None"
  by (simp add: new_oas_def)

lemma generateOaS_no_security:
  assumes "\<not> hasApiKeyParam (param_names params) (apiKeyParam_of apk)"
    and "generateOaS si now url uo method params body apk = Inr doc"
  shows "field doc ''components'' = None \<and> field doc ''security'' = None"
proof -
  from assms(2) obtain u where "uo = Some u" by (cases uo) (simp_all add: generateOaS_def)
  with assms(2) obtain b p m ps rs where "doc = new_oas si url now b p m ps rs (param_names params) (apiKeyParam_of apk)"
    by (auto simp: generateOaS_def Let_def)
  then show ?thesis using new_oas_no_security [OF assms(1)] by simp
qed

lemma fetchAndGenerate_no_security:
  assumes "\<not> hasApiKeyParam (param_names params) (apiKeyParam_of apk)"
    and "fetchAndGenerate si now url uo method params fetched apk = Inr doc"
  shows "field doc ''components'' = None \<and> field doc ''security'' = None"
proof -
  from assms(2) obtain b p m ps rs where "doc = new_oas si url now b p m ps rs (param_names params) (apiKeyParam_of apk)"
    by (auto simp: fetchAndGenerate_def Let_def split: option.splits sum.splits if_splits)
  then show ?thesis using new_oas_no_security [OF assms(1)] by simp
qed

text \<open>
  C6. For a GET generation request with the observed parameters
  \<open>{q: "Toronto,On", key: "abc123"}\<close> and the default API-key parameter name \<open>apiKey\<close>,
  both handlers generate a document whose operation declares the query parameter \<open>q\<close>
  with \<open>schema.default\<close> "Toronto,On" (and \<open>key\<close> with default "abc123"), whose
  \<open>components.securitySchemes.ApiKeyAuth\<close> is \<open>{type: "apiKey", in: "query", name: "key"}\<close>
  and whose \<open>security\<close> is \<open>[{ApiKeyAuth: []}]\<close>, whatever the URL, the service
  information and the response body are. When no parameter name is the configured name
  or one of \<open>key\<close>, \<open>apiKey\<close>, \<open>api_key\<close>, the generated document has neither
  \<open>components\<close> nor \<open>security\<close>.
\<close>

theorem generated_document_security:
  "(\<exists>doc. generateOaS si now url (Some u) ''GET'' (Some toronto_params) body (Some ''apiKey'') = Inr doc
     \<and> at_path doc [''paths'', url_pathname u, ''get'', ''parameters''] = Some (JArr
          [JObj [(''name'', JStr ''q''), (''in'', JStr ''query''), (''required'', JBool False),
                 (''schema'', JObj [(''type'', JStr ''string''), (''default'', JStr ''Toronto,On'')])],
           JObj [(''name'', JStr ''key''), (''in'', JStr ''query''), (''required'', JBool False),
                 (''schema'', JObj [(''type'', JStr ''string''), (''default'', JStr ''abc123'')])]])
     \<and> at_path doc [''components'', ''securitySchemes'', ''ApiKeyAuth'']
          = Some (JObj [(''type'', JStr ''apiKey''), (''in'', JStr ''query''), (''name'', JStr ''key'')])
     \<and> field doc ''security'' = Some (JArr [JObj [(''ApiKeyAuth'', JArr [])]]))
   \<and> (200 \<le> f_status r \<and> f_status r \<le> 299 \<longrightarrow>
       (\<exists>doc. fetchAndGenerate si now url (Some u) (Some ''GET'') (Some toronto_params) (Inr r)
                 (Some ''apiKey'') = Inr doc
          \<and> at_path doc [''paths'', (if url_pathname u = [] then ''/'' else url_pathname u), ''get'',
                ''parameters''] = Some (JArr
               [JObj [(''name'', JStr ''q''), (''in'', JStr ''query''), (''required'', JBool False),
                      (''schema'', JObj [(''type'', JStr ''string''), (''default'', JStr ''Toronto,On'')])],
                JObj [(''name'', JStr ''key''), (''in'', JStr ''query''), (''required'', JBool False),
                      (''schema'', JObj [(''type'', JStr ''string''), (''default'', JStr ''abc123'')])]])
          \<and> at_path doc [''components'', ''securitySchemes'', ''ApiKeyAuth'']
               = Some (JObj [(''type'', JStr ''apiKey''), (''in'', JStr ''query''), (''name'', JStr ''key'')])
          \<and> field doc ''security'' = Some (JArr [JObj [(''ApiKeyAuth'', JArr [])]])))
   \<and> ((\<forall>k \<in> set (param_names params). k \<noteq> apiKeyParam_of apk \<and> k \<notin> {''key'', ''apiKey'', ''api_key''}) \<longrightarrow>
       (\<forall>doc. generateOaS si now url uo method params body apk = Inr doc
          \<longrightarrow> field doc ''components'' = None \<and> field doc ''security'' = None)
       \<and> (\<forall>doc. fetchAndGenerate si now url uo fmethod params fetched apk = Inr doc
          \<longrightarrow> field doc ''components'' = None \<and> field doc ''security'' = None))"
proof (intro conjI impI allI)
  show "\<exists>doc. generateOaS si now url (Some u) ''GET'' (Some toronto_params) body (Some ''apiKey'') = Inr doc
     \<and> at_path doc [''paths'', url_pathname u, ''get'', ''parameters''] = Some (JArr
          [JObj [(''name'', JStr ''q''), (''in'', JStr ''query''), (''required'', JBool False),
                 (''schema'', JObj [(''type'', JStr ''string''), (''default'', JStr ''Toronto,On'')])],
           JObj [(''name'', JStr ''key''), (''in'', JStr ''query''), (''required'', JBool False),
                 (''schema'', JObj [(''type'', JStr ''string''), (''default'', JStr ''abc123'')])]])
     \<and> at_path doc [''components'', ''securitySchemes'', ''ApiKeyAuth'']
          = Some (JObj [(''type'', JStr ''apiKey''), (''in'', JStr ''query''), (''name'', JStr ''key'')])
     \<and> field doc ''security'' = Some (JArr [JObj [(''ApiKeyAuth'', JArr [])]])"
    by (rule scenario_generateOaS)
next
  assume "200 \<le> f_status r \<and> f_status r \<le> 299"
  then show "\<exists>doc. fetchAndGenerate si now url (Some u) (Some ''GET'') (Some toronto_params) (Inr r)
                 (Some ''apiKey'') = Inr doc
          \<and> at_path doc [''paths'', (if url_pathname u = [] then ''/'' else url_pathname u), ''get'',
                ''parameters''] = Some (JArr
               [JObj [(''name'', JStr ''q''), (''in'', JStr ''query''), (''required'', JBool False),
                      (''schema'', JObj [(''type'', JStr ''string''), (''default'', JStr ''Toronto,On'')])],
                JObj [(''name'', JStr ''key''), (''in'', JStr ''query''), (''required'', JBool False),
                      (''schema'', JObj [(''type'', JStr ''string''), (''default'', JStr ''abc123'')])]])
          \<and> at_path doc [''components'', ''securitySchemes'', ''ApiKeyAuth'']
               = Some (JObj [(''type'', JStr ''apiKey''), (''in'', JStr ''query''), (''name'', JStr ''key'')])
          \<and> field doc ''security'' = Some (JArr [JObj [(''ApiKeyAuth'', JArr [])]])"
    using scenario_fetchAndGenerate [of r si now url u] by blast
next
  fix doc
  assume n: "\<forall>k \<in> set (param_names params). k \<noteq> apiKeyParam_of apk \<and> k \<notin> {''key'', ''apiKey'', ''api_key''}"
    and g: "generateOaS si now url uo method params body apk = Inr doc"
  from generateOaS_no_security [OF no_match_no_security [OF n] g]
  show "field doc ''components'' = None" and "field doc ''security'' = None" by simp_all
next
  fix doc
  assume n: "\<forall>k \<in> set (param_names params). k \<noteq> apiKeyParam_of apk \<and> k \<notin> {''key'', ''apiKey'', ''api_key''}"
    and g: "fetchAndGenerate si now url uo fmethod params fetched apk = Inr doc"
  from fetchAndGenerate_no_security [OF no_match_no_security [OF n] g]
  show "field doc ''components'' = None" and "field doc ''security'' = None" by simp_all
qed

theorem generated_document_security_witness:
  "\<exists>doc. fetchAndGenerate \<lparr>si_title = None, si_description = None\<rparr> 0 ''https://h.example/p''
       (Some \<lparr>url_origin = ''https://h.example'', url_pathname = ''/p''\<rparr>) (Some ''GET'')
       (Some (JObj [(''q'', JStr ''Toronto,On'')]))
       (Inr \<lparr>f_status = 200, f_statusText = ''OK'', f_body = JObj []\<rparr>) (Some ''apiKey'') = Inr doc
     \<and> field doc ''components'' = None \<and> field doc ''security'' = None"
proof -
  have n: "\<forall>k \<in> set (param_names (Some (JObj [(''q'', JStr ''Toronto,On'')]))).
             k \<noteq> apiKeyParam_of (Some ''apiKey'') \<and> k \<notin> {''key'', ''apiKey'', ''api_key''}"
    by (simp add: param_names_def truthy_opt_def typeof_opt_def apiKeyParam_of_def str_or_lit_def
        trim_def is_space_def)
  obtain doc where d: "fetchAndGenerate \<lparr>si_title = None, si_description = None\<rparr> 0 ''https://h.example/p''
       (Some \<lparr>url_origin = ''https://h.example'', url_pathname = ''/p''\<rparr>) (Some ''GET'')
       (Some (JObj [(''q'', JStr ''Toronto,On'')]))
       (Inr \<lparr>f_status = 200, f_statusText = ''OK'', f_body = JObj []\<rparr>) (Some ''apiKey'') = Inr doc"
    by (simp add: fetchAndGenerate_def Let_def)
  note t = generated_document_security [where params = "Some (JObj [(''q'', JStr ''Toronto,On'')])"
      and apk = "Some ''apiKey''" and si = "\<lparr>si_title = None, si_description = None\<rparr>" and now = 0
      and url = "''https://h.example/p''"
      and uo = "Some \<lparr>url_origin = ''https://h.example'', url_pathname = ''/p''\<rparr>"
      and fmethod = "Some ''GET''"
      and fetched = "Inr \<lparr>f_status = 200, f_statusText = ''OK'', f_body = JObj []\<rparr>"]
  from mp [OF conjunct2 [OF conjunct2 [OF t]] n]
  have "\<forall>doc. fetchAndGenerate \<lparr>si_title = None, si_description = None\<rparr> 0 ''https://h.example/p''
       (Some \<lparr>url_origin = ''https://h.example'', url_pathname = ''/p''\<rparr>) (Some ''GET'')
       (Some (JObj [(''q'', JStr ''Toronto,On'')]))
       (Inr \<lparr>f_status = 200, f_statusText = ''OK'', f_body = JObj []\<rparr>) (Some ''apiKey'') = Inr doc
          \<longrightarrow> field doc ''components'' = None \<and> field doc ''security'' = None"
    by (rule conjunct2)
  with d show ?thesis by blast
qed

subsection \<open>The poll loops\<close>

lemma find_by_None_append:
  "find_by k v ms = Inr None \<Longrightarrow> JNull \<notin> set ms \<and> (\<forall>m \<in> set ms. field m k \<noteq> Some (JStr v))"
  by (induction ms) (auto split: if_splits)

lemma find_by_Some_first:
  "find_by k v ms = Inr (Some m) \<Longrightarrow>
     \<exists>pre post. ms = pre @ m # post \<and> field m k = Some (JStr v)
        \<and> (\<forall>x \<in> set pre. field x k \<noteq> Some (JStr v))"
proof (induction ms)
  case Nil
  then show ?case by simp
next
  case (Cons a ms)
  show ?case
  proof (cases "field a k = Some (JStr v)")
    case True
    with Cons.prems have "m = a" by (auto split: if_splits)
    with True have "a # ms = [] @ m # ms \<and> field m k = Some (JStr v)
        \<and> (\<forall>x \<in> set []. field x k \<noteq> Some (JStr v))" by simp
    then show ?thesis by blast
  next
    case False
    with Cons.prems have "find_by k v ms = Inr (Some m)" by (auto split: if_splits)
    from Cons.IH [OF this] obtain pre post where
      p: "ms = pre @ m # post" "field m k = Some (JStr v)" "\<forall>x \<in> set pre. field x k \<noteq> Some (JStr v)"
      by blast
    with False have "a # ms = (a # pre) @ m # post \<and> field m k = Some (JStr v)
        \<and> (\<forall>x \<in> set (a # pre). field x k \<noteq> Some (JStr v))" by simp
    then show ?thesis by blast
  qed
qed

lemma filter_by_no_null:
  "JNull \<notin> set ms \<Longrightarrow> filter_by k v ms = Inr (filter (\<lambda>m. field m k = Some (JStr v)) ms)"
  by (induction ms) auto

lemma tool_poll_quiet_step:
  assumes "tool_poll_quiet (poll i)"
  shows "\<exists>ms. tool_poll poll tid (Suc n) i msgs tr
            = tool_poll poll tid n (Suc i) ms (tr @ [Delay 4000, GetMessages tid])
          \<and> (find_by ''role'' ''assistant'' msgs = Inr None \<longrightarrow> find_by ''role'' ''assistant'' ms = Inr None)"
proof (cases "poll i")
  case (Inl e)
  with assms show ?thesis by (simp add: tool_poll_quiet_def)
next
  case (Inr r)
  show ?thesis
  proof (cases "h_ok r")
    case False
    with Inr show ?thesis by (auto simp: Let_def)
  next
    case True
    with assms Inr obtain d ms where d: "h_json r = Some d" "thread_messages d = Inr ms"
        "find_by ''role'' ''assistant'' ms = Inr None"
      by (auto simp: tool_poll_quiet_def split: option.splits sum.splits)
    with True Inr show ?thesis by (auto simp: Let_def)
  qed
qed

lemma agent_poll_quiet_step:
  assumes "agent_poll_quiet (poll i)"
  shows "agent_poll sf ts fmt poll tid (Suc n) i tr
            = agent_poll sf ts fmt poll tid n (Suc i) (tr @ [Delay 2000, GetMessages tid])"
proof (cases "poll i")
  case (Inl e)
  with assms show ?thesis by (simp add: agent_poll_quiet_def)
next
  case (Inr r)
  show ?thesis
  proof (cases "h_ok r")
    case False
    with Inr show ?thesis by (simp add: Let_def)
  next
    case True
    with assms Inr show ?thesis
      by (auto simp: agent_poll_quiet_def Let_def split: option.splits json.splits)
  qed
qed

lemma agent_poll_quiet_all:
  "(\<forall>j < n. agent_poll_quiet (poll (i + j))) \<Longrightarrow>
     agent_poll sf ts fmt poll tid n i tr
       = (tr @ concat (replicate n [Delay 2000, GetMessages tid]),
          Inl (Error ''Timed out waiting for assistant response.''))"
proof (induction n arbitrary: i tr)
  case 0
  then show ?case by simp
next
  case (Suc n)
  from Suc.prems have q: "agent_poll_quiet (poll i)" by (metis add.right_neutral zero_less_Suc)
  have rest: "\<forall>j < n. agent_poll_quiet (poll (Suc i + j))"
    using Suc.prems by (metis add_Suc_shift Suc_less_eq)
  have step: "agent_poll sf ts fmt poll tid (Suc n) i tr
            = agent_poll sf ts fmt poll tid n (Suc i) (tr @ [Delay 2000, GetMessages tid])"
    using agent_poll_quiet_step [where poll = poll and i = i] q by blast
  show ?case
    unfolding step Suc.IH [OF rest]
    by simp
qed

lemma find_by_total: "JNull \<notin> set cs \<Longrightarrow> \<exists>r. find_by k v cs = Inr r"
  by (induction cs) auto

lemma content_data_total:
  assumes "JNull \<notin> set cs"
  shows "\<exists>d. content_data sf cs = Inr d"
proof -
  obtain a b c where "find_by ''type'' ''tool_result'' cs = Inr a"
      "find_by ''type'' ''text'' cs = Inr b" "find_by ''type'' ''tool_use'' cs = Inr c"
    using find_by_total [OF assms] by metis
  then show ?thesis
    by (auto simp: content_data_def split: option.splits json.splits)
qed

lemma tool_result_no_assistant:
  assumes n: "find_by ''role'' ''assistant'' ms = Inr None"
  shows "(ms = [] \<longrightarrow> tool_result sf fmt (Some t) ms
             = Inr \<lparr>tr_data = JObj [(''thread_id'', t), (''info'', JStr ''No tool output in messages.'')],
                    tr_threadId = Some t, tr_reasoning = None\<rparr>)
       \<and> (ms \<noteq> [] \<and> \<not> truthy_opt (field (hd ms) ''content'') \<longrightarrow>
             tool_result sf fmt tid ms = Inr \<lparr>tr_data = JArr ms, tr_threadId = tid, tr_reasoning = None\<rparr>)
       \<and> (ms \<noteq> [] \<and> field (hd ms) ''content'' = Some c \<and> truthy c \<and> \<not> isArray (Some c) \<longrightarrow>
             tool_result sf fmt tid ms = Inr \<lparr>tr_data = c, tr_threadId = tid, tr_reasoning = None\<rparr>)
       \<and> (ms \<noteq> [] \<and> field (hd ms) ''content'' = Some (JArr cs) \<and> JNull \<notin> set cs \<longrightarrow>
             (\<exists>d. tool_result sf fmt tid ms
                = Inr \<lparr>tr_data = d, tr_threadId = tid, tr_reasoning = Some (fmt cs False)\<rparr>))"
proof (intro conjI impI)
  assume "ms = []"
  then show "tool_result sf fmt (Some t) ms
             = Inr \<lparr>tr_data = JObj [(''thread_id'', t), (''info'', JStr ''No tool output in messages.'')],
                    tr_threadId = Some t, tr_reasoning = None\<rparr>"
    by (simp add: tool_result_def truthy_opt_def)
next
  assume a: "ms \<noteq> [] \<and> \<not> truthy_opt (field (hd ms) ''content'')"
  then obtain m rest where ms: "ms = m # rest" by (cases ms) auto
  from n ms have nn: "m \<noteq> JNull" by (auto split: if_splits)
  have oc: "opt_field (Some m) ''content'' = field m ''content''"
    using nn by (cases m) (simp_all add: opt_field_def)
  have n': "find_by ''role'' ''assistant'' (m # rest) = Inr None" using n ms by simp
  have nt: "\<not> truthy_opt (field m ''content'')" using a ms by simp
  show "tool_result sf fmt tid ms = Inr \<lparr>tr_data = JArr ms, tr_threadId = tid, tr_reasoning = None\<rparr>"
    unfolding ms tool_result_def Let_def
    by (simp add: n' oc nt del: find_by.simps)
next
  assume a: "ms \<noteq> [] \<and> field (hd ms) ''content'' = Some c \<and> truthy c \<and> \<not> isArray (Some c)"
  then obtain m rest where ms: "ms = m # rest" by (cases ms) auto
  from a ms obtain kvs where m: "m = JObj kvs" by (cases m) auto
  have o: "opt_field (Some m) ''content'' = Some c"
    using a ms m by (simp add: opt_field_def)
  have t: "truthy_opt (Some m)" "truthy_opt (Some c)"
    using a m by (simp_all add: truthy_opt_def)
  from a have na: "\<And>xs. c \<noteq> JArr xs" by auto
  have n': "find_by ''role'' ''assistant'' (m # rest) = Inr None" using n ms by simp
  show "tool_result sf fmt tid ms = Inr \<lparr>tr_data = c, tr_threadId = tid, tr_reasoning = None\<rparr>"
    unfolding ms tool_result_def Let_def
    using na by (simp add: n' o t del: find_by.simps split: json.splits)
next
  assume a: "ms \<noteq> [] \<and> field (hd ms) ''content'' = Some (JArr cs) \<and> JNull \<notin> set cs"
  then obtain m rest where ms: "ms = m # rest" by (cases ms) auto
  from a ms obtain kvs where m: "m = JObj kvs" by (cases m) auto
  have o: "opt_field (Some m) ''content'' = Some (JArr cs)"
    using a ms m by (simp add: opt_field_def)
  have t: "truthy_opt (Some m)" "truthy_opt (Some (JArr cs))"
    using m by (simp_all add: truthy_opt_def)
  from a obtain d where d: "content_data sf cs = Inr d" using content_data_total by blast
  have n': "find_by ''role'' ''assistant'' (m # rest) = Inr None" using n ms by simp
  have nn: "JNull \<notin> set cs" using a by simp
  have "tool_result sf fmt tid ms = Inr \<lparr>tr_data = d, tr_threadId = tid, tr_reasoning = Some (fmt cs False)\<rparr>"
    unfolding ms tool_result_def Let_def
    by (simp add: n' o t d nn del: find_by.simps)
  then show "\<exists>d. tool_result sf fmt tid ms
                = Inr \<lparr>tr_data = d, tr_threadId = tid, tr_reasoning = Some (fmt cs False)\<rparr>" by blast
qed

lemma tool_poll_failed_step:
  "poll_failed (poll i) \<Longrightarrow>
     tool_poll poll tid (Suc n) i msgs tr = tool_poll poll tid n (Suc i) msgs (tr @ [Delay 4000, GetMessages tid])"
  by (auto simp: poll_failed_def Let_def split: sum.splits)

lemma tool_poll_fetched_step:
  "poll_fetched (poll i) ms \<Longrightarrow> find_by ''role'' ''assistant'' ms = Inr None \<Longrightarrow>
     tool_poll poll tid (Suc n) i msgs tr = tool_poll poll tid n (Suc i) ms (tr @ [Delay 4000, GetMessages tid])"
  by (auto simp: poll_fetched_def Let_def split: sum.splits option.splits)

lemma tool_poll_found_step:
  "poll_fetched (poll i) ms \<Longrightarrow> find_by ''role'' ''assistant'' ms = Inr (Some m) \<Longrightarrow>
     tool_poll poll tid (Suc n) i msgs tr = (tr @ [Delay 4000, GetMessages tid], Inr ms)"
  by (auto simp: poll_fetched_def Let_def split: sum.splits option.splits)

lemma tool_poll_quiet_cases:
  "tool_poll_quiet reply =
     (poll_failed reply \<or> (\<exists>ms. poll_fetched reply ms \<and> find_by ''role'' ''assistant'' ms = Inr None))"
proof (cases reply)
  case (Inl e)
  then show ?thesis by (simp add: tool_poll_quiet_def poll_failed_def poll_fetched_def)
next
  case (Inr r)
  show ?thesis
  proof (cases "h_json r")
    case None
    with Inr show ?thesis by (simp add: tool_poll_quiet_def poll_failed_def poll_fetched_def)
  next
    case (Some d)
    show ?thesis
    proof (cases "thread_messages d")
      case (Inl e)
      with Inr Some show ?thesis by (simp add: tool_poll_quiet_def poll_failed_def poll_fetched_def)
    next
      case r2: (Inr ms)
      with Inr Some show ?thesis by (simp add: tool_poll_quiet_def poll_failed_def poll_fetched_def)
    qed
  qed
qed

lemma tool_poll_quiet_last:
  "(\<forall>j < n. tool_poll_quiet (poll (i + j))) \<Longrightarrow>
     \<exists>ms. tool_poll poll tid n i msgs tr
            = (tr @ concat (replicate n [Delay 4000, GetMessages tid]), Inr ms)
          \<and> ((ms = msgs \<and> (\<forall>j < n. poll_failed (poll (i + j))))
             \<or> (find_by ''role'' ''assistant'' ms = Inr None
                \<and> (\<exists>j < n. poll_fetched (poll (i + j)) ms
                      \<and> (\<forall>j' < n. j < j' \<longrightarrow> poll_failed (poll (i + j'))))))"
proof (induction n arbitrary: i msgs tr)
  case 0
  then show ?case by simp
next
  case (Suc n)
  from Suc.prems have q: "tool_poll_quiet (poll i)" by (metis add.right_neutral zero_less_Suc)
  have rest: "\<forall>j < n. tool_poll_quiet (poll (Suc i + j))"
    using Suc.prems by (metis add_Suc_shift Suc_less_eq)
  let ?tr = "tr @ [Delay 4000, GetMessages tid]"
  have app: "\<And>zs. ?tr @ concat (replicate n [Delay 4000, GetMessages tid])
              = tr @ concat (replicate (Suc n) [Delay 4000, GetMessages tid])" by simp
  from q consider (failed) "poll_failed (poll i)"
    | (fetched) ms0 where "poll_fetched (poll i) ms0" "find_by ''role'' ''assistant'' ms0 = Inr None"
    unfolding tool_poll_quiet_cases by blast
  then show ?case
  proof cases
    case failed
    from Suc.IH [OF rest, of msgs ?tr] obtain ms where
      e: "tool_poll poll tid n (Suc i) msgs ?tr = (?tr @ concat (replicate n [Delay 4000, GetMessages tid]), Inr ms)"
      and c: "(ms = msgs \<and> (\<forall>j < n. poll_failed (poll (Suc i + j))))
             \<or> (find_by ''role'' ''assistant'' ms = Inr None
                \<and> (\<exists>j < n. poll_fetched (poll (Suc i + j)) ms
                      \<and> (\<forall>j' < n. j < j' \<longrightarrow> poll_failed (poll (Suc i + j')))))"
      by blast
    have e': "tool_poll poll tid (Suc n) i msgs tr
            = (tr @ concat (replicate (Suc n) [Delay 4000, GetMessages tid]), Inr ms)"
      unfolding tool_poll_failed_step [where poll = poll and i = i, OF failed] e app ..
    from c show ?thesis
    proof
      assume a: "ms = msgs \<and> (\<forall>j < n. poll_failed (poll (Suc i + j)))"
      have "\<forall>j < Suc n. poll_failed (poll (i + j))"
        using failed a by (simp add: All_less_Suc2)
      with a e' show ?thesis by blast
    next
      assume a: "find_by ''role'' ''assistant'' ms = Inr None
                \<and> (\<exists>j < n. poll_fetched (poll (Suc i + j)) ms
                      \<and> (\<forall>j' < n. j < j' \<longrightarrow> poll_failed (poll (Suc i + j'))))"
      then obtain j where j: "j < n" "poll_fetched (poll (Suc i + j)) ms"
          "\<forall>j' < n. j < j' \<longrightarrow> poll_failed (poll (Suc i + j'))" by blast
      have "Suc j < Suc n \<and> poll_fetched (poll (i + Suc j)) ms
              \<and> (\<forall>j' < Suc n. Suc j < j' \<longrightarrow> poll_failed (poll (i + j')))"
        using j by (simp add: All_less_Suc2)
      then have "\<exists>j < Suc n. poll_fetched (poll (i + j)) ms
                      \<and> (\<forall>j' < Suc n. j < j' \<longrightarrow> poll_failed (poll (i + j')))" by blast
      with a e' show ?thesis by blast
    qed
  next
    case fetched
    from Suc.IH [OF rest, of ms0 ?tr] obtain ms where
      e: "tool_poll poll tid n (Suc i) ms0 ?tr = (?tr @ concat (replicate n [Delay 4000, GetMessages tid]), Inr ms)"
      and c: "(ms = ms0 \<and> (\<forall>j < n. poll_failed (poll (Suc i + j))))
             \<or> (find_by ''role'' ''assistant'' ms = Inr None
                \<and> (\<exists>j < n. poll_fetched (poll (Suc i + j)) ms
                      \<and> (\<forall>j' < n. j < j' \<longrightarrow> poll_failed (poll (Suc i + j')))))"
      by blast
    have e': "tool_poll poll tid (Suc n) i msgs tr
            = (tr @ concat (replicate (Suc n) [Delay 4000, GetMessages tid]), Inr ms)"
      unfolding tool_poll_fetched_step [where poll = poll and i = i, OF fetched] e app ..
    from c have "find_by ''role'' ''assistant'' ms = Inr None
                \<and> (\<exists>j < Suc n. poll_fetched (poll (i + j)) ms
                      \<and> (\<forall>j' < Suc n. j < j' \<longrightarrow> poll_failed (poll (i + j'))))"
    proof
      assume a: "ms = ms0 \<and> (\<forall>j < n. poll_failed (poll (Suc i + j)))"
      have "0 < Suc n \<and> poll_fetched (poll (i + 0)) ms
              \<and> (\<forall>j' < Suc n. 0 < j' \<longrightarrow> poll_failed (poll (i + j')))"
        using fetched a by (simp add: All_less_Suc2)
      then have "\<exists>j < Suc n. poll_fetched (poll (i + j)) ms
                      \<and> (\<forall>j' < Suc n. j < j' \<longrightarrow> poll_failed (poll (i + j')))" by blast
      with a fetched show ?thesis by blast
    next
      assume a: "find_by ''role'' ''assistant'' ms = Inr None
                \<and> (\<exists>j < n. poll_fetched (poll (Suc i + j)) ms
                      \<and> (\<forall>j' < n. j < j' \<longrightarrow> poll_failed (poll (Suc i + j'))))"
      then obtain j where j: "j < n" "poll_fetched (poll (Suc i + j)) ms"
          "\<forall>j' < n. j < j' \<longrightarrow> poll_failed (poll (Suc i + j'))" by blast
      have "Suc j < Suc n \<and> poll_fetched (poll (i + Suc j)) ms
              \<and> (\<forall>j' < Suc n. Suc j < j' \<longrightarrow> poll_failed (poll (i + j')))"
        using j by (simp add: All_less_Suc2)
      then have "\<exists>j < Suc n. poll_fetched (poll (i + j)) ms
                      \<and> (\<forall>j' < Suc n. j < j' \<longrightarrow> poll_failed (poll (i + j')))" by blast
      with a show ?thesis by blast
    qed
    with e' show ?thesis by blast
  qed
qed

lemma tool_poll_answer:
  "(\<forall>j < k. tool_poll_quiet (poll (i + j))) \<Longrightarrow> k < n \<Longrightarrow> poll_fetched (poll (i + k)) ms \<Longrightarrow>
   find_by ''role'' ''assistant'' ms = Inr (Some m) \<Longrightarrow>
     tool_poll poll tid n i msgs tr
       = (tr @ concat (replicate (Suc k) [Delay 4000, GetMessages tid]), Inr ms)"
proof (induction k arbitrary: i n msgs tr)
  case 0
  then obtain n' where n: "n = Suc n'" by (cases n) auto
  from 0 have "poll_fetched (poll i) ms" by simp
  from tool_poll_found_step [where poll = poll and i = i, OF this "0.prems"(4)] show ?case unfolding n by simp
next
  case (Suc k)
  then obtain n' where n: "n = Suc n'" and kn: "k < n'" by (cases n) auto
  from Suc.prems(1) have q: "tool_poll_quiet (poll i)" by (metis add.right_neutral zero_less_Suc)
  have rest: "\<forall>j < k. tool_poll_quiet (poll (Suc i + j))"
    using Suc.prems(1) by (metis add_Suc_shift Suc_less_eq)
  have f: "poll_fetched (poll (Suc i + k)) ms" using Suc.prems(3) by simp
  from tool_poll_quiet_step [where poll = poll and i = i and tid = tid and n = n' and msgs = msgs and tr = tr] q
  obtain ms' where s: "tool_poll poll tid (Suc n') i msgs tr
            = tool_poll poll tid n' (Suc i) ms' (tr @ [Delay 4000, GetMessages tid])"
    by blast
  show ?case
    unfolding n s Suc.IH [OF rest kn f Suc.prems(4)] by simp
qed

lemma agent_poll_found_step:
  assumes l: "poll_listed (poll i) ms" and nn: "JNull \<notin> set ms"
    and a: "filter (\<lambda>m. field m ''role'' = Some (JStr ''assistant'')) ms \<noteq> []"
  shows "agent_poll sf ts fmt poll tid (Suc n) i tr
           = (tr @ [Delay 2000, GetMessages tid],
              agent_reply_of sf ts fmt (last (filter (\<lambda>m. field m ''role'' = Some (JStr ''assistant'')) ms)))"
proof -
  from l obtain r d where r: "poll i = Inr r" "h_ok r" "h_json r = Some d" "d \<noteq> JNull"
      "or_else (field d ''data'') (Some d) = Some (JArr ms)"
    by (auto simp: poll_listed_def split: sum.splits option.splits)
  from a obtain x xs where x: "filter (\<lambda>m. field m ''role'' = Some (JStr ''assistant'')) ms = x # xs"
    by (cases "filter (\<lambda>m. field m ''role'' = Some (JStr ''assistant'')) ms") auto
  show ?thesis
    using r(4,5) by (cases d) (simp_all add: r(1,2,3) Let_def filter_by_no_null [OF nn] x)
qed

lemma agent_poll_answer:
  "(\<forall>j < k. agent_poll_quiet (poll (i + j))) \<Longrightarrow> k < n \<Longrightarrow> poll_listed (poll (i + k)) ms \<Longrightarrow>
   JNull \<notin> set ms \<Longrightarrow> filter (\<lambda>m. field m ''role'' = Some (JStr ''assistant'')) ms \<noteq> [] \<Longrightarrow>
     agent_poll sf ts fmt poll tid n i tr
       = (tr @ concat (replicate (Suc k) [Delay 2000, GetMessages tid]),
          agent_reply_of sf ts fmt (last (filter (\<lambda>m. field m ''role'' = Some (JStr ''assistant'')) ms)))"
proof (induction k arbitrary: i n tr)
  case 0
  then obtain n' where n: "n = Suc n'" by (cases n) auto
  from 0 have "poll_listed (poll i) ms" by simp
  from agent_poll_found_step [where poll = poll and i = i, OF this "0.prems"(4,5)] show ?case unfolding n by simp
next
  case (Suc k)
  then obtain n' where n: "n = Suc n'" and kn: "k < n'" by (cases n) auto
  from Suc.prems(1) have q: "agent_poll_quiet (poll i)" by (metis add.right_neutral zero_less_Suc)
  have rest: "\<forall>j < k. agent_poll_quiet (poll (Suc i + j))"
    using Suc.prems(1) by (metis add_Suc_shift Suc_less_eq)
  have f: "poll_listed (poll (Suc i + k)) ms" using Suc.prems(3) by simp
  have s: "agent_poll sf ts fmt poll tid (Suc n') i tr
            = agent_poll sf ts fmt poll tid n' (Suc i) (tr @ [Delay 2000, GetMessages tid])"
    using agent_poll_quiet_step [where poll = poll and i = i] q by blast
  show ?case
    unfolding n s Suc.IH [OF rest kn f Suc.prems(4,5)] by simp
qed

lemma thread_reply_facts:
  "poll_fetched (thread_reply xs) ms = (xs = ms)"
  "poll_listed (thread_reply xs) ms = (xs = ms)"
  "\<not> poll_failed (thread_reply xs)"
  "tool_poll_quiet (thread_reply xs) = (find_by ''role'' ''assistant'' xs = Inr None)"
  "agent_poll_quiet (thread_reply xs) = (filter_by ''role'' ''assistant'' xs = Inr [])"
  by (simp_all add: poll_fetched_def poll_listed_def poll_failed_def tool_poll_quiet_def
      agent_poll_quiet_def thread_reply_def h_ok_def thread_messages_def or_else_def truthy_opt_def)

lemma run_started_returned:
  "run_returned run_started d = (d = JObj [(''thread_id'', JStr ''t1'')])"
  by (auto simp: run_returned_def run_started_def h_ok_def)

lemma invokeToolRemote_polls:
  assumes r: "run_returned run rd" "truthy_opt (field rd ''thread_id'')" "ps \<noteq> JNull"
  shows "invokeToolRemote sf fmt run poll toolId ps agentId
           = (case tool_poll poll (field rd ''thread_id'') 12 0 []
                     [HttpPost ''/v1/orchestrate/runs'' (tool_run_payload sf toolId ps agentId)] of
                (trace, Inl e) \<Rightarrow> (trace, Inl e)
              | (trace, Inr messages) \<Rightarrow> (trace, tool_result sf fmt (field rd ''thread_id'') messages))"
proof (cases run)
  case (Inl e)
  with r show ?thesis by (simp add: run_returned_def)
next
  case (Inr rr)
  with r have "h_ok rr" "h_json rr = Some rd" "rd \<noteq> JNull" by (simp_all add: run_returned_def)
  with Inr r(2,3) show ?thesis
    unfolding invokeToolRemote_def tool_max_attempts_def Let_def
    by (simp del: tool_poll.simps)
qed

lemma invokeAgent_polls:
  assumes r: "run_returned run rd"
  shows "invokeAgent sf ts fmt run poll agent message
           = agent_poll sf ts fmt poll (field rd ''thread_id'') 15 0
               [HttpPost ''/v1/orchestrate/runs''
                  (JObj [(''agent_id'', JStr agent),
                         (''message'', JObj [(''role'', JStr ''user''), (''content'', JStr message)])])]"
proof (cases run)
  case (Inl e)
  with r show ?thesis by (simp add: run_returned_def)
next
  case (Inr rr)
  with r have "h_ok rr" "h_json rr = Some rd" "rd \<noteq> JNull" by (simp_all add: run_returned_def)
  with Inr show ?thesis
    unfolding invokeAgent_def agent_max_attempts_def Let_def
    by (simp del: agent_poll.simps)
qed

lemma invokeToolRemote_exhausted:
  assumes r: "run_returned run rd" "truthy_opt (field rd ''thread_id'')" "ps \<noteq> JNull"
    and q: "\<forall>i < 12. tool_poll_quiet (poll i)"
  shows "\<exists>ms. invokeToolRemote sf fmt run poll toolId ps agentId
              = (HttpPost ''/v1/orchestrate/runs'' (tool_run_payload sf toolId ps agentId)
                   # concat (replicate 12 [Delay 4000, GetMessages (field rd ''thread_id'')]),
                 tool_result sf fmt (field rd ''thread_id'') ms)
           \<and> find_by ''role'' ''assistant'' ms = Inr None
           \<and> ((ms = [] \<and> (\<forall>j < 12. poll_failed (poll j)))
              \<or> (\<exists>j < 12. poll_fetched (poll j) ms \<and> (\<forall>j' < 12. j < j' \<longrightarrow> poll_failed (poll j'))))"
proof -
  have q': "\<forall>j < 12. tool_poll_quiet (poll (0 + j))" using q by simp
  from tool_poll_quiet_last [OF q', of "field rd ''thread_id''" "[]"
      "[HttpPost ''/v1/orchestrate/runs'' (tool_run_payload sf toolId ps agentId)]"]
  obtain ms where p: "tool_poll poll (field rd ''thread_id'') 12 0 []
        [HttpPost ''/v1/orchestrate/runs'' (tool_run_payload sf toolId ps agentId)]
      = ([HttpPost ''/v1/orchestrate/runs'' (tool_run_payload sf toolId ps agentId)]
           @ concat (replicate 12 [Delay 4000, GetMessages (field rd ''thread_id'')]), Inr ms)"
    and c: "(ms = [] \<and> (\<forall>j < 12. poll_failed (poll (0 + j))))
             \<or> (find_by ''role'' ''assistant'' ms = Inr None
                \<and> (\<exists>j < 12. poll_fetched (poll (0 + j)) ms
                      \<and> (\<forall>j' < 12. j < j' \<longrightarrow> poll_failed (poll (0 + j')))))"
    by blast
  have e: "invokeToolRemote sf fmt run poll toolId ps agentId
              = (HttpPost ''/v1/orchestrate/runs'' (tool_run_payload sf toolId ps agentId)
                   # concat (replicate 12 [Delay 4000, GetMessages (field rd ''thread_id'')]),
                 tool_result sf fmt (field rd ''thread_id'') ms)"
    unfolding invokeToolRemote_polls [OF r] p by simp
  from c have f: "find_by ''role'' ''assistant'' ms = Inr None" by auto
  from c have d: "(ms = [] \<and> (\<forall>j < 12. poll_failed (poll j)))
              \<or> (\<exists>j < 12. poll_fetched (poll j) ms \<and> (\<forall>j' < 12. j < j' \<longrightarrow> poll_failed (poll j')))"
    unfolding add_0 by blast
  from e f d show ?thesis by blast
qed

lemma invokeToolRemote_answered:
  assumes r: "run_returned run rd" "truthy_opt (field rd ''thread_id'')" "ps \<noteq> JNull"
    and q: "\<forall>j < k. tool_poll_quiet (poll j)" and k: "k < 12"
    and a: "poll_fetched (poll k) ms" "find_by ''role'' ''assistant'' ms = Inr (Some m)"
  shows "invokeToolRemote sf fmt run poll toolId ps agentId
              = (HttpPost ''/v1/orchestrate/runs'' (tool_run_payload sf toolId ps agentId)
                   # concat (replicate (Suc k) [Delay 4000, GetMessages (field rd ''thread_id'')]),
                 tool_result sf fmt (field rd ''thread_id'') ms)"
proof -
  have q': "\<forall>j < k. tool_poll_quiet (poll (0 + j))" using q by simp
  have a': "poll_fetched (poll (0 + k)) ms" using a by simp
  show ?thesis
    unfolding invokeToolRemote_polls [OF r]
      tool_poll_answer [where poll = poll and i = 0 and k = k, OF q' k a' a(2)]
    by simp
qed

lemma tool_result_assistant:
  assumes f: "find_by ''role'' ''assistant'' ms = Inr (Some m)"
    and c: "field m ''content'' = Some (JStr s)" "s \<noteq> []"
  shows "tool_result sf fmt tid ms = Inr \<lparr>tr_data = JStr s, tr_threadId = tid, tr_reasoning = None\<rparr>"
proof -
  from c obtain kvs where m: "m = JObj kvs" by (cases m) auto
  have o: "opt_field (Some m) ''content'' = Some (JStr s)" using c m by (simp add: opt_field_def)
  have t: "truthy m" using m by simp
  show ?thesis
    unfolding tool_result_def Let_def
    using c(2) by (simp add: f o t truthy_opt_def)
qed

lemma invokeAgent_exhausted:
  assumes r: "run_returned run rd" and q: "\<forall>i < 15. agent_poll_quiet (poll i)"
  shows "invokeAgent sf ts fmt run poll agent message
           = (HttpPost ''/v1/orchestrate/runs''
                (JObj [(''agent_id'', JStr agent),
                       (''message'', JObj [(''role'', JStr ''user''), (''content'', JStr message)])])
                # concat (replicate 15 [Delay 2000, GetMessages (field rd ''thread_id'')]),
              Inl (Error ''Timed out waiting for assistant response.''))"
proof -
  have q': "\<forall>j < 15. agent_poll_quiet (poll (0 + j))" using q by simp
  show ?thesis
    unfolding invokeAgent_polls [OF r] agent_poll_quiet_all [OF q'] by simp
qed

lemma invokeAgent_answered:
  assumes r: "run_returned run rd"
    and q: "\<forall>j < k. agent_poll_quiet (poll j)" and k: "k < 15"
    and a: "poll_listed (poll k) ms" "JNull \<notin> set ms"
       "filter (\<lambda>x. field x ''role'' = Some (JStr ''assistant'')) ms \<noteq> []"
  shows "invokeAgent sf ts fmt run poll agent message
           = (HttpPost ''/v1/orchestrate/runs''
                (JObj [(''agent_id'', JStr agent),
                       (''message'', JObj [(''role'', JStr ''user''), (''content'', JStr message)])])
                # concat (replicate (Suc k) [Delay 2000, GetMessages (field rd ''thread_id'')]),
              agent_reply_of sf ts fmt (last (filter (\<lambda>x. field x ''role'' = Some (JStr ''assistant'')) ms)))"
proof -
  have q': "\<forall>j < k. agent_poll_quiet (poll (0 + j))" using q by simp
  have a': "poll_listed (poll (0 + k)) ms" using a by simp
  show ?thesis
    unfolding invokeAgent_polls [OF r]
      agent_poll_answer [where poll = poll and i = 0 and k = k, OF q' k a' a(2,3)]
    by simp
qed

subsection \<open>Polling: attempts, delays and the message chosen\<close>

text \<open>
  C5 (as stated, refuted). The claim says that both poll loops extract the first message
  with the role "assistant". The agent chat takes the last one: on a thread whose list
  holds the assistant messages \<open>first\<close> and \<open>second\<close>, in this order, the search for the
  first assistant message finds \<open>first\<close>, and \<open>invokeAgent\<close> answers with \<open>second\<close>.
\<close>

theorem agent_chat_takes_last_assistant_message:
  "find_by ''role'' ''assistant'' two_answers = Inr (Some (chat_message ''assistant'' ''first''))
   \<and> snd (invokeAgent (\<lambda>j. []) (\<lambda>j. []) (\<lambda>c b. []) run_started (\<lambda>i. thread_reply two_answers)
            ''agent1'' ''hello'')
       = Inr \<lparr>ar_success = True, ar_response = ''second'', ar_reasoning = None\<rparr>"
proof -
  have r: "run_returned run_started (JObj [(''thread_id'', JStr ''t1'')])"
    by (simp add: run_started_returned)
  have q: "\<forall>j < (0::nat). agent_poll_quiet ((\<lambda>i. thread_reply two_answers) j)" by simp
  have l: "poll_listed ((\<lambda>i. thread_reply two_answers) 0) two_answers"
    by (simp add: thread_reply_facts)
  have k0: "(0::nat) < 15" by simp
  have n: "JNull \<notin> set two_answers" by (simp add: two_answers_def chat_message_def)
  have f: "filter (\<lambda>x. field x ''role'' = Some (JStr ''assistant'')) two_answers
             = [chat_message ''assistant'' ''first'', chat_message ''assistant'' ''second'']"
    by (simp add: two_answers_def chat_message_def)
  have ne: "filter (\<lambda>x. field x ''role'' = Some (JStr ''assistant'')) two_answers \<noteq> []"
    unfolding f by simp
  have "snd (invokeAgent (\<lambda>j. []) (\<lambda>j. []) (\<lambda>c b. []) run_started (\<lambda>i. thread_reply two_answers)
            ''agent1'' ''hello'')
        = agent_reply_of (\<lambda>j. []) (\<lambda>j. []) (\<lambda>c b. []) (chat_message ''assistant'' ''second'')"
    unfolding invokeAgent_answered [where poll = "\<lambda>i. thread_reply two_answers" and k = 0, OF r q k0 l n ne] f
    by simp
  moreover have "agent_reply_of (\<lambda>j. []) (\<lambda>j. []) (\<lambda>c b. []) (chat_message ''assistant'' ''second'')
        = Inr \<lparr>ar_success = True, ar_response = ''second'', ar_reasoning = None\<rparr>"
    by (simp add: agent_reply_of_def chat_message_def)
  moreover have "find_by ''role'' ''assistant'' two_answers
        = Inr (Some (chat_message ''assistant'' ''first''))"
    by (simp add: two_answers_def chat_message_def)
  ultimately show ?thesis by simp
qed

text \<open>
  C5 (amended). After a run that returned a thread (for the tool invocation: called with
  parameters that are not \<open>null\<close>), each attempt of a poll loop is a delay followed by
  one fetch of the thread's messages: 4 seconds for the tool invocation, 2 seconds for the
  agent chat. With a transport whose polls never bring an assistant
  message (and raise nothing), the tool invocation makes exactly 12 attempts and the agent
  chat exactly 15. When the polls before poll \<open>k\<close> bring no assistant message and poll \<open>k\<close>
  (below the maximum) brings a list with one, the loop stops after \<open>k + 1\<close> attempts; the
  tool invocation then builds its result from the first message of that list with the
  role "assistant" (its content, when that is a non-empty string), and the agent chat
  builds its reply from the last message of that list with the role "assistant".
\<close>

theorem poll_loop_attempts:
  "(run_returned run rd \<and> truthy_opt (field rd ''thread_id'') \<and> ps \<noteq> JNull \<longrightarrow>
      ((\<forall>i < 12. tool_poll_quiet (poll i)) \<longrightarrow>
         fst (invokeToolRemote sf fmt run poll toolId ps agentId)
           = HttpPost ''/v1/orchestrate/runs'' (tool_run_payload sf toolId ps agentId)
               # concat (replicate 12 [Delay 4000, GetMessages (field rd ''thread_id'')]))
      \<and> ((\<forall>j < k. tool_poll_quiet (poll j)) \<and> k < 12 \<and> poll_fetched (poll k) ms
            \<and> find_by ''role'' ''assistant'' ms = Inr (Some m) \<longrightarrow>
          invokeToolRemote sf fmt run poll toolId ps agentId
            = (HttpPost ''/v1/orchestrate/runs'' (tool_run_payload sf toolId ps agentId)
                 # concat (replicate (Suc k) [Delay 4000, GetMessages (field rd ''thread_id'')]),
               tool_result sf fmt (field rd ''thread_id'') ms)
          \<and> (\<exists>pre post. ms = pre @ m # post \<and> field m ''role'' = Some (JStr ''assistant'')
                \<and> (\<forall>x \<in> set pre. field x ''role'' \<noteq> Some (JStr ''assistant'')))
          \<and> (field m ''content'' = Some (JStr s) \<and> s \<noteq> [] \<longrightarrow>
                tool_result sf fmt (field rd ''thread_id'') ms
                  = Inr \<lparr>tr_data = JStr s, tr_threadId = field rd ''thread_id'', tr_reasoning = None\<rparr>)))
   \<and> (run_returned run rd \<longrightarrow>
      ((\<forall>i < 15. agent_poll_quiet (poll i)) \<longrightarrow>
         fst (invokeAgent sf ts fmt run poll agent message)
           = HttpPost ''/v1/orchestrate/runs''
               (JObj [(''agent_id'', JStr agent),
                      (''message'', JObj [(''role'', JStr ''user''), (''content'', JStr message)])])
               # concat (replicate 15 [Delay 2000, GetMessages (field rd ''thread_id'')]))
      \<and> ((\<forall>j < k. agent_poll_quiet (poll j)) \<and> k < 15 \<and> poll_listed (poll k) ms \<and> JNull \<notin> set ms
            \<and> filter (\<lambda>x. field x ''role'' = Some (JStr ''assistant'')) ms \<noteq> [] \<longrightarrow>
          invokeAgent sf ts fmt run poll agent message
            = (HttpPost ''/v1/orchestrate/runs''
                 (JObj [(''agent_id'', JStr agent),
                        (''message'', JObj [(''role'', JStr ''user''), (''content'', JStr message)])])
                 # concat (replicate (Suc k) [Delay 2000, GetMessages (field rd ''thread_id'')]),
               agent_reply_of sf ts fmt
                 (last (filter (\<lambda>x. field x ''role'' = Some (JStr ''assistant'')) ms)))))"
proof (intro conjI impI)
  assume r: "run_returned run rd \<and> truthy_opt (field rd ''thread_id'') \<and> ps \<noteq> JNull"
    and q: "\<forall>i < 12. tool_poll_quiet (poll i)"
  from r have r1: "run_returned run rd" and r2: "truthy_opt (field rd ''thread_id'')"
    and r3: "ps \<noteq> JNull" by simp_all
  from invokeToolRemote_exhausted [OF r1 r2 r3 q, where sf = sf and fmt = fmt and toolId = toolId
      and agentId = agentId]
  obtain ms' where "invokeToolRemote sf fmt run poll toolId ps agentId
              = (HttpPost ''/v1/orchestrate/runs'' (tool_run_payload sf toolId ps agentId)
                   # concat (replicate 12 [Delay 4000, GetMessages (field rd ''thread_id'')]),
                 tool_result sf fmt (field rd ''thread_id'') ms')" by blast
  then show "fst (invokeToolRemote sf fmt run poll toolId ps agentId)
           = HttpPost ''/v1/orchestrate/runs'' (tool_run_payload sf toolId ps agentId)
               # concat (replicate 12 [Delay 4000, GetMessages (field rd ''thread_id'')])"
    by simp
next
  assume r: "run_returned run rd \<and> truthy_opt (field rd ''thread_id'') \<and> ps \<noteq> JNull"
    and a: "(\<forall>j < k. tool_poll_quiet (poll j)) \<and> k < 12 \<and> poll_fetched (poll k) ms
            \<and> find_by ''role'' ''assistant'' ms = Inr (Some m)"
  from r have r1: "run_returned run rd" and r2: "truthy_opt (field rd ''thread_id'')"
    and r3: "ps \<noteq> JNull" by simp_all
  from a have a1: "\<forall>j < k. tool_poll_quiet (poll j)" and a2: "k < 12"
    and a3: "poll_fetched (poll k) ms" and a4: "find_by ''role'' ''assistant'' ms = Inr (Some m)"
    by simp_all
  show "invokeToolRemote sf fmt run poll toolId ps agentId
            = (HttpPost ''/v1/orchestrate/runs'' (tool_run_payload sf toolId ps agentId)
                 # concat (replicate (Suc k) [Delay 4000, GetMessages (field rd ''thread_id'')]),
               tool_result sf fmt (field rd ''thread_id'') ms)"
    by (rule invokeToolRemote_answered [OF r1 r2 r3 a1 a2 a3 a4])
next
  assume a: "(\<forall>j < k. tool_poll_quiet (poll j)) \<and> k < 12 \<and> poll_fetched (poll k) ms
            \<and> find_by ''role'' ''assistant'' ms = Inr (Some m)"
  then have "find_by ''role'' ''assistant'' ms = Inr (Some m)" by simp
  then show "\<exists>pre post. ms = pre @ m # post \<and> field m ''role'' = Some (JStr ''assistant'')
                \<and> (\<forall>x \<in> set pre. field x ''role'' \<noteq> Some (JStr ''assistant''))"
    by (rule find_by_Some_first)
next
  assume a: "(\<forall>j < k. tool_poll_quiet (poll j)) \<and> k < 12 \<and> poll_fetched (poll k) ms
            \<and> find_by ''role'' ''assistant'' ms = Inr (Some m)"
    and c: "field m ''content'' = Some (JStr s) \<and> s \<noteq> []"
  from a have f: "find_by ''role'' ''assistant'' ms = Inr (Some m)" by simp
  show "tool_result sf fmt (field rd ''thread_id'') ms
          = Inr \<lparr>tr_data = JStr s, tr_threadId = field rd ''thread_id'', tr_reasoning = None\<rparr>"
    by (rule tool_result_assistant [OF f conjunct1 [OF c] conjunct2 [OF c]])
next
  assume r: "run_returned run rd" and q: "\<forall>i < 15. agent_poll_quiet (poll i)"
  show "fst (invokeAgent sf ts fmt run poll agent message)
           = HttpPost ''/v1/orchestrate/runs''
               (JObj [(''agent_id'', JStr agent),
                      (''message'', JObj [(''role'', JStr ''user''), (''content'', JStr message)])])
               # concat (replicate 15 [Delay 2000, GetMessages (field rd ''thread_id'')])"
    unfolding invokeAgent_exhausted [OF r q] by simp
next
  assume r: "run_returned run rd"
    and a: "(\<forall>j < k. agent_poll_quiet (poll j)) \<and> k < 15 \<and> poll_listed (poll k) ms \<and> JNull \<notin> set ms
            \<and> filter (\<lambda>x. field x ''role'' = Some (JStr ''assistant'')) ms \<noteq> []"
  from a have a1: "\<forall>j < k. agent_poll_quiet (poll j)" and a2: "k < 15"
    and a3: "poll_listed (poll k) ms" and a4: "JNull \<notin> set ms"
    and a5: "filter (\<lambda>x. field x ''role'' = Some (JStr ''assistant'')) ms \<noteq> []"
    by simp_all
  show "invokeAgent sf ts fmt run poll agent message
            = (HttpPost ''/v1/orchestrate/runs''
                 (JObj [(''agent_id'', JStr agent),
                        (''message'', JObj [(''role'', JStr ''user''), (''content'', JStr message)])])
                 # concat (replicate (Suc k) [Delay 2000, GetMessages (field rd ''thread_id'')]),
               agent_reply_of sf ts fmt
                 (last (filter (\<lambda>x. field x ''role'' = Some (JStr ''assistant'')) ms)))"
    by (rule invokeAgent_answered [OF r a1 a2 a3 a4 a5])
qed

theorem poll_loop_attempts_witness:
  "fst (invokeToolRemote (\<lambda>j. []) (\<lambda>c b. []) run_started (\<lambda>i. thread_reply user_only)
          ''tool1'' (JObj []) None)
     = HttpPost ''/v1/orchestrate/runs'' (tool_run_payload (\<lambda>j. []) ''tool1'' (JObj []) None)
         # concat (replicate 12 [Delay 4000, GetMessages (Some (JStr ''t1''))])
   \<and> invokeToolRemote (\<lambda>j. []) (\<lambda>c b. []) run_started answers_third ''tool1'' (JObj []) None
     = (HttpPost ''/v1/orchestrate/runs'' (tool_run_payload (\<lambda>j. []) ''tool1'' (JObj []) None)
         # concat (replicate 3 [Delay 4000, GetMessages (Some (JStr ''t1''))]),
        Inr \<lparr>tr_data = JStr ''first'', tr_threadId = Some (JStr ''t1''), tr_reasoning = None\<rparr>)
   \<and> fst (invokeAgent (\<lambda>j. []) (\<lambda>j. []) (\<lambda>c b. []) run_started (\<lambda>i. thread_reply user_only)
          ''agent1'' ''hello'')
     = HttpPost ''/v1/orchestrate/runs''
         (JObj [(''agent_id'', JStr ''agent1''),
                (''message'', JObj [(''role'', JStr ''user''), (''content'', JStr ''hello'')])])
         # concat (replicate 15 [Delay 2000, GetMessages (Some (JStr ''t1''))])
   \<and> invokeAgent (\<lambda>j. []) (\<lambda>j. []) (\<lambda>c b. []) run_started answers_third ''agent1'' ''hello''
     = (HttpPost ''/v1/orchestrate/runs''
         (JObj [(''agent_id'', JStr ''agent1''),
                (''message'', JObj [(''role'', JStr ''user''), (''content'', JStr ''hello'')])])
         # concat (replicate 3 [Delay 2000, GetMessages (Some (JStr ''t1''))]),
        Inr \<lparr>ar_success = True, ar_response = ''second'', ar_reasoning = None\<rparr>)"
proof -
  let ?rd = "JObj [(''thread_id'', JStr ''t1'')]"
  let ?first = "chat_message ''assistant'' ''first''"
  let ?post = "HttpPost ''/v1/orchestrate/runs'' (tool_run_payload (\<lambda>j. []) ''tool1'' (JObj []) None)"
  let ?chat = "HttpPost ''/v1/orchestrate/runs''
         (JObj [(''agent_id'', JStr ''agent1''),
                (''message'', JObj [(''role'', JStr ''user''), (''content'', JStr ''hello'')])])"
  let ?asst = "\<lambda>x. field x ''role'' = Some (JStr ''assistant'')"
  note quiet = poll_loop_attempts [where run = run_started and rd = ?rd
      and poll = "\<lambda>i. thread_reply user_only" and sf = "\<lambda>j. []" and fmt = "\<lambda>c b. []"
      and ts = "\<lambda>j. []" and toolId = "''tool1''" and ps = "JObj []" and agentId = None
      and agent = "''agent1''" and message = "''hello''" and k = 0 and ms = "[]" and m = JNull
      and s = "[]"]
  note third = poll_loop_attempts [where run = run_started and rd = ?rd
      and poll = answers_third and sf = "\<lambda>j. []" and fmt = "\<lambda>c b. []"
      and ts = "\<lambda>j. []" and toolId = "''tool1''" and ps = "JObj []" and agentId = None
      and agent = "''agent1''" and message = "''hello''" and k = 2 and ms = two_answers
      and m = ?first and s = "''first''"]
  have r: "run_returned run_started ?rd" by (simp add: run_started_returned)
  have tid: "field ?rd ''thread_id'' = Some (JStr ''t1'')" by simp
  have rt: "run_returned run_started ?rd \<and> truthy_opt (field ?rd ''thread_id'') \<and> JObj [] \<noteq> JNull"
    using r by (simp add: truthy_opt_def)
  have q12: "\<forall>i < 12. tool_poll_quiet (thread_reply user_only)"
    by (simp add: thread_reply_facts user_only_def chat_message_def)
  have q15: "\<forall>i < 15. agent_poll_quiet (thread_reply user_only)"
    by (simp add: thread_reply_facts user_only_def chat_message_def)
  have two: "\<And>j::nat. j < 2 \<Longrightarrow> answers_third j = thread_reply user_only"
    "answers_third 2 = thread_reply two_answers"
    by (simp_all add: answers_third_def)
  have found: "find_by ''role'' ''assistant'' two_answers = Inr (Some ?first)"
    by (simp add: two_answers_def chat_message_def)
  have a: "(\<forall>j < 2. tool_poll_quiet (answers_third j)) \<and> (2::nat) < 12
       \<and> poll_fetched (answers_third 2) two_answers
       \<and> find_by ''role'' ''assistant'' two_answers = Inr (Some ?first)"
    using found by (simp add: two thread_reply_facts user_only_def chat_message_def)
  have c: "field ?first ''content'' = Some (JStr ''first'') \<and> ''first'' \<noteq> []"
    by (simp add: chat_message_def)
  have fl: "filter ?asst two_answers = [?first, chat_message ''assistant'' ''second'']"
    by (simp add: two_answers_def chat_message_def)
  have b: "(\<forall>j < 2. agent_poll_quiet (answers_third j)) \<and> (2::nat) < 15
       \<and> poll_listed (answers_third 2) two_answers \<and> JNull \<notin> set two_answers
       \<and> filter ?asst two_answers \<noteq> []"
    unfolding fl
    by (simp add: two thread_reply_facts user_only_def two_answers_def chat_message_def)
  have c1: "fst (invokeToolRemote (\<lambda>j. []) (\<lambda>c b. []) run_started (\<lambda>i. thread_reply user_only)
          ''tool1'' (JObj []) None)
     = ?post # concat (replicate 12 [Delay 4000, GetMessages (field ?rd ''thread_id'')])"
    by (rule mp [OF conjunct1 [OF mp [OF conjunct1 [OF quiet] rt]] q12])
  note tool3 = mp [OF conjunct2 [OF mp [OF conjunct1 [OF third] rt]] a]
  have c2a: "invokeToolRemote (\<lambda>j. []) (\<lambda>c b. []) run_started answers_third ''tool1'' (JObj []) None
     = (?post # concat (replicate (Suc 2) [Delay 4000, GetMessages (field ?rd ''thread_id'')]),
        tool_result (\<lambda>j. []) (\<lambda>c b. []) (field ?rd ''thread_id'') two_answers)"
    by (rule conjunct1 [OF tool3])
  have c2b: "tool_result (\<lambda>j. []) (\<lambda>c b. []) (field ?rd ''thread_id'') two_answers
     = Inr \<lparr>tr_data = JStr ''first'', tr_threadId = field ?rd ''thread_id'', tr_reasoning = None\<rparr>"
    by (rule mp [OF conjunct2 [OF conjunct2 [OF tool3]] c])
  have c3: "fst (invokeAgent (\<lambda>j. []) (\<lambda>j. []) (\<lambda>c b. []) run_started (\<lambda>i. thread_reply user_only)
          ''agent1'' ''hello'')
     = ?chat # concat (replicate 15 [Delay 2000, GetMessages (field ?rd ''thread_id'')])"
    by (rule mp [OF conjunct1 [OF mp [OF conjunct2 [OF quiet] r]] q15])
  have c4a: "invokeAgent (\<lambda>j. []) (\<lambda>j. []) (\<lambda>c b. []) run_started answers_third ''agent1'' ''hello''
     = (?chat # concat (replicate (Suc 2) [Delay 2000, GetMessages (field ?rd ''thread_id'')]),
        agent_reply_of (\<lambda>j. []) (\<lambda>j. []) (\<lambda>c b. []) (last (filter ?asst two_answers)))"
    by (rule mp [OF conjunct2 [OF mp [OF conjunct2 [OF third] r]] b])
  have c4b: "agent_reply_of (\<lambda>j. []) (\<lambda>j. []) (\<lambda>c b. []) (last (filter ?asst two_answers))
     = Inr \<lparr>ar_success = True, ar_response = ''second'', ar_reasoning = None\<rparr>"
    unfolding fl by (simp add: agent_reply_of_def chat_message_def)
  have c2: "invokeToolRemote (\<lambda>j. []) (\<lambda>c b. []) run_started answers_third ''tool1'' (JObj []) None
     = (?post # concat (replicate (Suc 2) [Delay 4000, GetMessages (field ?rd ''thread_id'')]),
        Inr \<lparr>tr_data = JStr ''first'', tr_threadId = field ?rd ''thread_id'', tr_reasoning = None\<rparr>)"
    unfolding c2a c2b by (rule refl)
  have c4: "invokeAgent (\<lambda>j. []) (\<lambda>j. []) (\<lambda>c b. []) run_started answers_third ''agent1'' ''hello''
     = (?chat # concat (replicate (Suc 2) [Delay 2000, GetMessages (field ?rd ''thread_id'')]),
        Inr \<lparr>ar_success = True, ar_response = ''second'', ar_reasoning = None\<rparr>)"
    unfolding c4a c4b by (rule refl)
  have three: "Suc 2 = 3" by simp
  show ?thesis
    using c1 c2 c3 c4 unfolding tid three by (intro conjI)
qed

subsection \<open>When the attempts are exhausted\<close>

text \<open>
  C4 (as stated, refuted). The claim says that both orchestrators, when no assistant
  message appears before the attempts are exhausted, return the raw accumulated message
  list instead of raising. On a transport whose thread only ever holds the user message
  \<open>hi\<close>, the agent chat raises the error "Timed out waiting for assistant response.", and
  the tool invocation returns the content \<open>hi\<close> of the first message, not the list.
\<close>

theorem exhausted_polls_not_message_list:
  "find_by ''role'' ''assistant'' user_only = Inr None
   \<and> snd (invokeAgent (\<lambda>j. []) (\<lambda>j. []) (\<lambda>c b. []) run_started (\<lambda>i. thread_reply user_only)
            ''agent1'' ''hello'')
       = Inl (Error ''Timed out waiting for assistant response.'')
   \<and> snd (invokeToolRemote (\<lambda>j. []) (\<lambda>c b. []) run_started (\<lambda>i. thread_reply user_only)
            ''tool1'' (JObj []) None)
       = Inr \<lparr>tr_data = JStr ''hi'', tr_threadId = Some (JStr ''t1''), tr_reasoning = None\<rparr>"
proof -
  let ?rd = "JObj [(''thread_id'', JStr ''t1'')]"
  have r: "run_returned run_started ?rd" by (simp add: run_started_returned)
  have t: "truthy_opt (field ?rd ''thread_id'')" by (simp add: truthy_opt_def)
  have n: "find_by ''role'' ''assistant'' user_only = Inr None"
    by (simp add: user_only_def chat_message_def)
  have q12: "\<forall>i < 12. tool_poll_quiet ((\<lambda>i. thread_reply user_only) i)"
    using n by (simp add: thread_reply_facts)
  have q15: "\<forall>i < 15. agent_poll_quiet ((\<lambda>i. thread_reply user_only) i)"
    by (simp add: thread_reply_facts user_only_def chat_message_def)
  have agent: "snd (invokeAgent (\<lambda>j. []) (\<lambda>j. []) (\<lambda>c b. []) run_started (\<lambda>i. thread_reply user_only)
            ''agent1'' ''hello'')
       = Inl (Error ''Timed out waiting for assistant response.'')"
    unfolding invokeAgent_exhausted [where poll = "\<lambda>i. thread_reply user_only", OF r q15] by simp
  have pn: "JObj [] \<noteq> JNull" by simp
  from invokeToolRemote_exhausted [where poll = "\<lambda>i. thread_reply user_only" and sf = "\<lambda>j. []"
      and fmt = "\<lambda>c b. []" and toolId = "''tool1''" and agentId = None, OF r t pn q12]
  obtain ms where e0: "invokeToolRemote (\<lambda>j. []) (\<lambda>c b. []) run_started
            (\<lambda>i. thread_reply user_only) ''tool1'' (JObj []) None
         = (HttpPost ''/v1/orchestrate/runs'' (tool_run_payload (\<lambda>j. []) ''tool1'' (JObj []) None)
              # concat (replicate 12 [Delay 4000, GetMessages (field ?rd ''thread_id'')]),
            tool_result (\<lambda>j. []) (\<lambda>c b. []) (field ?rd ''thread_id'') ms)"
    and d: "(ms = [] \<and> (\<forall>j < (12::nat). poll_failed (thread_reply user_only)))
              \<or> (\<exists>j < (12::nat). poll_fetched (thread_reply user_only) ms
                    \<and> (\<forall>j' < (12::nat). j < j' \<longrightarrow> poll_failed (thread_reply user_only)))"
    by blast
  have e: "snd (invokeToolRemote (\<lambda>j. []) (\<lambda>c b. []) run_started
            (\<lambda>i. thread_reply user_only) ''tool1'' (JObj []) None)
         = tool_result (\<lambda>j. []) (\<lambda>c b. []) (field ?rd ''thread_id'') ms"
    unfolding e0 by simp
  have nf: "\<not> (\<forall>j < (12::nat). poll_failed (thread_reply user_only))"
    by (auto simp: thread_reply_facts intro: exI [where x = 0])
  from d nf have ms: "ms = user_only" by (auto simp: thread_reply_facts)
  have h: "user_only \<noteq> [] \<and> field (hd user_only) ''content'' = Some (JStr ''hi'')
             \<and> truthy (JStr ''hi'') \<and> \<not> isArray (Some (JStr ''hi''))"
    by (simp add: user_only_def chat_message_def)
  note cases = tool_result_no_assistant [OF n, of "\<lambda>j. []" "\<lambda>c b. []" "JStr ''t1''"
      "field ?rd ''thread_id''" "JStr ''hi''" "[]"]
  have "tool_result (\<lambda>j. []) (\<lambda>c b. []) (field ?rd ''thread_id'') user_only
          = Inr \<lparr>tr_data = JStr ''hi'', tr_threadId = field ?rd ''thread_id'', tr_reasoning = None\<rparr>"
    by (rule mp [OF conjunct1 [OF conjunct2 [OF conjunct2 [OF cases]]] h])
  with e ms have tool: "snd (invokeToolRemote (\<lambda>j. []) (\<lambda>c b. []) run_started
            (\<lambda>i. thread_reply user_only) ''tool1'' (JObj []) None)
       = Inr \<lparr>tr_data = JStr ''hi'', tr_threadId = Some (JStr ''t1''), tr_reasoning = None\<rparr>"
    by simp
  from n agent tool show ?thesis by (intro conjI)
qed

text \<open>
  C4 (amended). Let the run have returned a thread, and let every poll up to the maximum
  bring no assistant message and raise nothing. The tool invocation (called with
  parameters that are not \<open>null\<close>) then computes its
  result from the list of the last successful fetch (the empty list when every poll
  failed), in which no message has the role "assistant": for the empty list the result
  is the placeholder object with \<open>thread_id\<close> and \<open>info\<close>; for a list whose first message
  has no truthy content it is the list itself; for a list whose first message has a truthy
  content that is not an array it is that content; and for a content array without a
  \<open>null\<close> block it is some data, with the reasoning text of the blocks. The agent chat
  raises the error "Timed out waiting for assistant response.".
\<close>

theorem exhausted_polls_outcome:
  "(run_returned run rd \<and> truthy_opt (field rd ''thread_id'') \<and> ps \<noteq> JNull
      \<and> (\<forall>i < 12. tool_poll_quiet (poll i)) \<longrightarrow>
      (\<exists>fetched. snd (invokeToolRemote sf fmt run poll toolId ps agentId)
                = tool_result sf fmt (field rd ''thread_id'') fetched
           \<and> find_by ''role'' ''assistant'' fetched = Inr None
           \<and> ((fetched = [] \<and> (\<forall>j < 12. poll_failed (poll j)))
              \<or> (\<exists>j < 12. poll_fetched (poll j) fetched
                    \<and> (\<forall>j' < 12. j < j' \<longrightarrow> poll_failed (poll j'))))))
   \<and> (find_by ''role'' ''assistant'' ms = Inr None \<longrightarrow>
        (ms = [] \<longrightarrow> tool_result sf fmt (Some t) ms
             = Inr \<lparr>tr_data = JObj [(''thread_id'', t), (''info'', JStr ''No tool output in messages.'')],
                    tr_threadId = Some t, tr_reasoning = None\<rparr>)
       \<and> (ms \<noteq> [] \<and> \<not> truthy_opt (field (hd ms) ''content'') \<longrightarrow>
             tool_result sf fmt tid ms = Inr \<lparr>tr_data = JArr ms, tr_threadId = tid, tr_reasoning = None\<rparr>)
       \<and> (ms \<noteq> [] \<and> field (hd ms) ''content'' = Some c \<and> truthy c \<and> \<not> isArray (Some c) \<longrightarrow>
             tool_result sf fmt tid ms = Inr \<lparr>tr_data = c, tr_threadId = tid, tr_reasoning = None\<rparr>)
       \<and> (ms \<noteq> [] \<and> field (hd ms) ''content'' = Some (JArr cs) \<and> JNull \<notin> set cs \<longrightarrow>
             (\<exists>d. tool_result sf fmt tid ms
                = Inr \<lparr>tr_data = d, tr_threadId = tid, tr_reasoning = Some (fmt cs False)\<rparr>)))
   \<and> (run_returned run rd \<and> (\<forall>i < 15. agent_poll_quiet (poll i)) \<longrightarrow>
        snd (invokeAgent sf ts fmt run poll agent message)
          = Inl (Error ''Timed out waiting for assistant response.''))"
proof -
  have tool: "run_returned run rd \<and> truthy_opt (field rd ''thread_id'') \<and> ps \<noteq> JNull
      \<and> (\<forall>i < 12. tool_poll_quiet (poll i)) \<longrightarrow>
      (\<exists>fetched. snd (invokeToolRemote sf fmt run poll toolId ps agentId)
                = tool_result sf fmt (field rd ''thread_id'') fetched
           \<and> find_by ''role'' ''assistant'' fetched = Inr None
           \<and> ((fetched = [] \<and> (\<forall>j < 12. poll_failed (poll j)))
              \<or> (\<exists>j < 12. poll_fetched (poll j) fetched
                    \<and> (\<forall>j' < 12. j < j' \<longrightarrow> poll_failed (poll j')))))"
  proof (rule impI)
    assume h: "run_returned run rd \<and> truthy_opt (field rd ''thread_id'') \<and> ps \<noteq> JNull
      \<and> (\<forall>i < 12. tool_poll_quiet (poll i))"
    then have r: "run_returned run rd" and t: "truthy_opt (field rd ''thread_id'')"
      and pn: "ps \<noteq> JNull" and q: "\<forall>i < 12. tool_poll_quiet (poll i)" by simp_all
    from invokeToolRemote_exhausted [OF r t pn q, where sf = sf and fmt = fmt and toolId = toolId
        and agentId = agentId]
    obtain ms' where e: "invokeToolRemote sf fmt run poll toolId ps agentId
              = (HttpPost ''/v1/orchestrate/runs'' (tool_run_payload sf toolId ps agentId)
                   # concat (replicate 12 [Delay 4000, GetMessages (field rd ''thread_id'')]),
                 tool_result sf fmt (field rd ''thread_id'') ms')"
      and f: "find_by ''role'' ''assistant'' ms' = Inr None"
      and d: "(ms' = [] \<and> (\<forall>j < 12. poll_failed (poll j)))
              \<or> (\<exists>j < 12. poll_fetched (poll j) ms' \<and> (\<forall>j' < 12. j < j' \<longrightarrow> poll_failed (poll j')))"
      by blast
    have s: "snd (invokeToolRemote sf fmt run poll toolId ps agentId)
                = tool_result sf fmt (field rd ''thread_id'') ms'"
      unfolding e by simp
    show "\<exists>fetched. snd (invokeToolRemote sf fmt run poll toolId ps agentId)
                = tool_result sf fmt (field rd ''thread_id'') fetched
           \<and> find_by ''role'' ''assistant'' fetched = Inr None
           \<and> ((fetched = [] \<and> (\<forall>j < 12. poll_failed (poll j)))
              \<or> (\<exists>j < 12. poll_fetched (poll j) fetched
                    \<and> (\<forall>j' < 12. j < j' \<longrightarrow> poll_failed (poll j'))))"
      by (rule exI [where x = ms'], intro conjI, rule s, rule f, rule d)
  qed
  have result: "find_by ''role'' ''assistant'' ms = Inr None \<longrightarrow>
        (ms = [] \<longrightarrow> tool_result sf fmt (Some t) ms
             = Inr \<lparr>tr_data = JObj [(''thread_id'', t), (''info'', JStr ''No tool output in messages.'')],
                    tr_threadId = Some t, tr_reasoning = None\<rparr>)
       \<and> (ms \<noteq> [] \<and> \<not> truthy_opt (field (hd ms) ''content'') \<longrightarrow>
             tool_result sf fmt tid ms = Inr \<lparr>tr_data = JArr ms, tr_threadId = tid, tr_reasoning = None\<rparr>)
       \<and> (ms \<noteq> [] \<and> field (hd ms) ''content'' = Some c \<and> truthy c \<and> \<not> isArray (Some c) \<longrightarrow>
             tool_result sf fmt tid ms = Inr \<lparr>tr_data = c, tr_threadId = tid, tr_reasoning = None\<rparr>)
       \<and> (ms \<noteq> [] \<and> field (hd ms) ''content'' = Some (JArr cs) \<and> JNull \<notin> set cs \<longrightarrow>
             (\<exists>d. tool_result sf fmt tid ms
                = Inr \<lparr>tr_data = d, tr_threadId = tid, tr_reasoning = Some (fmt cs False)\<rparr>))"
    by (rule impI, rule tool_result_no_assistant)
  have agent: "run_returned run rd \<and> (\<forall>i < 15. agent_poll_quiet (poll i)) \<longrightarrow>
        snd (invokeAgent sf ts fmt run poll agent message)
          = Inl (Error ''Timed out waiting for assistant response.'')"
  proof (rule impI)
    assume h: "run_returned run rd \<and> (\<forall>i < 15. agent_poll_quiet (poll i))"
    then have r: "run_returned run rd" and q: "\<forall>i < 15. agent_poll_quiet (poll i)" by simp_all
    show "snd (invokeAgent sf ts fmt run poll agent message)
          = Inl (Error ''Timed out waiting for assistant response.'')"
      unfolding invokeAgent_exhausted [OF r q] by simp
  qed
  from tool result agent show ?thesis by (intro conjI)
qed

theorem exhausted_polls_outcome_witness:
  "snd (invokeToolRemote (\<lambda>j. []) (\<lambda>c b. []) run_started (\<lambda>i. thread_reply []) ''tool1'' (JObj []) None)
     = Inr \<lparr>tr_data = JObj [(''thread_id'', JStr ''t1''), (''info'', JStr ''No tool output in messages.'')],
            tr_threadId = Some (JStr ''t1''), tr_reasoning = None\<rparr>
   \<and> snd (invokeAgent (\<lambda>j. []) (\<lambda>j. []) (\<lambda>c b. []) run_started (\<lambda>i. thread_reply [])
            ''agent1'' ''hello'')
     = Inl (Error ''Timed out waiting for assistant response.'')
   \<and> tool_result (\<lambda>j. []) (\<lambda>c b. []) (Some (JStr ''t1'')) no_content
     = Inr \<lparr>tr_data = JArr no_content, tr_threadId = Some (JStr ''t1''), tr_reasoning = None\<rparr>
   \<and> tool_result (\<lambda>j. []) (\<lambda>c b. []) (Some (JStr ''t1'')) user_only
     = Inr \<lparr>tr_data = JStr ''hi'', tr_threadId = Some (JStr ''t1''), tr_reasoning = None\<rparr>
   \<and> (\<exists>d. tool_result (\<lambda>j. []) (\<lambda>c b. []) (Some (JStr ''t1'')) block_content
           = Inr \<lparr>tr_data = d, tr_threadId = Some (JStr ''t1''), tr_reasoning = Some []\<rparr>)"
proof -
  let ?rd = "JObj [(''thread_id'', JStr ''t1'')]"
  let ?blocks = "[JObj [(''type'', JStr ''text''), (''text'', JStr ''hi'')]]"
  note empty = exhausted_polls_outcome [where run = run_started and rd = ?rd
      and poll = "\<lambda>i. thread_reply []" and sf = "\<lambda>j. []" and fmt = "\<lambda>c b. []"
      and ts = "\<lambda>j. []" and toolId = "''tool1''" and ps = "JObj []" and agentId = None
      and agent = "''agent1''" and message = "''hello''" and ms = "[]" and t = "JStr ''t1''"
      and tid = "Some (JStr ''t1'')" and c = JNull and cs = "[]"]
  note bare = exhausted_polls_outcome [where run = run_started and rd = ?rd
      and poll = "\<lambda>i. thread_reply []" and sf = "\<lambda>j. []" and fmt = "\<lambda>c b. []"
      and ts = "\<lambda>j. []" and toolId = "''tool1''" and ps = "JObj []" and agentId = None
      and agent = "''agent1''" and message = "''hello''" and ms = no_content and t = "JStr ''t1''"
      and tid = "Some (JStr ''t1'')" and c = JNull and cs = "[]"]
  note plain = exhausted_polls_outcome [where run = run_started and rd = ?rd
      and poll = "\<lambda>i. thread_reply []" and sf = "\<lambda>j. []" and fmt = "\<lambda>c b. []"
      and ts = "\<lambda>j. []" and toolId = "''tool1''" and ps = "JObj []" and agentId = None
      and agent = "''agent1''" and message = "''hello''" and ms = user_only and t = "JStr ''t1''"
      and tid = "Some (JStr ''t1'')" and c = "JStr ''hi''" and cs = "[]"]
  note blocks = exhausted_polls_outcome [where run = run_started and rd = ?rd
      and poll = "\<lambda>i. thread_reply []" and sf = "\<lambda>j. []" and fmt = "\<lambda>c b. []"
      and ts = "\<lambda>j. []" and toolId = "''tool1''" and ps = "JObj []" and agentId = None
      and agent = "''agent1''" and message = "''hello''" and ms = block_content and t = "JStr ''t1''"
      and tid = "Some (JStr ''t1'')" and c = JNull and cs = ?blocks]
  have r: "run_returned run_started ?rd" by (simp add: run_started_returned)
  have tid: "field ?rd ''thread_id'' = Some (JStr ''t1'')" by simp
  have h12: "run_returned run_started ?rd \<and> truthy_opt (field ?rd ''thread_id'') \<and> JObj [] \<noteq> JNull
       \<and> (\<forall>i < 12. tool_poll_quiet (thread_reply []))"
    using r by (simp add: truthy_opt_def thread_reply_facts)
  have h15: "run_returned run_started ?rd \<and> (\<forall>i < 15. agent_poll_quiet (thread_reply []))"
    using r by (simp add: thread_reply_facts)
  from mp [OF conjunct1 [OF empty] h12]
  obtain fetched where e: "snd (invokeToolRemote (\<lambda>j. []) (\<lambda>c b. []) run_started
          (\<lambda>i. thread_reply []) ''tool1'' (JObj []) None)
        = tool_result (\<lambda>j. []) (\<lambda>c b. []) (field ?rd ''thread_id'') fetched"
    and d: "(fetched = [] \<and> (\<forall>j < (12::nat). poll_failed (thread_reply [])))
              \<or> (\<exists>j < (12::nat). poll_fetched (thread_reply []) fetched
                    \<and> (\<forall>j' < (12::nat). j < j' \<longrightarrow> poll_failed (thread_reply [])))"
    by blast
  from d have nil: "fetched = []" by (auto simp: thread_reply_facts)
  have n0: "find_by ''role'' ''assistant'' [] = Inr None" by simp
  have n1: "find_by ''role'' ''assistant'' no_content = Inr None" by (simp add: no_content_def)
  have n2: "find_by ''role'' ''assistant'' user_only = Inr None"
    by (simp add: user_only_def chat_message_def)
  have n3: "find_by ''role'' ''assistant'' block_content = Inr None" by (simp add: block_content_def)
  have p0: "tool_result (\<lambda>j. []) (\<lambda>c b. []) (Some (JStr ''t1'')) []
     = Inr \<lparr>tr_data = JObj [(''thread_id'', JStr ''t1''), (''info'', JStr ''No tool output in messages.'')],
            tr_threadId = Some (JStr ''t1''), tr_reasoning = None\<rparr>"
    by (rule mp [OF conjunct1 [OF mp [OF conjunct1 [OF conjunct2 [OF empty]] n0]] refl])
  have g1: "no_content \<noteq> [] \<and> \<not> truthy_opt (field (hd no_content) ''content'')"
    by (simp add: no_content_def truthy_opt_def)
  have p1: "tool_result (\<lambda>j. []) (\<lambda>c b. []) (Some (JStr ''t1'')) no_content
     = Inr \<lparr>tr_data = JArr no_content, tr_threadId = Some (JStr ''t1''), tr_reasoning = None\<rparr>"
    by (rule mp [OF conjunct1 [OF conjunct2 [OF mp [OF conjunct1 [OF conjunct2 [OF bare]] n1]]] g1])
  have g2: "user_only \<noteq> [] \<and> field (hd user_only) ''content'' = Some (JStr ''hi'')
             \<and> truthy (JStr ''hi'') \<and> \<not> isArray (Some (JStr ''hi''))"
    by (simp add: user_only_def chat_message_def)
  have p2: "tool_result (\<lambda>j. []) (\<lambda>c b. []) (Some (JStr ''t1'')) user_only
     = Inr \<lparr>tr_data = JStr ''hi'', tr_threadId = Some (JStr ''t1''), tr_reasoning = None\<rparr>"
    by (rule mp [OF conjunct1 [OF conjunct2 [OF conjunct2
          [OF mp [OF conjunct1 [OF conjunct2 [OF plain]] n2]]]] g2])
  have g3: "block_content \<noteq> [] \<and> field (hd block_content) ''content'' = Some (JArr ?blocks)
             \<and> JNull \<notin> set ?blocks"
    by (simp add: block_content_def)
  have p3: "\<exists>d. tool_result (\<lambda>j. []) (\<lambda>c b. []) (Some (JStr ''t1'')) block_content
           = Inr \<lparr>tr_data = d, tr_threadId = Some (JStr ''t1''), tr_reasoning = Some []\<rparr>"
    by (rule mp [OF conjunct2 [OF conjunct2 [OF conjunct2
          [OF mp [OF conjunct1 [OF conjunct2 [OF blocks]] n3]]]] g3])
  have a: "snd (invokeAgent (\<lambda>j. []) (\<lambda>j. []) (\<lambda>c b. []) run_started (\<lambda>i. thread_reply [])
            ''agent1'' ''hello'')
     = Inl (Error ''Timed out waiting for assistant response.'')"
    by (rule mp [OF conjunct2 [OF conjunct2 [OF empty]] h15])
  have p: "snd (invokeToolRemote (\<lambda>j. []) (\<lambda>c b. []) run_started (\<lambda>i. thread_reply []) ''tool1'' (JObj []) None)
     = Inr \<lparr>tr_data = JObj [(''thread_id'', JStr ''t1''), (''info'', JStr ''No tool output in messages.'')],
            tr_threadId = Some (JStr ''t1''), tr_reasoning = None\<rparr>"
    unfolding e nil tid p0 by (rule refl)
  from p a p1 p2 p3 show ?thesis by (intro conjI)
qed

end
